(* ===== verification/Prelude.thy ===== *)
theory Prelude
  imports Main "HOL-Library.Word" "HOL-Library.Monad_Syntax"
begin

text \<open>
  Shared vocabulary of the development: the machine types of the Go sources, the
  run-time behaviour of slices, and the generic facts on words, lists and options that
  the component theories use.

  A Go computation that may hit a run-time panic (an index or a slice bound out of range)
  returns an \<open>option\<close>: \<open>None\<close> is the run-time panic, which unwinds the goroutine and
  is not an \<^verbatim>\<open>error\<close> value of the program. A Go \<^verbatim>\<open>error\<close> result is the left part of a sum
  or an optional error value beside the state.
\<close>

unbundle bit_operations_syntax

section \<open>Machine types\<close>

type_synonym u8 = "8 word"
type_synonym u16 = "16 word"
type_synonym u32 = "32 word"
type_synonym u64 = "64 word"
type_synonym i64 = "64 word"
type_synonym bytes = "8 word list"

abbreviation u64_of_nat :: "nat \<Rightarrow> u64" where
  "u64_of_nat \<equiv> of_nat"

text \<open>The length of a slice as Go converts it: \<^verbatim>\<open>uint64(len(data))\<close>.\<close>

abbreviation len64 :: "'a list \<Rightarrow> u64" where
  "len64 xs \<equiv> of_nat (length xs)"

section \<open>Collections of facts\<close>

named_theorems word_facts \<open>width and bound facts on machine words\<close>
named_theorems go_facts \<open>unfolding of the Go run-time primitives\<close>

section \<open>Slices and indexing with Go's run-time checks\<close>

definition go_index :: "'a list \<Rightarrow> nat \<Rightarrow> 'a option" where
  "go_index xs n = (if n < length xs then Some (xs ! n) else None)"

definition go_slice :: "'a list \<Rightarrow> nat \<Rightarrow> nat \<Rightarrow> 'a list option" where
  "go_slice xs lo hi = (if lo \<le> hi \<and> hi \<le> length xs then Some (take (hi - lo) (drop lo xs)) else None)"

definition go_slice_from :: "'a list \<Rightarrow> nat \<Rightarrow> 'a list option" where
  "go_slice_from xs lo = (if lo \<le> length xs then Some (drop lo xs) else None)"

text \<open>\<^verbatim>\<open>copy(dst, src)\<close>: the first \<open>min\<close> of the two lengths is overwritten.\<close>

definition go_copy :: "'a list \<Rightarrow> 'a list \<Rightarrow> 'a list" where
  "go_copy dst src = take (length dst) src @ drop (length src) dst"

lemma go_index_Some [go_facts]: "go_index xs n = Some x \<longleftrightarrow> n < length xs \<and> xs ! n = x"
  by (auto simp: go_index_def)

lemma go_index_None [go_facts]: "go_index xs n = None \<longleftrightarrow> length xs \<le> n"
  by (auto simp: go_index_def)

lemma go_slice_Some [go_facts]:
  "go_slice xs lo hi = Some ys \<longleftrightarrow> lo \<le> hi \<and> hi \<le> length xs \<and> ys = take (hi - lo) (drop lo xs)"
  by (auto simp: go_slice_def)

lemma go_slice_None [go_facts]: "go_slice xs lo hi = None \<longleftrightarrow> hi < lo \<or> length xs < hi"
  by (auto simp: go_slice_def)

lemma length_go_slice: "go_slice xs lo hi = Some ys \<Longrightarrow> length ys = hi - lo"
  by (auto simp: go_facts)

lemma length_go_copy [simp]: "length (go_copy dst src) = length dst"
  by (simp add: go_copy_def)

lemma go_copy_same_length: "length src = length dst \<Longrightarrow> go_copy dst src = src"
  by (simp add: go_copy_def)

text \<open>\<^verbatim>\<open>[]byte(s)\<close> of a string of ASCII characters.\<close>

definition go_bytes :: "string \<Rightarrow> bytes" where
  "go_bytes s = map of_char s"

section \<open>Go's signed integers\<close>

text \<open>
  Go truncates a signed quotient towards zero, and the remainder has the sign of the
  dividend; Isabelle's \<open>div\<close> and \<open>mod\<close> round towards minus infinity.
\<close>

definition go_quot :: "int \<Rightarrow> int \<Rightarrow> int" where
  "go_quot a b = sgn a * sgn b * (\<bar>a\<bar> div \<bar>b\<bar>)"

definition go_rem :: "int \<Rightarrow> int \<Rightarrow> int" where
  "go_rem a b = sgn a * (\<bar>a\<bar> mod \<bar>b\<bar>)"

lemma go_quot_rem: "go_quot a b * b + go_rem a b = a"
proof -
  have "go_quot a b * b + go_rem a b = sgn a * (\<bar>a\<bar> div \<bar>b\<bar> * \<bar>b\<bar> + \<bar>a\<bar> mod \<bar>b\<bar>)"
    by (simp add: go_quot_def go_rem_def algebra_simps abs_sgn)
  then show ?thesis
    by (simp add: div_mult_mod_eq mult_sgn_abs)
qed

text \<open>
  A Go shift count is not reduced modulo the width: shifting by the width or more gives 0
  (or the sign, for an arithmetic right shift). The bit operations of the word library
  agree with that when the count is read as a natural number.
\<close>

abbreviation shl :: "'a::len word \<Rightarrow> nat \<Rightarrow> 'a word" where
  "shl w n \<equiv> push_bit n w"

abbreviation shr :: "'a::len word \<Rightarrow> nat \<Rightarrow> 'a word" where
  "shr w n \<equiv> drop_bit n w"

abbreviation sar :: "'a::len word \<Rightarrow> nat \<Rightarrow> 'a word" where
  "sar w n \<equiv> signed_drop_bit n w"

section \<open>Unsigned values of words\<close>

lemma unat_two_power [word_facts]: "k < LENGTH('a::len) \<Longrightarrow> unat (2 ^ k :: 'a word) = 2 ^ k"
proof -
  assume k: "k < LENGTH('a)"
  have "unat (of_nat (2 ^ k) :: 'a word) = 2 ^ k"
    using k by (simp only: unsigned_of_nat) (simp add: take_bit_nat_eq_self)
  then show ?thesis by simp
qed

lemma u64_less_pow: "k < 64 \<Longrightarrow> (x :: u64) < 2 ^ k \<longleftrightarrow> unat x < 2 ^ k"
  by (simp add: word_less_nat_alt unat_two_power)

lemma bit_unat [word_facts]: "bit (w :: 'a::len word) k \<longleftrightarrow> odd (unat w div 2 ^ k)"
proof -
  have "bit w k \<longleftrightarrow> bit (unat w) k"
    by (simp add: bit_unsigned_iff bit_imp_le_length)
  then show ?thesis by (simp add: bit_iff_odd)
qed

lemma unat_take_bit [word_facts]: "unat (take_bit n (w :: 'a::len word)) = unat w mod 2 ^ n"
  unfolding unsigned_take_bit_eq by (rule take_bit_eq_mod)

lemma unat_shr [word_facts]: "unat (shr (w :: 'a::len word) n) = unat w div 2 ^ n"
  unfolding unat_drop_bit_eq by (rule drop_bit_eq_div)

lemma unat_and_255 [word_facts]: "unat ((w :: u64) AND 255) = unat w mod 256"
proof -
  have "(255 :: u64) = mask 8" by (simp add: mask_eq_exp_minus_1)
  then have "w AND 255 = take_bit 8 w" by (simp only: take_bit_eq_mask)
  then show ?thesis by (simp add: unat_take_bit)
qed

section \<open>The bit counts of Go's \<^verbatim>\<open>math/bits\<close>\<close>

definition bits_LeadingZeros :: "'a::len word \<Rightarrow> nat" where
  "bits_LeadingZeros w = length (takeWhile (\<lambda>n. \<not> bit w n) (rev [0..<LENGTH('a)]))"

definition bits_TrailingZeros :: "'a::len word \<Rightarrow> nat" where
  "bits_TrailingZeros w = length (takeWhile (\<lambda>n. \<not> bit w n) [0..<LENGTH('a)])"

definition bits_OnesCount :: "'a::len word \<Rightarrow> nat" where
  "bits_OnesCount w = length (filter (bit w) [0..<LENGTH('a)])"

lemma bits_counts_le [word_facts]:
  fixes w :: "'a::len word"
  shows "bits_LeadingZeros w \<le> LENGTH('a)" "bits_TrailingZeros w \<le> LENGTH('a)"
    "bits_OnesCount w \<le> LENGTH('a)"
proof -
  show "bits_LeadingZeros w \<le> LENGTH('a)"
    using length_takeWhile_le [of _ "rev [0..<LENGTH('a)]"]
    by (auto simp: bits_LeadingZeros_def intro: order_trans)
  show "bits_TrailingZeros w \<le> LENGTH('a)"
    using length_takeWhile_le [of _ "[0..<LENGTH('a)]"]
    by (auto simp: bits_TrailingZeros_def intro: order_trans)
  show "bits_OnesCount w \<le> LENGTH('a)"
    using length_filter_le [of _ "[0..<LENGTH('a)]"]
    by (auto simp: bits_OnesCount_def intro: order_trans)
qed

text \<open>\<^verbatim>\<open>RotateLeft\<close> reduces the count modulo the width; \<^verbatim>\<open>ReverseBytes64\<close> swaps ever larger halves.\<close>

definition bits_RotateLeft :: "'a::len word \<Rightarrow> i64 \<Rightarrow> 'a word" where
  "bits_RotateLeft x k =
     (let s = unat k mod LENGTH('a) in shl x s OR shr x (LENGTH('a) - s))"

definition bits_ReverseBytes64 :: "u64 \<Rightarrow> u64" where
  "bits_ReverseBytes64 x =
     (let m3 = 71777214294589695; m4 = 281470681808895;
          x = (shr x 8 AND m3) OR shl (x AND m3) 8;
          x = (shr x 16 AND m4) OR shl (x AND m4) 16
      in shr x 32 OR shl x 32)"

section \<open>Results: an error or a value, or no result at all\<close>

text \<open>
  The type \<open>('e + 'a) option\<close> is the result of a Go function with an \<^verbatim>\<open>error\<close>
  result: \<open>None\<close> when the goroutine does not return (a run-time panic, or a stack that
  overflows), \<open>Some (Inl e)\<close> for an error, \<open>Some (Inr x)\<close> for a value and a nil error.
\<close>

abbreviation ret :: "'a \<Rightarrow> ('e + 'a) option" where
  "ret x \<equiv> Some (Inr x)"

abbreviation raise :: "'e \<Rightarrow> ('e + 'a) option" where
  "raise e \<equiv> Some (Inl e)"

definition res_bind :: "('e + 'a) option \<Rightarrow> ('a \<Rightarrow> ('e + 'b) option) \<Rightarrow> ('e + 'b) option" where
  "res_bind r f = (case r of None \<Rightarrow> None | Some (Inl e) \<Rightarrow> raise e | Some (Inr x) \<Rightarrow> f x)"

definition res_wrap :: "('e \<Rightarrow> 'e) \<Rightarrow> ('e + 'a) option \<Rightarrow> ('e + 'a) option" where
  "res_wrap w r = (case r of None \<Rightarrow> None | Some (Inl e) \<Rightarrow> raise (w e) | Some (Inr x) \<Rightarrow> ret x)"

lemma res_bind_simps [simp]:
  "res_bind None f = None" "res_bind (raise e) f = raise e" "res_bind (ret x) f = f x"
  by (simp_all add: res_bind_def)

lemma res_wrap_simps [simp]:
  "res_wrap w None = None" "res_wrap w (raise e) = raise (w e)" "res_wrap w (ret x) = ret x"
  by (simp_all add: res_wrap_def)

lemma res_bind_cong [fundef_cong]:
  "r = r' \<Longrightarrow> (\<And>x. r' = ret x \<Longrightarrow> f x = g x) \<Longrightarrow> res_bind r f = res_bind r' g"
  by (auto simp: res_bind_def split: option.splits sum.splits)

lemma res_bind_ret_iff:
  "res_bind r f = ret y \<longleftrightarrow> (\<exists>x. r = ret x \<and> f x = ret y)"
  by (auto simp: res_bind_def split: option.splits sum.splits)

lemma res_bind_None_iff:
  "res_bind r f = None \<longleftrightarrow> r = None \<or> (\<exists>x. r = ret x \<and> f x = None)"
  by (auto simp: res_bind_def split: option.splits sum.splits)

definition returns :: "('e + 'a) option \<Rightarrow> bool" where
  "returns r \<longleftrightarrow> r \<noteq> None"

lemma returns_simps [simp]:
  "returns (Some x)" "\<not> returns None"
  "returns (res_wrap w r) \<longleftrightarrow> returns r"
  "returns (res_bind r f) \<longleftrightarrow> returns r \<and> (\<forall>x. r = ret x \<longrightarrow> returns (f x))"
  by (auto simp: returns_def res_wrap_def res_bind_def split: option.splits sum.splits)

lemma res_wrap_None_iff [simp]: "res_wrap w r = None \<longleftrightarrow> r = None"
  by (auto simp: res_wrap_def split: option.splits sum.splits)

lemma res_wrap_ret_iff [simp]: "res_wrap w r = ret x \<longleftrightarrow> r = ret x"
  by (auto simp: res_wrap_def split: option.splits sum.splits)

section \<open>Bounded sums, signed readings and rounding\<close>

definition ceil_to :: "nat \<Rightarrow> nat \<Rightarrow> nat" where
  "ceil_to k x = (x + (k - 1)) div k * k"

lemma unat_ucast_below:
  "unat (x :: 'a::len word) < 2 ^ LENGTH('b::len) \<Longrightarrow> unat (ucast x :: 'b word) = unat x"
  by (simp add: unsigned_ucast_eq take_bit_nat_eq_self)

lemma unat_below: "LENGTH('a::len) \<le> n \<Longrightarrow> unat (x :: 'a word) < 2 ^ n"
  by (rule order_less_le_trans[OF unsigned_less]) simp

lemma unat_of_nat_small: "n < 2 ^ 64 \<Longrightarrow> unat (of_nat n :: u64) = n"
  by (simp only: unsigned_of_nat) (simp add: take_bit_nat_eq_self)

lemma unat_add_small: "unat a + unat b < 2 ^ 64 \<Longrightarrow> unat (a + b :: u64) = unat a + unat b"
  by (simp add: unat_word_ariths)

lemma unat_add_no_wrap:
  assumes "unat x \<le> unat (x + of_nat n :: u64)" "n < 2 ^ 64"
  shows "unat (x + of_nat n :: u64) = unat x + n"
proof -
  have n: "unat (of_nat n :: u64) = n"
    using assms(2) by (simp only: unsigned_of_nat) (simp add: take_bit_nat_eq_self)
  have *: "unat (x + of_nat n :: u64) = (unat x + n) mod 2 ^ 64"
    using unat_word_ariths(1)[of x "of_nat n"] n by simp
  have x: "unat x < 2 ^ 64"
    by (rule order_less_le_trans[OF unsigned_less]) simp
  show ?thesis
  proof (cases "unat x + n < 2 ^ 64")
    case True
    then show ?thesis using * by simp
  next
    case False
    then have "(unat x + n) mod 2 ^ 64 = unat x + n - 2 ^ 64"
      using assms(2) x by (simp add: le_mod_geq)
    then show ?thesis using assms(1,2) * False by linarith
  qed
qed

lemma sint_small:
  assumes "unat (x :: u64) < 2 ^ 63"
  shows "sint x = int (unat x)"
proof -
  have "uint x < 2 ^ 63"
    using assms by (simp flip: nat_uint_eq add: nat_less_iff)
  then have "signed_take_bit 63 (uint x) = uint x"
    using order_trans[of "- (2 ^ 63)" 0 "uint x"] by (intro signed_take_bit_int_eq_self) simp_all
  then show ?thesis
    by (simp add: sint_uint)
qed

lemma and_not_mask: "w AND NOT (mask n) = push_bit n (drop_bit n (w :: 'a::len word))"
  by (rule bit_word_eqI) (auto simp: bit_push_bit_iff bit_drop_bit_eq bit_and_iff bit_not_iff bit_mask_iff)

lemma unat_clear_low: "unat (w AND NOT (mask n) :: u64) = unat w div 2 ^ n * 2 ^ n"
proof -
  have "unat w < 2 ^ 64"
    by (rule order_less_le_trans[OF unsigned_less]) simp
  moreover have "unat w div 2 ^ n * 2 ^ n \<le> unat w"
    by simp
  ultimately have "unat w div 2 ^ n * 2 ^ n < 2 ^ 64"
    by linarith
  then have "take_bit 64 (unat w div 2 ^ n * 2 ^ n) = unat w div 2 ^ n * 2 ^ n"
    by (simp only: take_bit_nat_eq_self)
  moreover have "unat (push_bit n (drop_bit n w)) = take_bit 64 (unat w div 2 ^ n * 2 ^ n)"
    by (subst unsigned_push_bit_eq) (simp only: unat_shr push_bit_eq_mult len_num0 len_bit0 len_bit1, simp)
  ultimately show ?thesis by (simp only: and_not_mask)
qed


lemma ceil_to_split:
  assumes "0 < k"
  shows "ceil_to k x = (x div k + (if x mod k = 0 then 0 else 1)) * k"
proof -
  have "x + (k - 1) = x div k * k + (x mod k + (k - 1))"
    using div_mult_mod_eq[of x k] by linarith
  then have "(x + (k - 1)) div k = x div k + (x mod k + (k - 1)) div k"
    using assms by (simp only: div_mult_self3)
  moreover have "(x mod k + (k - 1)) div k = (if x mod k = 0 then 0 else 1)"
    using assms mod_less_divisor[OF assms, of x] by (auto intro!: div_nat_eqI)
  ultimately show ?thesis by (simp only: ceil_to_def)
qed

lemma ceil_to_bounds:
  assumes "0 < k"
  shows "x \<le> ceil_to k x" and "ceil_to k x < x + k" and "k dvd ceil_to k x"
proof -
  define q where "q = x div k * k"
  have q: "ceil_to k x = (if x mod k = 0 then q else q + k)" "q + x mod k = x" "x mod k < k"
    using assms by (simp_all add: ceil_to_split q_def algebra_simps)
  show "x \<le> ceil_to k x"
    unfolding q(1) using q(2,3) by simp
  show "ceil_to k x < x + k"
    unfolding q(1) using q(2,3) by (simp split: if_split)
  show "k dvd ceil_to k x" by (simp add: ceil_to_def)
qed

lemma ceil_to_least:
  assumes "0 < k" and "x \<le> y" and "k dvd y"
  shows "ceil_to k x \<le> y"
proof (rule ccontr)
  assume "\<not> ceil_to k x \<le> y"
  then have lt: "y < ceil_to k x" by simp
  have "k dvd ceil_to k x - y"
    using assms(3) ceil_to_bounds(3)[OF assms(1)] by (rule dvd_diff_nat[rotated])
  then have "k \<le> ceil_to k x - y" using lt by (simp add: dvd_imp_le)
  then show False using ceil_to_bounds(2)[OF assms(1), of x] assms(2) lt by linarith
qed

lemma ceil_to_add_multiple: "0 < k \<Longrightarrow> ceil_to k (x + z * k) = ceil_to k x + z * k"
  by (simp add: ceil_to_split algebra_simps)

lemma take_drop_update:
  assumes "lo + length d \<le> length xs" and "lo' + k \<le> lo \<or> lo + length d \<le> lo'"
  shows "take k (drop lo' (take lo xs @ d @ drop (lo + length d) xs)) = take k (drop lo' xs)"
  using assms(2)
proof
  assume "lo' + k \<le> lo"
  then show ?thesis using assms(1) by (simp add: drop_take)
next
  assume "lo + length d \<le> lo'"
  then show ?thesis using assms(1) by simp
qed

end
