(* ===== verification/Jam_Natural.thy ===== *)
theory Jam_Natural
  imports Prelude
begin

text \<open>
  The natural-number encodings of the JAM codec: \<^verbatim>\<open>trivial_natural.go\<close> (fixed width,
  little endian), \<^verbatim>\<open>general_natural.go\<close> (variable width, one to nine octets), and the
  byte reader of \<^verbatim>\<open>decode.go\<close> over a \<^verbatim>\<open>bytes.Buffer\<close> that both decoders read from.
\<close>

section \<open>Errors of the codec\<close>

datatype jam_error =
    EOF
  | ErrUnexpectedEOF
  | ErrFirstByteNineByteSerialization
  | ErrInvalidPointer
  | ErrDecodingBool
  | ErrExceedingByteArrayLimit
  | ErrUnsupportedEnumTypeValue
  | ErrUnsupportedType
  | ErrEncodingMapFieldKeyType
  | ErrReadingBytes jam_error
  | ErrReadingByte jam_error
  | ErrDecodingUint jam_error
  | ErrDecodingMapLength jam_error
  | ErrDecodingMapKey jam_error
  | ErrDecodingMapValue jam_error
  | ErrEncodingStructField jam_error
  | ErrDecodingStructField jam_error

section \<open>Fixed-width naturals\<close>

definition serializeTrivialNatural :: "u64 \<Rightarrow> nat \<Rightarrow> bytes" where
  "serializeTrivialNatural x l = map (\<lambda>i. ucast (shr x (8 * i) AND 255)) [0..<l]"

fun deserializeTrivialNatural_loop :: "nat \<Rightarrow> bytes \<Rightarrow> 'a::len word \<Rightarrow> 'a word" where
  "deserializeTrivialNatural_loop i [] u = u"
| "deserializeTrivialNatural_loop i (b # bs) u =
     deserializeTrivialNatural_loop (Suc i) bs (u OR shl (ucast b) (8 * i))"

definition deserializeTrivialNatural :: "bytes \<Rightarrow> 'a::len word" where
  "deserializeTrivialNatural serialized = deserializeTrivialNatural_loop 0 serialized 0"

section \<open>General naturals\<close>

function serializeUint64_length :: "u64 \<Rightarrow> nat \<Rightarrow> nat" where
  "serializeUint64_length x l =
     (if l < 8 then if x < shl 1 (7 * (l + 1)) then l else serializeUint64_length x (l + 1)
      else l)"
  by pat_completeness auto
termination
  by (relation "measure (\<lambda>(x, l). 8 - l)") auto

definition serializeUint64 :: "u64 \<Rightarrow> bytes" where
  "serializeUint64 x =
     (let l = serializeUint64_length x 0;
          prefix = (if l < 8 then ucast ((256 - shl 1 (8 - l)) + (shr x (8 * l) AND 255)) else 255)
      in prefix # map (\<lambda>i. ucast (shr x (8 * i) AND 255)) [0..<l])"

text \<open>\<^verbatim>\<open>deserializeUint64WithLength\<close>; \<open>None\<close> is an index out of range.\<close>

definition deserializeUint64WithLength :: "bytes \<Rightarrow> nat \<Rightarrow> (jam_error + u64) option" where
  "deserializeUint64WithLength serialized l =
     (let n = length serialized in
      if n = 0 then Some (Inr 0)
      else if n > 8 then
        if serialized ! 0 \<noteq> 255 then Some (Inl ErrFirstByteNineByteSerialization)
        else Some (Inr (deserializeTrivialNatural (take 8 (drop 1 serialized))))
      else if n \<le> l then None
      else
        Some (Inr (deserializeTrivialNatural_loop 0 (take l (drop 1 serialized)) 0 OR
          shl (ucast (serialized ! 0 AND shr 255 l)) (8 * l))))"

section \<open>Reading from a buffer\<close>

text \<open>
  \<^verbatim>\<open>bytes.Buffer.Read(p)\<close>: an empty buffer is \<open>EOF\<close> unless \<open>p\<close> is empty; a buffer
  with fewer octets than \<open>p\<close> fills the front of \<open>p\<close> and reports no error. The reader
  only ever passes a fresh \<open>p\<close> of zeros.
\<close>

definition buffer_Read :: "nat \<Rightarrow> bytes \<Rightarrow> jam_error + (bytes \<times> bytes)" where
  "buffer_Read n buf =
     (if buf = [] then if n = 0 then Inr ([], []) else Inl EOF
      else Inr (go_copy (replicate n 0) buf, drop n buf))"

definition ReadOctet :: "bytes \<Rightarrow> jam_error + (u8 \<times> bytes)" where
  "ReadOctet buf =
     (case buffer_Read 1 buf of Inl e \<Rightarrow> Inl e | Inr (b, rest) \<Rightarrow> Inr (b ! 0, rest))"

definition decodeUint :: "bytes \<Rightarrow> (jam_error + (u64 \<times> bytes)) option" where
  "decodeUint buf =
     (case ReadOctet buf of
        Inl e \<Rightarrow> Some (Inl (ErrReadingByte e))
      | Inr (prefix, rest) \<Rightarrow>
          (let l = bits_LeadingZeros (NOT prefix) in
           case buffer_Read l rest of
             Inl e \<Rightarrow> Some (Inl (ErrReadingBytes e))
           | Inr (p, rest') \<Rightarrow>
               (case deserializeUint64WithLength (prefix # p) l of
                  None \<Rightarrow> None
                | Some (Inl e) \<Rightarrow> Some (Inl (ErrDecodingUint e))
                | Some (Inr v) \<Rightarrow> Some (Inr (v, rest')))))"

definition decodeLength :: "bytes \<Rightarrow> (jam_error + (u64 \<times> bytes)) option" where
  "decodeLength buf =
     (case decodeUint buf of
        None \<Rightarrow> None
      | Some (Inl e) \<Rightarrow> Some (Inl (ErrDecodingUint e))
      | Some (Inr r) \<Rightarrow> Some (Inr r))"

section \<open>Facts on fixed-width naturals\<close>

lemma length_serializeTrivialNatural [simp]: "length (serializeTrivialNatural x l) = l"
  by (simp add: serializeTrivialNatural_def)

lemma bit_serializeTrivialNatural:
  "i < l \<Longrightarrow> bit (serializeTrivialNatural x l ! i) k \<longleftrightarrow> k < 8 \<and> bit x (8 * i + k)"
proof -
  assume "i < l"
  have "bit (255 :: u64) k \<longleftrightarrow> k < 8"
    using bit_mask_iff [of 8 k, where 'a = u64] bit_imp_le_length [of "255 :: u64" k]
    by (auto simp: mask_numeral)
  then show ?thesis
    using \<open>i < l\<close>
    by (auto simp: serializeTrivialNatural_def bit_and_iff bit_ucast_iff bit_drop_bit_eq add.commute
        dest: bit_imp_le_length)
qed

lemma bit_deserializeTrivialNatural_loop:
  fixes u :: "'a::len word"
  shows "bit (deserializeTrivialNatural_loop i bs u) n \<longleftrightarrow>
    bit u n \<or> n < LENGTH('a) \<and> 8 * i \<le> n \<and> n div 8 - i < length bs \<and> bit (bs ! (n div 8 - i)) (n mod 8)"
proof (induction i bs u rule: deserializeTrivialNatural_loop.induct)
  case (1 i u)
  show ?case by simp
next
  case (2 i b bs u)
  have byte: "bit b (n - 8 * i) \<longleftrightarrow> n div 8 = i \<and> bit b (n mod 8)" if "8 * i \<le> n"
  proof (cases "n div 8 = i")
    case True
    then have "n - 8 * i = n mod 8" by (simp add: minus_mult_div_eq_mod [symmetric])
    with True show ?thesis by simp
  next
    case False
    with that have "8 \<le> n - 8 * i" by linarith
    with False show ?thesis by (auto dest: bit_imp_le_length)
  qed
  have split: "n div 8 = i \<or> 8 * Suc i \<le> n \<and> n div 8 - i = Suc (n div 8 - Suc i)" if "8 * i \<le> n"
  proof (cases "n div 8 = i")
    case False
    from that have "i \<le> n div 8" by linarith
    with False have "i < n div 8" by simp
    moreover from this have "8 * Suc i \<le> 8 * (n div 8)" by (simp only: mult_le_mono2 Suc_leI)
    then have "8 * Suc i \<le> n" using times_div_less_eq_dividend [of 8 n] by (rule le_trans)
    ultimately show ?thesis by (simp add: Suc_diff_Suc)
  qed simp
  show ?case
    unfolding deserializeTrivialNatural_loop.simps 2
    using byte split
    by (auto simp: bit_or_iff bit_push_bit_iff bit_ucast_iff)
qed

lemma bit_deserializeTrivialNatural:
  fixes bs :: bytes
  shows "bit (deserializeTrivialNatural bs :: 'a::len word) n \<longleftrightarrow>
    n < LENGTH('a) \<and> n div 8 < length bs \<and> bit (bs ! (n div 8)) (n mod 8)"
  by (simp add: deserializeTrivialNatural_def bit_deserializeTrivialNatural_loop)

lemma deserialize_serializeTrivialNatural:
  "(deserializeTrivialNatural (serializeTrivialNatural x l) :: 'a::len word) = ucast (take_bit (8 * l) x)"
proof (rule bit_word_eqI)
  fix n
  assume "n < LENGTH('a)"
  have "n div 8 < l \<longleftrightarrow> n < 8 * l" by auto
  then show "bit (deserializeTrivialNatural (serializeTrivialNatural x l) :: 'a word) n =
      bit (ucast (take_bit (8 * l) x) :: 'a word) n"
    using \<open>n < LENGTH('a)\<close>
    by (auto simp: bit_deserializeTrivialNatural bit_serializeTrivialNatural bit_ucast_iff bit_take_bit_iff)
qed

lemma serialize_deserializeTrivialNatural:
  assumes "length bs \<le> 8"
  shows "serializeTrivialNatural (deserializeTrivialNatural bs) (length bs) = bs"
proof (rule nth_equalityI)
  fix i
  assume "i < length (serializeTrivialNatural (deserializeTrivialNatural bs) (length bs))"
  then have i: "i < length bs" by simp
  show "serializeTrivialNatural (deserializeTrivialNatural bs) (length bs) ! i = bs ! i"
  proof (rule bit_word_eqI)
    fix k
    assume "k < LENGTH(8)"
    with i assms show "bit (serializeTrivialNatural (deserializeTrivialNatural bs) (length bs) ! i) k =
        bit (bs ! i) k"
      by (simp add: bit_serializeTrivialNatural bit_deserializeTrivialNatural)
  qed
qed simp

section \<open>Facts on general naturals\<close>

lemma LeadingZeros8_eq:
  assumes "l < 8" and ones: "\<And>k. 8 - l \<le> k \<Longrightarrow> k < 8 \<Longrightarrow> bit (p :: u8) k" and zero: "\<not> bit p (7 - l)"
  shows "bits_LeadingZeros (NOT p) = l"
proof -
  have "rev [0..<8] = rev [8 - l..<8] @ (7 - l) # rev [0..<7 - l]"
  proof -
    have "[0..<8] = [0..<7 - l] @ [7 - l..<8]"
      using upt_add_eq_append [of 0 "7 - l" "Suc l"] assms(1) by simp
    also have "[7 - l..<8] = (7 - l) # [8 - l..<8]"
      using assms(1) upt_conv_Cons [of "7 - l" 8] by (simp add: Suc_diff_le [symmetric])
    finally show ?thesis by simp
  qed
  moreover have "takeWhile (\<lambda>n. \<not> bit (NOT p) n) (rev [8 - l..<8] @ (7 - l) # rev [0..<7 - l]) = rev [8 - l..<8]"
    using ones zero by (subst takeWhile_append2) (auto simp: bit_not_iff)
  ultimately have "takeWhile (\<lambda>n. \<not> bit (NOT p) n) (rev [0..<8]) = rev [8 - l..<8]"
    by simp
  then show ?thesis
    using assms(1) by (simp add: bits_LeadingZeros_def)
qed

lemma prefix_bits:
  assumes l: "l < 8" and y: "y < 2 ^ (7 - l)" and p: "unat (p :: u8) = 256 - 2 ^ (8 - l) + y"
  shows "bits_LeadingZeros (NOT p) = l" and "unat (p AND shr 255 l) = y"
proof -
  have eight: "8 - l = Suc (7 - l)" using l by simp
  have p256: "(256::nat) = 2 ^ (8 - l) * 2 ^ l" using l by (simp flip: power_add)
  have psplit: "unat p = 2 ^ (8 - l) * (2 ^ l - 1) + y"
    by (simp add: p p256 right_diff_distrib')
  have y8: "y < 2 ^ (8 - l)" using y eight by simp
  show "bits_LeadingZeros (NOT p) = l"
  proof (rule LeadingZeros8_eq [OF l])
    fix k
    assume k: "8 - l \<le> k" "k < 8"
    have "unat p div 2 ^ (8 - l) = 2 ^ l - 1"
      using y8 by (simp add: psplit)
    moreover have "unat p div 2 ^ k = unat p div 2 ^ (8 - l) div 2 ^ (k - (8 - l))"
      using k power_add [of "2 :: nat" "8 - l" "k - (8 - l)"] by (simp add: div_mult2_eq)
    ultimately have "unat p div 2 ^ k = (2 ^ l - 1) div 2 ^ (k - (8 - l))"
      by simp
    moreover have "bit (mask l :: nat) (k - (8 - l))"
      using k l by (simp add: bit_mask_iff)
    ultimately show "bit p k"
      by (simp add: bit_unat bit_iff_odd mask_eq_exp_minus_1)
  next
    have "unat p = 2 ^ (7 - l) * (2 * (2 ^ l - 1)) + y"
      by (simp only: psplit eight power_Suc mult_ac)
    then have "unat p div 2 ^ (7 - l) = 2 * (2 ^ l - 1)"
      using y by simp
    then show "\<not> bit p (7 - l)" by (simp add: bit_unat)
  qed
  have m: "(255 :: u8) = mask 8" by (simp add: mask_eq_exp_minus_1)
  have "shr (255 :: u8) l = mask (8 - l)"
    unfolding m by (rule bit_word_eqI) (auto simp: bit_drop_bit_eq bit_mask_iff)
  then have "p AND shr 255 l = take_bit (8 - l) p"
    by (simp add: take_bit_eq_mask)
  then have "unat (p AND shr 255 l) = unat p mod 2 ^ (8 - l)"
    by (simp add: unat_take_bit)
  then show "unat (p AND shr 255 l) = y"
    using y8 by (simp add: psplit)
qed


declare serializeUint64_length.simps [simp del]

lemma serializeUint64_length_spec:
  assumes "l \<le> 8"
  shows "l \<le> serializeUint64_length x l \<and> serializeUint64_length x l \<le> 8 \<and>
    (serializeUint64_length x l < 8 \<longrightarrow> unat x < 2 ^ (7 * (serializeUint64_length x l + 1))) \<and>
    (l < serializeUint64_length x l \<longrightarrow> 2 ^ (7 * serializeUint64_length x l) \<le> unat x)"
  using assms
proof (induction x l rule: serializeUint64_length.induct)
  case (1 x l)
  show ?case
  proof (cases "l < 8 \<and> \<not> x < shl 1 (7 * (l + 1))")
    case True
    then have ge: "2 ^ (7 * (l + 1)) \<le> unat x"
      using u64_less_pow [of "7 * (l + 1)" x] by simp
    have eq: "serializeUint64_length x l = serializeUint64_length x (l + 1)"
      using True by (subst serializeUint64_length.simps) simp
    show ?thesis
      using "1.IH" True ge unfolding eq
      by (cases "serializeUint64_length x (l + 1) = l + 1") auto
  next
    case False
    then have eq: "serializeUint64_length x l = l"
      by (subst serializeUint64_length.simps) auto
    show ?thesis
      using False "1.prems" u64_less_pow [of "7 * (l + 1)" x] unfolding eq by auto
  qed
qed

lemmas serializeUint64_length_props = serializeUint64_length_spec [of 0, simplified]

lemma serializeUint64_prefix_part:
  assumes "serializeUint64_length x 0 < 8"
  shows "unat x div 2 ^ (8 * serializeUint64_length x 0) < 2 ^ (7 - serializeUint64_length x 0)"
proof -
  have "unat x < 2 ^ (8 * serializeUint64_length x 0) * 2 ^ (7 - serializeUint64_length x 0)"
    using serializeUint64_length_props [of x] assms by (simp add: add.commute flip: power_add)
  then show ?thesis
    by (simp add: less_mult_imp_div_less mult.commute)
qed

lemma serializeUint64_split:
  "\<exists>p. serializeUint64 x = p # serializeTrivialNatural x (serializeUint64_length x 0) \<and>
     (if serializeUint64_length x 0 < 8
      then unat p = 256 - 2 ^ (8 - serializeUint64_length x 0) + unat x div 2 ^ (8 * serializeUint64_length x 0)
      else p = 255)"
proof -
  let ?l = "serializeUint64_length x 0"
  let ?p = "if ?l < 8 then ucast ((256 - shl 1 (8 - ?l)) + (shr x (8 * ?l) AND 255)) else 255 :: u8"
  have "unat ?p = 256 - 2 ^ (8 - ?l) + unat x div 2 ^ (8 * ?l)" if l: "?l < 8"
  proof -
    note y = serializeUint64_prefix_part [OF l]
    have "(2::nat) ^ (7 - ?l) \<le> 2 ^ 7" by (rule power_increasing) auto
    with y have "unat x div 2 ^ (8 * ?l) < 256" by simp
    define z where "z = shr x (8 * ?l) AND 255"
    have z: "unat z = unat x div 2 ^ (8 * ?l)"
      using \<open>unat x div 2 ^ (8 * ?l) < 256\<close>
      by (simp add: z_def unat_and_255 unat_shr)
    have le: "(2::nat) ^ (8 - ?l) \<le> 256"
      using power_increasing [of "8 - ?l" 8 "2 :: nat"] by simp
    define n where "n = 256 - 2 ^ (8 - ?l) + unat z"
    have w: "256 - shl 1 (8 - ?l) + z = of_nat n"
      using le by (simp add: n_def of_nat_diff)
    have "(2::nat) ^ (7 - ?l) \<le> 2 ^ (8 - ?l)" by (rule power_increasing) auto
    with y le z have "n < 256" unfolding n_def by linarith
    then have "unat (ucast (of_nat n :: u64) :: u8) = n"
      by (simp add: unsigned_ucast_eq unsigned_of_nat take_bit_eq_mod)
    then have "unat (ucast (256 - shl 1 (8 - ?l) + z) :: u8) = n"
      by (simp only: w)
    then show ?thesis
      using l z unfolding z_def [symmetric] n_def by simp
  qed
  then show ?thesis
    by (auto simp: serializeUint64_def serializeTrivialNatural_def Let_def)
qed

lemma buffer_Read_append [simp]: "length p = n \<Longrightarrow> buffer_Read n (p @ rest) = Inr (p, rest)"
  by (auto simp: buffer_Read_def go_copy_def)

lemma ReadOctet_Cons [simp]: "ReadOctet (b # rest) = Inr (b, rest)"
  using buffer_Read_append [of "[b]" 1 rest] by (simp add: ReadOctet_def)

lemma deserialize_serializeUint64:
  assumes "serializeUint64 x = p # q"
  shows "bits_LeadingZeros (NOT p) = length q"
    and "deserializeUint64WithLength (p # q) (length q) = Some (Inr x)"
proof -
  let ?l = "serializeUint64_length x 0"
  have q: "q = serializeTrivialNatural x ?l"
    using serializeUint64_split [of x] assms by auto
  have p: "if ?l < 8 then unat p = 256 - 2 ^ (8 - ?l) + unat x div 2 ^ (8 * ?l) else p = 255"
    using serializeUint64_split [of x] assms by auto
  have l8: "?l \<le> 8" using serializeUint64_length_props [of x] by simp
  have y: "unat x div 2 ^ (8 * ?l) < 2 ^ (7 - ?l)" if "?l < 8"
    using serializeUint64_prefix_part [OF that] .
  have full: "bits_LeadingZeros (NOT (255 :: u8)) = 8"
    by code_simp
  show "bits_LeadingZeros (NOT p) = length q"
    using prefix_bits(1) [OF _ y, of p] p q l8 full by (cases "?l < 8") auto
  show "deserializeUint64WithLength (p # q) (length q) = Some (Inr x)"
  proof (cases "?l < 8")
    case True
    have "unat (p AND shr 255 ?l) = unat x div 2 ^ (8 * ?l)"
      using prefix_bits(2) [OF True y [OF True]] p True by simp
    then have "of_nat (unat (p AND shr 255 ?l)) = (of_nat (unat (shr x (8 * ?l))) :: u64)"
      by (simp only: unat_shr)
    then have "ucast (p AND shr 255 ?l) = shr x (8 * ?l)"
      by (simp only: of_nat_unat ucast_id)
    then have top: "shl (ucast (p AND shr 255 ?l)) (8 * ?l) = shl (shr x (8 * ?l)) (8 * ?l)"
      by (simp only:)
    have "take_bit (8 * ?l) x OR shl (shr x (8 * ?l)) (8 * ?l) = x"
    proof (rule bit_word_eqI)
      fix n
      assume "n < LENGTH(64)"
      then show "bit (take_bit (8 * ?l) x OR shl (shr x (8 * ?l)) (8 * ?l)) n = bit x n"
        by (cases "8 * ?l \<le> n") (auto simp: bit_simps)
    qed
    then show ?thesis
      using True q top deserialize_serializeTrivialNatural [of x ?l, where 'a = 64]
      by (simp add: deserializeUint64WithLength_def deserializeTrivialNatural_def)
  next
    case False
    with l8 have "?l = 8" by simp
    with p q show ?thesis
      by (simp add: deserializeUint64WithLength_def deserialize_serializeTrivialNatural take_bit_word_eq_self)
  qed
qed

lemma decodeUint_serializeUint64: "decodeUint (serializeUint64 x @ rest) = Some (Inr (x, rest))"
proof -
  obtain p q where pq: "serializeUint64 x = p # q"
    using serializeUint64_split [of x] by auto
  show ?thesis
    using deserialize_serializeUint64 [OF pq] by (simp add: pq decodeUint_def)
qed

lemma decodeLength_serializeUint64: "decodeLength (serializeUint64 x @ rest) = Some (Inr (x, rest))"
  by (simp add: decodeLength_def decodeUint_serializeUint64)

end
