(* ===== verification/Jam_Codec.thy ===== *)
theory Jam_Codec
  imports Jam_Natural "HOL-Library.List_Lexorder" "HOL-Library.AList"
begin

text \<open>
  The reflection-driven encoder and decoder of the JAM codec (\<^verbatim>\<open>encode.go\<close> and
  \<^verbatim>\<open>decode.go\<close>). A Go type is a value of \<open>jtype\<close>, a Go value a value of \<open>jval\<close>, and
  each method of \<^verbatim>\<open>byteWriter\<close> and \<^verbatim>\<open>byteReader\<close> is one definition. The methods that call
  \<^verbatim>\<open>marshal\<close> or \<^verbatim>\<open>unmarshal\<close> again take that call as their first argument; \<open>marshal\<close> and
  \<open>unmarshal\<close> tie the knot over a bound on the depth of the call stack, and \<open>None\<close> is a
  goroutine that does not return: a run-time panic, or a stack that exceeds every bound.
\<close>

section \<open>Go types and values\<close>

datatype kind =
    KBool | KInt | KInt8 | KInt16 | KInt32 | KInt64
  | KUint | KUint8 | KUint16 | KUint32 | KUint64

text \<open>
  The \<^verbatim>\<open>jam\<close> tag of a struct field: none, \<^verbatim>\<open>jam:"-"\<close> (or an unexported field), or
  \<^verbatim>\<open>jam:"length=n"\<close>.
\<close>

datatype field_tag = NoTag | TagSkip | TagLength nat

datatype jtype =
    TPrim kind
  | TNamed kind
  | TBytes
  | TBits
  | TEd25519PublicKey
  | TPtr jtype
  | TStruct "(field_tag \<times> jtype) list"
  | TArray nat jtype
  | TSlice jtype
  | TMap jtype jtype
  | TEnum "(u8 \<times> jtype option) list"

text \<open>
  \<open>TPrim\<close> is a predeclared type such as \<^verbatim>\<open>uint32\<close>, \<open>TNamed\<close> a type defined over one
  (\<^verbatim>\<open>type Timeslot uint32\<close>). \<open>TEnum\<close> is a type with the methods of \<^verbatim>\<open>EnumType\<close>: each
  admitted index with the type of its value, or \<open>None\<close> where the value is nil.
  \<open>VOpaque\<close> stands for a field that the codec does not visit.
\<close>

datatype jval =
    VBool bool
  | VUint u64
  | VInt i64
  | VBytes bytes
  | VBits "bool list"
  | VPtr "jval option"
  | VStruct "jval list"
  | VList "jval list"
  | VMap "(jval \<times> jval) list"
  | VEnum u8 "jval option"
  | VOpaque

type_synonym 'a jam_result = "(jam_error + 'a) option"

fun unsigned_kind :: "kind \<Rightarrow> bool" where
  "unsigned_kind KUint = True"
| "unsigned_kind KUint8 = True"
| "unsigned_kind KUint16 = True"
| "unsigned_kind KUint32 = True"
| "unsigned_kind KUint64 = True"
| "unsigned_kind _ = False"

fun signed_kind :: "kind \<Rightarrow> bool" where
  "signed_kind KInt = True"
| "signed_kind KInt8 = True"
| "signed_kind KInt16 = True"
| "signed_kind KInt32 = True"
| "signed_kind KInt64 = True"
| "signed_kind _ = False"

fun IntLength :: "kind \<Rightarrow> jam_error + nat" where
  "IntLength KUint8 = Inr 1"
| "IntLength KInt8 = Inr 1"
| "IntLength KUint16 = Inr 2"
| "IntLength KInt16 = Inr 2"
| "IntLength KUint32 = Inr 4"
| "IntLength KInt32 = Inr 4"
| "IntLength KUint64 = Inr 8"
| "IntLength KInt64 = Inr 8"
| "IntLength _ = Inl ErrUnsupportedType"

text \<open>The kind of a scalar type.\<close>

fun kind_of :: "jtype \<Rightarrow> kind option" where
  "kind_of (TPrim k) = Some k"
| "kind_of (TNamed k) = Some k"
| "kind_of _ = None"

section \<open>The encoder\<close>

definition encodeUint :: "u64 \<Rightarrow> bytes" where
  "encodeUint i = serializeUint64 i"

definition encodeLength :: "nat \<Rightarrow> bytes" where
  "encodeLength l = encodeUint (of_nat l)"

definition encodeBool :: "bool \<Rightarrow> bytes" where
  "encodeBool l = (if l then [1] else [0])"

definition encodeBytes :: "bytes \<Rightarrow> bytes" where
  "encodeBytes b = encodeLength (length b) @ b"

fun encodeBits_loop :: "nat \<Rightarrow> bool list \<Rightarrow> bytes \<Rightarrow> bytes option" where
  "encodeBits_loop i [] bb = Some bb"
| "encodeBits_loop i (b # bs) bb =
     (if b then
        if i div 8 < length bb
        then encodeBits_loop (Suc i) bs (bb[i div 8 := bb ! (i div 8) OR shl 1 (i mod 8)])
        else None
      else encodeBits_loop (Suc i) bs bb)"

definition encodeBits_length :: "nat \<Rightarrow> nat" where
  "encodeBits_length n = (let len = n div 8 in if n > 0 \<and> len mod 8 = 0 then len + 1 else len)"

definition encodeBits :: "bool list \<Rightarrow> bytes jam_result" where
  "encodeBits bitSequence =
     (let len = encodeBits_length (length bitSequence) in
      case encodeBits_loop 0 bitSequence (replicate len 0) of
        None \<Rightarrow> None
      | Some bb \<Rightarrow> ret (encodeLength len @ bb))"

definition writePointerMarker :: "bool \<Rightarrow> bytes" where
  "writePointerMarker isNil = (if isNil then [0] else [1])"

definition encodeFixedWidth_value :: "jtype \<Rightarrow> jval \<Rightarrow> nat \<Rightarrow> bytes jam_result" where
  "encodeFixedWidth_value ty v l =
     (case (kind_of ty, v) of
        (Some k, VUint x) \<Rightarrow>
          if unsigned_kind k then ret (serializeTrivialNatural x l) else raise ErrUnsupportedType
      | _ \<Rightarrow> raise ErrUnsupportedType)"

definition encodeFixedWidth :: "jtype \<Rightarrow> jval \<Rightarrow> nat \<Rightarrow> bytes jam_result" where
  "encodeFixedWidth ty v l =
     (case (ty, v) of
        (TPtr t, VPtr None) \<Rightarrow> ret (writePointerMarker True)
      | (TPtr t, VPtr (Some w)) \<Rightarrow>
          res_bind (encodeFixedWidth_value t w l) (\<lambda>bs. ret (writePointerMarker False @ bs))
      | _ \<Rightarrow> encodeFixedWidth_value ty v l)"

type_synonym marshal_fun = "jtype \<Rightarrow> jval \<Rightarrow> bytes jam_result"

fun encode_all :: "('a \<Rightarrow> bytes jam_result) \<Rightarrow> 'a list \<Rightarrow> bytes jam_result" where
  "encode_all f [] = ret []"
| "encode_all f (x # xs) = res_bind (f x) (\<lambda>bs. res_bind (encode_all f xs) (\<lambda>cs. ret (bs @ cs)))"

definition encodeArray :: "marshal_fun \<Rightarrow> jtype \<Rightarrow> jval list \<Rightarrow> bytes jam_result" where
  "encodeArray bw_marshal t vs = encode_all (bw_marshal t) vs"

definition encodeSlice :: "marshal_fun \<Rightarrow> jtype \<Rightarrow> jval list \<Rightarrow> bytes jam_result" where
  "encodeSlice bw_marshal t vs =
     res_bind (encode_all (bw_marshal t) vs) (\<lambda>bs. ret (encodeLength (length vs) @ bs))"

definition encodeEd25519PublicKey :: "bytes \<Rightarrow> bytes" where
  "encodeEd25519PublicKey k = k"

definition encodeCustomPrimitive :: "marshal_fun \<Rightarrow> kind \<Rightarrow> jval \<Rightarrow> bytes jam_result" where
  "encodeCustomPrimitive bw_marshal k v = bw_marshal (TPrim k) v"

definition encodeEnumType ::
  "marshal_fun \<Rightarrow> (u8 \<times> jtype option) list \<Rightarrow> u8 \<Rightarrow> jval option \<Rightarrow> bytes jam_result" where
  "encodeEnumType bw_marshal variants index v =
     (case (map_of variants index, v) of
        (None, _) \<Rightarrow> raise ErrUnsupportedEnumTypeValue
      | (Some (Some t), Some w) \<Rightarrow> res_bind (bw_marshal t w) (\<lambda>bs. ret (index # bs))
      | (Some _, _) \<Rightarrow> ret [index])"

text \<open>
  The order in which \<^verbatim>\<open>sortMapKeys\<close> puts the keys: integers by value, booleans with
  \<open>False\<close> first, byte arrays lexicographically; other key types are refused.
\<close>

fun map_key_rank :: "jval \<Rightarrow> int list" where
  "map_key_rank (VUint x) = [uint x]"
| "map_key_rank (VInt x) = [sint x]"
| "map_key_rank (VBool b) = [if b then 1 else 0]"
| "map_key_rank (VList vs) = map (\<lambda>v. case v of VUint x \<Rightarrow> uint x | _ \<Rightarrow> 0) vs"
| "map_key_rank _ = []"

fun sortable_key_type :: "jtype \<Rightarrow> jam_error option" where
  "sortable_key_type (TPrim k) = None"
| "sortable_key_type (TNamed k) = None"
| "sortable_key_type (TArray n t) =
     (if kind_of t = Some KUint8 then None else Some ErrUnsupportedType)"
| "sortable_key_type _ = Some ErrEncodingMapFieldKeyType"

definition sortMapKeys :: "jtype \<Rightarrow> (jval \<times> jval) list \<Rightarrow> jam_error + (jval \<times> jval) list" where
  "sortMapKeys kt kvs =
     (case sortable_key_type kt of
        Some e \<Rightarrow> Inl e
      | None \<Rightarrow> Inr (sort_key (\<lambda>(k, v). map_key_rank k) kvs))"

definition encodeMap :: "marshal_fun \<Rightarrow> jtype \<Rightarrow> jtype \<Rightarrow> (jval \<times> jval) list \<Rightarrow> bytes jam_result" where
  "encodeMap bw_marshal kt vt kvs =
     (if kvs = [] then ret (encodeLength 0)
      else case sortMapKeys kt kvs of
        Inl e \<Rightarrow> raise e
      | Inr sorted_kvs \<Rightarrow>
          res_bind
            (encode_all (\<lambda>(k, v). res_bind (bw_marshal kt k)
               (\<lambda>kb. res_bind (bw_marshal vt v) (\<lambda>vb. ret (kb @ vb)))) sorted_kvs)
            (\<lambda>bs. ret (encodeLength (length sorted_kvs) @ bs)))"

definition encodeStruct_field :: "marshal_fun \<Rightarrow> (field_tag \<times> jtype) \<times> jval \<Rightarrow> bytes jam_result" where
  "encodeStruct_field bw_marshal f =
     (case f of
        ((TagSkip, t), v) \<Rightarrow> ret []
      | ((TagLength l, t), v) \<Rightarrow> res_wrap ErrEncodingStructField (encodeFixedWidth t v l)
      | ((NoTag, t), v) \<Rightarrow> res_wrap ErrEncodingStructField (bw_marshal t v))"

definition encodeStruct :: "marshal_fun \<Rightarrow> (field_tag \<times> jtype) list \<Rightarrow> jval list \<Rightarrow> bytes jam_result" where
  "encodeStruct bw_marshal fs vs = encode_all (encodeStruct_field bw_marshal) (zip fs vs)"

definition handleReflectTypes_encode :: "marshal_fun \<Rightarrow> marshal_fun" where
  "handleReflectTypes_encode bw_marshal ty v =
     (case (ty, v) of
        (TPrim k, _) \<Rightarrow> encodeCustomPrimitive bw_marshal k v
      | (TNamed k, _) \<Rightarrow> encodeCustomPrimitive bw_marshal k v
      | (TPtr t, VPtr None) \<Rightarrow> ret (writePointerMarker True)
      | (TPtr t, VPtr (Some w)) \<Rightarrow>
          res_bind (bw_marshal t w) (\<lambda>bs. ret (writePointerMarker False @ bs))
      | (TStruct fs, VStruct vs) \<Rightarrow> encodeStruct bw_marshal fs vs
      | (TArray n t, VList vs) \<Rightarrow> encodeArray bw_marshal t vs
      | (TEd25519PublicKey, VBytes k) \<Rightarrow> ret (encodeEd25519PublicKey k)
      | (TSlice t, VList vs) \<Rightarrow> encodeSlice bw_marshal t vs
      | (TMap kt vt, VMap kvs) \<Rightarrow> encodeMap bw_marshal kt vt kvs
      | _ \<Rightarrow> raise ErrUnsupportedType)"

text \<open>
  The type switch of \<^verbatim>\<open>marshal\<close>. Its cases name \<^verbatim>\<open>int\<close>, \<^verbatim>\<open>uint\<close> and the unsigned types
  only: \<^verbatim>\<open>int8\<close> to \<^verbatim>\<open>int64\<close> go to \<^verbatim>\<open>handleReflectTypes\<close>.
\<close>

definition marshal_switch :: "marshal_fun \<Rightarrow> marshal_fun" where
  "marshal_switch bw_marshal ty v =
     (case (ty, v) of
        (TEnum variants, VEnum index w) \<Rightarrow> encodeEnumType bw_marshal variants index w
      | (TPrim KInt, VInt x) \<Rightarrow> ret (encodeUint x)
      | (TPrim KUint, VUint x) \<Rightarrow> ret (encodeUint x)
      | (TPrim KUint8, _) \<Rightarrow> encodeFixedWidth ty v 1
      | (TPrim KUint16, _) \<Rightarrow> encodeFixedWidth ty v 2
      | (TPrim KUint32, _) \<Rightarrow> encodeFixedWidth ty v 4
      | (TPrim KUint64, _) \<Rightarrow> encodeFixedWidth ty v 8
      | (TBytes, VBytes b) \<Rightarrow> ret (encodeBytes b)
      | (TBits, VBits b) \<Rightarrow> encodeBits b
      | (TPrim KBool, VBool b) \<Rightarrow> ret (encodeBool b)
      | _ \<Rightarrow> handleReflectTypes_encode bw_marshal ty v)"

primrec marshal :: "nat \<Rightarrow> marshal_fun" where
  "marshal 0 = (\<lambda>ty v. None)"
| "marshal (Suc depth) = marshal_switch (marshal depth)"

definition Marshal :: "nat \<Rightarrow> marshal_fun" where
  "Marshal depth ty v = marshal depth ty v"

section \<open>The decoder\<close>

text \<open>Lifting of the reader's results, and of a read that leaves the rest of the buffer.\<close>

type_synonym 'a decode_result = "('a \<times> bytes) jam_result"
type_synonym unmarshal_fun = "jtype \<Rightarrow> bytes \<Rightarrow> jval decode_result"

definition br_Read :: "nat \<Rightarrow> bytes \<Rightarrow> bytes decode_result" where
  "br_Read n buf = Some (buffer_Read n buf)"

definition br_ReadOctet :: "bytes \<Rightarrow> u8 decode_result" where
  "br_ReadOctet buf = Some (ReadOctet buf)"

text \<open>\<^verbatim>\<open>io.ReadFull\<close>: the whole length or an error.\<close>

definition io_ReadFull :: "nat \<Rightarrow> bytes \<Rightarrow> bytes decode_result" where
  "io_ReadFull n buf =
     (if n \<le> length buf then ret (take n buf, drop n buf)
      else raise (if buf = [] then EOF else ErrUnexpectedEOF))"

definition decodeBool :: "bytes \<Rightarrow> jval decode_result" where
  "decodeBool buf =
     res_bind (br_ReadOctet buf) (\<lambda>(rb, rest).
       if rb = 0 then ret (VBool False, rest)
       else if rb = 1 then ret (VBool True, rest)
       else raise ErrDecodingBool)"

definition decodeUint_value :: "kind \<Rightarrow> bytes \<Rightarrow> jval decode_result" where
  "decodeUint_value k buf =
     res_bind (decodeUint buf) (\<lambda>(v, rest). ret (if k = KInt then VInt v else VUint v, rest))"

definition MaxUint32 :: u64 where
  "MaxUint32 = 4294967295"

definition decodeBytesFixedLength :: "u64 \<Rightarrow> bytes \<Rightarrow> bytes decode_result" where
  "decodeBytesFixedLength len buf =
     (if len > MaxUint32 then raise ErrExceedingByteArrayLimit
      else if len > 0 then br_Read (unat len) buf
      else ret ([], buf))"

definition decodeBytes :: "bytes \<Rightarrow> jval decode_result" where
  "decodeBytes buf =
     res_bind (decodeLength buf) (\<lambda>(len, rest).
       res_bind (decodeBytesFixedLength len rest) (\<lambda>(b, rest'). ret (VBytes b, rest')))"

definition decodeBitsFixedLength :: "u64 \<Rightarrow> bytes \<Rightarrow> bool list decode_result" where
  "decodeBitsFixedLength bytesLength buf =
     (if bytesLength > MaxUint32 then raise ErrExceedingByteArrayLimit
      else res_bind (br_Read (unat bytesLength) buf) (\<lambda>(bb, rest).
        ret (map (\<lambda>i. bb ! (i div 8) AND shl 1 (i mod 8) = shl 1 (i mod 8)) [0..<unat bytesLength * 8], rest)))"

definition decodeBits :: "bytes \<Rightarrow> jval decode_result" where
  "decodeBits buf =
     res_bind (decodeLength buf) (\<lambda>(len, rest).
       res_bind (decodeBitsFixedLength len rest) (\<lambda>(v, rest'). ret (VBits v, rest')))"

definition readPointerMarker :: "bytes \<Rightarrow> bool decode_result" where
  "readPointerMarker buf =
     res_bind (br_Read 1 buf) (\<lambda>(m, rest).
       if m ! 0 = 0 then ret (True, rest)
       else if m ! 0 = 1 then ret (False, rest)
       else raise ErrInvalidPointer)"

text \<open>The value that \<^verbatim>\<open>decodeFixedWidth\<close> stores, by the kind of the destination.\<close>

definition fixedWidth_value :: "kind \<Rightarrow> bytes \<Rightarrow> jval option" where
  "fixedWidth_value k buf =
     (case k of
        KUint8 \<Rightarrow> Some (VUint (ucast (deserializeTrivialNatural buf :: u8)))
      | KUint16 \<Rightarrow> Some (VUint (ucast (deserializeTrivialNatural buf :: u16)))
      | KUint32 \<Rightarrow> Some (VUint (ucast (deserializeTrivialNatural buf :: u32)))
      | KUint64 \<Rightarrow> Some (VUint (deserializeTrivialNatural buf))
      | KInt8 \<Rightarrow> Some (VInt (scast (deserializeTrivialNatural buf :: u8)))
      | KInt16 \<Rightarrow> Some (VInt (scast (deserializeTrivialNatural buf :: u16)))
      | KInt32 \<Rightarrow> Some (VInt (scast (deserializeTrivialNatural buf :: u32)))
      | KInt64 \<Rightarrow> Some (VInt (deserializeTrivialNatural buf))
      | _ \<Rightarrow> None)"

definition decodeFixedWidth_value :: "jtype \<Rightarrow> nat \<Rightarrow> bytes \<Rightarrow> jval decode_result" where
  "decodeFixedWidth_value ty len buf =
     res_bind (res_wrap ErrReadingByte (br_Read len buf)) (\<lambda>(b, rest).
       case kind_of ty of
         None \<Rightarrow> raise ErrUnsupportedType
       | Some k \<Rightarrow>
           (case fixedWidth_value k b of
              None \<Rightarrow> raise ErrUnsupportedType
            | Some v \<Rightarrow> ret (v, rest)))"

definition decodeFixedWidth :: "jtype \<Rightarrow> nat \<Rightarrow> bytes \<Rightarrow> jval decode_result" where
  "decodeFixedWidth ty len buf =
     (case ty of
        TPtr t \<Rightarrow>
          res_bind (readPointerMarker buf) (\<lambda>(isNil, rest).
            if isNil then ret (VPtr None, rest)
            else res_bind (decodeFixedWidth_value t len rest) (\<lambda>(v, rest'). ret (VPtr (Some v), rest')))
      | _ \<Rightarrow> decodeFixedWidth_value ty len buf)"

fun decode_times :: "(bytes \<Rightarrow> 'a decode_result) \<Rightarrow> nat \<Rightarrow> bytes \<Rightarrow> 'a list decode_result" where
  "decode_times f 0 buf = ret ([], buf)"
| "decode_times f (Suc n) buf =
     res_bind (f buf) (\<lambda>(x, rest).
       res_bind (decode_times f n rest) (\<lambda>(xs, rest'). ret (x # xs, rest')))"

definition decodeArray :: "unmarshal_fun \<Rightarrow> nat \<Rightarrow> jtype \<Rightarrow> bytes \<Rightarrow> jval decode_result" where
  "decodeArray br_unmarshal n t buf =
     res_bind (decode_times (br_unmarshal t) n buf) (\<lambda>(vs, rest). ret (VList vs, rest))"

definition decodeSlice :: "unmarshal_fun \<Rightarrow> jtype \<Rightarrow> bytes \<Rightarrow> jval decode_result" where
  "decodeSlice br_unmarshal t buf =
     res_bind (decodeLength buf) (\<lambda>(l, rest).
       res_bind (decode_times (br_unmarshal t) (unat l) rest) (\<lambda>(vs, rest'). ret (VList vs, rest')))"

definition decodeEd25519PublicKey :: "bytes \<Rightarrow> jval decode_result" where
  "decodeEd25519PublicKey buf = res_bind (io_ReadFull 32 buf) (\<lambda>(k, rest). ret (VBytes k, rest))"

definition decodeMap_pair :: "unmarshal_fun \<Rightarrow> jtype \<Rightarrow> jtype \<Rightarrow> bytes \<Rightarrow> (jval \<times> jval) decode_result" where
  "decodeMap_pair br_unmarshal kt vt buf =
     res_bind (res_wrap ErrDecodingMapKey (br_unmarshal kt buf)) (\<lambda>(k, rest).
       res_bind (res_wrap ErrDecodingMapValue (br_unmarshal vt rest)) (\<lambda>(v, rest').
         ret ((k, v), rest')))"

definition decodeMap :: "unmarshal_fun \<Rightarrow> jtype \<Rightarrow> jtype \<Rightarrow> bytes \<Rightarrow> jval decode_result" where
  "decodeMap br_unmarshal kt vt buf =
     res_bind (res_wrap ErrDecodingMapLength (decodeLength buf)) (\<lambda>(l, rest).
       res_bind (decode_times (decodeMap_pair br_unmarshal kt vt) (unat l) rest) (\<lambda>(kvs, rest').
         ret (VMap (fold (\<lambda>(k, v). AList.update k v) kvs []), rest')))"

definition decodeStruct_field :: "unmarshal_fun \<Rightarrow> field_tag \<times> jtype \<Rightarrow> bytes \<Rightarrow> jval decode_result" where
  "decodeStruct_field br_unmarshal f buf =
     (case f of
        (TagSkip, t) \<Rightarrow> ret (VOpaque, buf)
      | (TagLength l, t) \<Rightarrow> res_wrap ErrEncodingStructField (decodeFixedWidth t l buf)
      | (NoTag, t) \<Rightarrow> res_wrap ErrDecodingStructField (br_unmarshal t buf))"

fun decodeStruct_fields ::
  "(field_tag \<times> jtype \<Rightarrow> bytes \<Rightarrow> jval decode_result) \<Rightarrow> (field_tag \<times> jtype) list \<Rightarrow> bytes \<Rightarrow>
   jval list decode_result" where
  "decodeStruct_fields d [] buf = ret ([], buf)"
| "decodeStruct_fields d (f # fs) buf =
     res_bind (d f buf) (\<lambda>(v, rest).
       res_bind (decodeStruct_fields d fs rest) (\<lambda>(vs, rest'). ret (v # vs, rest')))"

definition decodeStruct :: "unmarshal_fun \<Rightarrow> (field_tag \<times> jtype) list \<Rightarrow> bytes \<Rightarrow> jval decode_result" where
  "decodeStruct br_unmarshal fs buf =
     res_bind (decodeStruct_fields (decodeStruct_field br_unmarshal) fs buf)
       (\<lambda>(vs, rest). ret (VStruct vs, rest))"

definition decodePointer :: "unmarshal_fun \<Rightarrow> jtype \<Rightarrow> bytes \<Rightarrow> jval decode_result" where
  "decodePointer br_unmarshal t buf =
     res_bind (readPointerMarker buf) (\<lambda>(isNil, rest).
       if isNil then ret (VPtr None, rest)
       else res_bind (br_unmarshal t rest) (\<lambda>(v, rest'). ret (VPtr (Some v), rest')))"

definition decodeCustomPrimitive :: "unmarshal_fun \<Rightarrow> kind \<Rightarrow> bytes \<Rightarrow> jval decode_result" where
  "decodeCustomPrimitive br_unmarshal k buf = br_unmarshal (TPrim k) buf"

definition decodeEnum :: "unmarshal_fun \<Rightarrow> (u8 \<times> jtype option) list \<Rightarrow> bytes \<Rightarrow> jval decode_result" where
  "decodeEnum br_unmarshal variants buf =
     res_bind (br_ReadOctet buf) (\<lambda>(b, rest).
       case map_of variants b of
         None \<Rightarrow> raise ErrUnsupportedEnumTypeValue
       | Some None \<Rightarrow> ret (VEnum b None, rest)
       | Some (Some t) \<Rightarrow> res_bind (br_unmarshal t rest) (\<lambda>(v, rest'). ret (VEnum b (Some v), rest')))"

definition handleReflectTypes_decode :: "unmarshal_fun \<Rightarrow> unmarshal_fun" where
  "handleReflectTypes_decode br_unmarshal ty buf =
     (case ty of
        TNamed k \<Rightarrow> decodeCustomPrimitive br_unmarshal k buf
      | TPtr t \<Rightarrow> decodePointer br_unmarshal t buf
      | TStruct fs \<Rightarrow> decodeStruct br_unmarshal fs buf
      | TArray n t \<Rightarrow> decodeArray br_unmarshal n t buf
      | TEd25519PublicKey \<Rightarrow> decodeEd25519PublicKey buf
      | TSlice t \<Rightarrow> decodeSlice br_unmarshal t buf
      | TMap kt vt \<Rightarrow> decodeMap br_unmarshal kt vt buf
      | _ \<Rightarrow> raise ErrUnsupportedType)"

definition unmarshal_switch :: "unmarshal_fun \<Rightarrow> unmarshal_fun" where
  "unmarshal_switch br_unmarshal ty buf =
     (case ty of
        TEnum variants \<Rightarrow> decodeEnum br_unmarshal variants buf
      | TPrim KInt \<Rightarrow> decodeUint_value KInt buf
      | TPrim KUint \<Rightarrow> decodeUint_value KUint buf
      | TPrim KBool \<Rightarrow> decodeBool buf
      | TPrim k \<Rightarrow> (case IntLength k of Inl e \<Rightarrow> raise e | Inr l \<Rightarrow> decodeFixedWidth ty l buf)
      | TBytes \<Rightarrow> decodeBytes buf
      | TBits \<Rightarrow> decodeBits buf
      | _ \<Rightarrow> handleReflectTypes_decode br_unmarshal ty buf)"

primrec unmarshal :: "nat \<Rightarrow> unmarshal_fun" where
  "unmarshal 0 = (\<lambda>ty buf. None)"
| "unmarshal (Suc depth) = unmarshal_switch (unmarshal depth)"

text \<open>
  \<^verbatim>\<open>Unmarshal\<close>: no data leaves the destination as it is, and octets that the decoder does
  not read are ignored.
\<close>

definition Unmarshal :: "nat \<Rightarrow> jtype \<Rightarrow> bytes \<Rightarrow> jval \<Rightarrow> jval jam_result" where
  "Unmarshal depth ty data dst =
     (if data = [] then ret dst
      else res_bind (unmarshal depth ty data) (\<lambda>(v, rest). ret v))"

section \<open>What the codec can carry\<close>

text \<open>
  The values of a type that the encoder accepts and the decoder gives back: numbers within
  their width, byte strings below \<open>2 ^ 32\<close>, bit sequences of a length at which
  \<^verbatim>\<open>encodeBits\<close> allots the octets it needs and no more, maps listed in the order of their
  keys. No value of a type \<^verbatim>\<open>int8\<close> to \<^verbatim>\<open>int64\<close> is among them.
\<close>

fun kind_bits :: "kind \<Rightarrow> nat" where
  "kind_bits KUint8 = 8"
| "kind_bits KUint16 = 16"
| "kind_bits KUint32 = 32"
| "kind_bits _ = 64"

fun scalar_ok :: "kind \<Rightarrow> jval \<Rightarrow> bool" where
  "scalar_ok KBool v = (\<exists>b. v = VBool b)"
| "scalar_ok KInt v = (\<exists>x. v = VInt x)"
| "scalar_ok k (VUint x) = (unsigned_kind k \<and> unat x < 2 ^ kind_bits k)"
| "scalar_ok k v = False"

fun fixed_ok :: "nat \<Rightarrow> jtype \<Rightarrow> jval \<Rightarrow> bool" where
  "fixed_ok l t (VUint x) =
     (case kind_of t of
        Some k \<Rightarrow> k \<noteq> KUint \<and> unsigned_kind k \<and> unat x < 2 ^ kind_bits k \<and> unat x < 2 ^ (8 * l)
      | None \<Rightarrow> False)"
| "fixed_ok l (TPtr t) (VPtr None) = True"
| "fixed_ok l (TPtr t) (VPtr (Some v)) =
     (case v of VUint x \<Rightarrow>
       (case kind_of t of
          Some k \<Rightarrow> k \<noteq> KUint \<and> unsigned_kind k \<and> unat x < 2 ^ kind_bits k \<and> unat x < 2 ^ (8 * l)
        | None \<Rightarrow> False) | _ \<Rightarrow> False)"
| "fixed_ok l t v = False"

definition bits_ok :: "bool list \<Rightarrow> bool" where
  "bits_ok bs \<longleftrightarrow> length bs mod 8 = 0 \<and> (bs = [] \<or> length bs mod 64 \<noteq> 0) \<and> length bs div 8 < 2 ^ 32"

fun encodable :: "jtype \<Rightarrow> jval \<Rightarrow> bool"
and encodable_field :: "field_tag \<times> jtype \<Rightarrow> jval \<Rightarrow> bool" where
  "encodable (TPrim k) v = scalar_ok k v"
| "encodable (TNamed k) v = scalar_ok k v"
| "encodable TBytes v = (case v of VBytes b \<Rightarrow> length b < 2 ^ 32 | _ \<Rightarrow> False)"
| "encodable TBits v = (case v of VBits b \<Rightarrow> bits_ok b | _ \<Rightarrow> False)"
| "encodable TEd25519PublicKey v = (case v of VBytes b \<Rightarrow> length b = 32 | _ \<Rightarrow> False)"
| "encodable (TPtr t) v =
     (case v of VPtr None \<Rightarrow> True | VPtr (Some w) \<Rightarrow> encodable t w | _ \<Rightarrow> False)"
| "encodable (TStruct fs) v =
     (case v of VStruct vs \<Rightarrow> list_all2 encodable_field fs vs | _ \<Rightarrow> False)"
| "encodable (TArray n t) v =
     (case v of VList vs \<Rightarrow> length vs = n \<and> list_all (encodable t) vs | _ \<Rightarrow> False)"
| "encodable (TSlice t) v =
     (case v of VList vs \<Rightarrow> length vs < 2 ^ 64 \<and> list_all (encodable t) vs | _ \<Rightarrow> False)"
| "encodable (TMap kt vt) v =
     (case v of VMap kvs \<Rightarrow>
        length kvs < 2 ^ 64 \<and> sortable_key_type kt = None \<and>
        sorted (map (map_key_rank \<circ> fst) kvs) \<and> distinct (map fst kvs) \<and>
        list_all (\<lambda>(k, w). encodable kt k \<and> encodable vt w) kvs | _ \<Rightarrow> False)"
| "encodable (TEnum variants) v =
     (case v of VEnum b w \<Rightarrow>
        (case map_of variants b of
           None \<Rightarrow> False
         | Some None \<Rightarrow> w = None
         | Some (Some t) \<Rightarrow> (case w of None \<Rightarrow> False | Some u \<Rightarrow> encodable t u)) | _ \<Rightarrow> False)"
| "encodable_field (NoTag, t) v = encodable t v"
| "encodable_field (TagSkip, t) v = (v = VOpaque)"
| "encodable_field (TagLength l, t) v = fixed_ok l t v"

text \<open>The depth of nested calls that a type needs.\<close>

fun stack_depth :: "jtype \<Rightarrow> nat" where
  "stack_depth (TNamed k) = 2"
| "stack_depth (TPtr t) = Suc (stack_depth t)"
| "stack_depth (TStruct fs) = Suc (foldr max (map (\<lambda>(tag, t). stack_depth t) fs) 0)"
| "stack_depth (TArray n t) = Suc (stack_depth t)"
| "stack_depth (TSlice t) = Suc (stack_depth t)"
| "stack_depth (TMap kt vt) = Suc (max (stack_depth kt) (stack_depth vt))"
| "stack_depth (TEnum variants) =
     Suc (foldr max (map (\<lambda>(b, ot). case ot of None \<Rightarrow> 0 | Some t \<Rightarrow> stack_depth t) variants) 0)"
| "stack_depth _ = 1"

section \<open>The contract of an encoding\<close>

text \<open>
  An encoder and a decoder of one kind of value, for the values in \<open>valid\<close>: the decoder
  reads back what the encoder wrote and stops where the encoding ends. Sequences of such
  values then decode element by element, and no encoding is a prefix of another.
\<close>

locale prefix_codec =
  fixes enc :: "'a \<Rightarrow> bytes jam_result"
    and dec :: "bytes \<Rightarrow> 'a decode_result"
    and valid :: "'a \<Rightarrow> bool"
  assumes encode_decode: "valid x \<Longrightarrow> \<exists>bs. enc x = ret bs \<and> (\<forall>rest. dec (bs @ rest) = ret (x, rest))"
begin

lemma decode_encoded: "valid x \<Longrightarrow> enc x = ret bs \<Longrightarrow> dec (bs @ rest) = ret (x, rest)"
  using encode_decode [of x] by auto

lemma prefix_free:
  assumes "valid x" "valid y" "enc x = ret bs" "enc y = ret cs" "bs @ r = cs @ s"
  shows "x = y \<and> r = s"
  using decode_encoded [OF assms(1,3), of r] decode_encoded [OF assms(2,4), of s] assms(5) by simp

lemma encode_injective: "valid x \<Longrightarrow> valid y \<Longrightarrow> enc x = ret bs \<Longrightarrow> enc y = ret bs \<Longrightarrow> x = y"
  using prefix_free [of x y bs bs "[]" "[]"] by simp

lemma encode_all_decode_times:
  "\<forall>x \<in> set xs. valid x \<Longrightarrow>
    \<exists>bs. encode_all enc xs = ret bs \<and> (\<forall>rest. decode_times dec (length xs) (bs @ rest) = ret (xs, rest))"
proof (induction xs)
  case Nil
  show ?case by simp
next
  case (Cons x xs)
  then obtain bs cs where
    "enc x = ret bs" "\<And>rest. dec (bs @ rest) = ret (x, rest)"
    "encode_all enc xs = ret cs" "\<And>rest. decode_times dec (length xs) (cs @ rest) = ret (xs, rest)"
    using encode_decode [of x] by auto
  then show ?case by simp
qed

end

interpretation natural: prefix_codec "\<lambda>x. ret (serializeUint64 x)" decodeUint "\<lambda>_. True"
  by unfold_locales (simp add: decodeUint_serializeUint64)

section \<open>Bit sequences\<close>

lemma encodeBits_loop_spec:
  "i + length bs \<le> 8 * length bb \<Longrightarrow>
   \<exists>cc. encodeBits_loop i bs bb = Some cc \<and> length cc = length bb \<and>
     (\<forall>j < length bb. \<forall>k < 8. bit (cc ! j) k \<longleftrightarrow>
        bit (bb ! j) k \<or> i \<le> 8 * j + k \<and> 8 * j + k < i + length bs \<and> bs ! (8 * j + k - i))"
proof (induction i bs bb rule: encodeBits_loop.induct)
  case (1 i bb)
  show ?case by auto
next
  case (2 i b bs bb)
  have idx: "i div 8 < length bb" using "2.prems" by simp
  define bb' where "bb' = (if b then bb[i div 8 := bb ! (i div 8) OR shl 1 (i mod 8)] else bb)"
  have step: "encodeBits_loop i (b # bs) bb = encodeBits_loop (Suc i) bs bb'"
    using idx by (simp add: bb'_def)
  have len: "length bb' = length bb" by (simp add: bb'_def)
  have bits: "bit (bb' ! j) k \<longleftrightarrow> bit (bb ! j) k \<or> b \<and> 8 * j + k = i" if "j < length bb" "k < 8" for j k
  proof -
    have "8 * j + k = i \<longleftrightarrow> j = i div 8 \<and> k = i mod 8" using that by auto
    moreover have "bit (shl 1 (i mod 8) :: u8) k \<longleftrightarrow> k = i mod 8"
      using that by (auto simp: bit_exp_iff)
    ultimately show ?thesis
      using that by (cases "j = i div 8") (auto simp: bb'_def bit_or_iff simp del: push_bit_of_1)
  qed
  have "\<exists>cc. encodeBits_loop (Suc i) bs bb' = Some cc \<and> length cc = length bb' \<and>
     (\<forall>j < length bb'. \<forall>k < 8. bit (cc ! j) k \<longleftrightarrow>
        bit (bb' ! j) k \<or> Suc i \<le> 8 * j + k \<and> 8 * j + k < Suc i + length bs \<and> bs ! (8 * j + k - Suc i))"
  proof (cases b)
    case True
    then have "bb' = bb[i div 8 := bb ! (i div 8) OR shl 1 (i mod 8)]" by (simp add: bb'_def)
    then show ?thesis using "2.IH"(1) [OF True idx] "2.prems" by simp
  next
    case False
    then have "bb' = bb" by (simp add: bb'_def)
    then show ?thesis using "2.IH"(2) [OF False] "2.prems" by simp
  qed
  then obtain cc where cc: "encodeBits_loop (Suc i) bs bb' = Some cc" "length cc = length bb"
    and spec: "\<And>j k. j < length bb \<Longrightarrow> k < 8 \<Longrightarrow> bit (cc ! j) k \<longleftrightarrow>
        bit (bb' ! j) k \<or> Suc i \<le> 8 * j + k \<and> 8 * j + k < Suc i + length bs \<and> bs ! (8 * j + k - Suc i)"
    using len by auto
  have "bit (cc ! j) k \<longleftrightarrow>
        bit (bb ! j) k \<or> i \<le> 8 * j + k \<and> 8 * j + k < i + length (b # bs) \<and> (b # bs) ! (8 * j + k - i)"
    if "j < length bb" "k < 8" for j k
    unfolding spec [OF that] bits [OF that]
    by (cases "8 * j + k = i") (auto simp: nth_Cons' Suc_le_eq)
  then show ?case using step cc by auto
qed

lemma and_pow_eq_bit: "k < 8 \<Longrightarrow> (x :: u8) AND shl 1 k = shl 1 k \<longleftrightarrow> bit x k"
proof -
  assume "k < 8"
  have "x AND shl 1 k = (if bit x k then shl 1 k else 0)"
    by (rule bit_word_eqI) (auto simp: bit_simps)
  moreover have "shl 1 k \<noteq> (0 :: u8)"
    using \<open>k < 8\<close> by (simp add: push_bit_eq_0_iff)
  ultimately show ?thesis by auto
qed

lemma small_not_exceeding: "n < 2 ^ 32 \<Longrightarrow> \<not> MaxUint32 < of_nat n"
  by (simp add: MaxUint32_def word_less_nat_alt unsigned_of_nat take_bit_eq_mod not_less)

lemma decodeLength_encodeLength [simp]: "decodeLength (encodeLength n @ rest) = ret (of_nat n, rest)"
  by (simp add: encodeLength_def encodeUint_def decodeLength_serializeUint64)

declare unat_of_nat_small [simp]

lemma br_Read_append [simp]: "length p = n \<Longrightarrow> br_Read n (p @ rest) = ret (p, rest)"
  by (simp add: br_Read_def)

lemma decode_encodeBits:
  assumes "bits_ok b"
  shows "\<exists>bs. encodeBits b = ret bs \<and> (\<forall>rest. decodeBits (bs @ rest) = ret (VBits b, rest))"
proof -
  let ?len = "encodeBits_length (length b)"
  have "length b mod 64 = 8 * (length b div 8 mod 8) + length b mod 8"
    using mod_mult2_eq [of "length b" 8 8] by simp
  then have len: "?len = length b div 8" "length b = ?len * 8" "?len < 2 ^ 32"
    using assms by (auto simp: bits_ok_def encodeBits_length_def Let_def)
  obtain bb where bb: "encodeBits_loop 0 b (replicate ?len 0) = Some bb" "length bb = ?len"
    and spec: "\<forall>j < ?len. \<forall>k < 8. bit (bb ! j) k \<longleftrightarrow> 8 * j + k < length b \<and> b ! (8 * j + k)"
    using encodeBits_loop_spec [of 0 b "replicate ?len 0"] len by auto
  have dec: "map (\<lambda>i. bb ! (i div 8) AND shl 1 (i mod 8) = shl 1 (i mod 8)) [0..<?len * 8] = b"
  proof (rule nth_equalityI)
    show "length (map (\<lambda>i. bb ! (i div 8) AND shl 1 (i mod 8) = shl 1 (i mod 8)) [0..<?len * 8]) = length b"
      using len(2) by simp
  next
    fix i
    assume "i < length (map (\<lambda>i. bb ! (i div 8) AND shl 1 (i mod 8) = shl 1 (i mod 8)) [0..<?len * 8])"
    then have i: "i < ?len * 8" by simp
    then have "i div 8 < ?len" by auto
    then show "map (\<lambda>i. bb ! (i div 8) AND shl 1 (i mod 8) = shl 1 (i mod 8)) [0..<?len * 8] ! i = b ! i"
      using i len(2) spec by (simp add: and_pow_eq_bit del: push_bit_of_1)
  qed
  have "decodeBits ((encodeLength ?len @ bb) @ rest) = ret (VBits b, rest)" for rest
    using len(3) small_not_exceeding [of ?len] dec bb(2)
    by (simp add: decodeBits_def decodeBitsFixedLength_def del: push_bit_of_1)
  then show ?thesis
    using bb(1) by (simp add: encodeBits_def)
qed

end
