(* ===== verification/Jam_Roundtrip.thy ===== *)
theory Jam_Roundtrip
  imports Jam_Codec
begin

text \<open>
  The decoder reads back what the encoder writes, for every type of the codec's universe:
  \<open>codec\<close> is the contract \<open>prefix_codec\<close> for \<open>marshal\<close> and \<open>unmarshal\<close> at one type, shown
  one type former at a time and put together by induction on the stack bound.
\<close>

section \<open>Fixed-width fields\<close>

lemma take_bit_below: "unat (x :: 'a::len word) < 2 ^ n \<Longrightarrow> take_bit n x = x"
  by (simp add: word_unat_eq_iff unat_take_bit)

lemma ucast_ucast_below:
  "unat (x :: u64) < 2 ^ LENGTH('a::len) \<Longrightarrow> ucast (ucast x :: 'a word) = x"
  by (simp add: word_unat_eq_iff unsigned_ucast_eq unat_take_bit)

lemma fixedWidth_value_serialize:
  assumes "unsigned_kind k" "k \<noteq> KUint" "unat x < 2 ^ kind_bits k" "unat x < 2 ^ (8 * l)"
  shows "fixedWidth_value k (serializeTrivialNatural x l) = Some (VUint x)"
  using assms
  by (cases k)
    (auto simp: fixedWidth_value_def deserialize_serializeTrivialNatural take_bit_below ucast_ucast_below)

lemma decode_encodeFixedWidth_value:
  assumes "kind_of t = Some k" "unsigned_kind k" "k \<noteq> KUint"
    and "unat x < 2 ^ kind_bits k" "unat x < 2 ^ (8 * l)"
  shows "decodeFixedWidth_value t l (serializeTrivialNatural x l @ rest) = ret (VUint x, rest)"
  using assms by (simp add: decodeFixedWidth_value_def fixedWidth_value_serialize)

lemma readPointerMarker_writePointerMarker [simp]:
  "readPointerMarker (writePointerMarker isNil @ rest) = ret (isNil, rest)"
proof -
  have "br_Read 1 ([b] @ rest) = ret ([b], rest)" for b
    by (rule br_Read_append) simp
  then show ?thesis
    by (simp add: readPointerMarker_def writePointerMarker_def)
qed

lemma codec_fixed: "prefix_codec (\<lambda>v. encodeFixedWidth t v l) (decodeFixedWidth t l) (fixed_ok l t)"
proof
  fix v
  assume "fixed_ok l t v"
  then show "\<exists>bs. encodeFixedWidth t v l = ret bs \<and> (\<forall>rest. decodeFixedWidth t l (bs @ rest) = ret (v, rest))"
    by (cases "(l, t, v)" rule: fixed_ok.cases)
      (auto simp: encodeFixedWidth_def decodeFixedWidth_def encodeFixedWidth_value_def
        decode_encodeFixedWidth_value split: option.splits jval.splits jtype.splits)
qed

section \<open>Scalars\<close>

abbreviation codec :: "nat \<Rightarrow> jtype \<Rightarrow> bool" where
  "codec n t \<equiv> prefix_codec (marshal n t) (unmarshal n t) (encodable t)"

lemma ReadOctet_append [simp]: "br_ReadOctet ([b] @ rest) = ret (b, rest)" "br_ReadOctet (b # rest) = ret (b, rest)"
  by (simp_all add: br_ReadOctet_def)

lemma codec_prim: "codec (Suc n) (TPrim k)"
proof
  fix v
  assume ok: "encodable (TPrim k) v"
  show "\<exists>bs. marshal (Suc n) (TPrim k) v = ret bs \<and>
      (\<forall>rest. unmarshal (Suc n) (TPrim k) (bs @ rest) = ret (v, rest))"
    using ok
    by (cases "(k, v)" rule: scalar_ok.cases)
      (auto simp: marshal_switch_def unmarshal_switch_def encodeUint_def encodeBool_def decodeBool_def
        decodeUint_value_def decodeUint_serializeUint64 encodeFixedWidth_def decodeFixedWidth_def
        encodeFixedWidth_value_def decode_encodeFixedWidth_value)
qed

lemmas reflect_defs = handleReflectTypes_encode_def handleReflectTypes_decode_def
  encodeCustomPrimitive_def decodeCustomPrimitive_def

lemma marshal_unfold: "marshal (Suc n) t v = marshal_switch (marshal n) t v"
  by simp

lemma unmarshal_unfold: "unmarshal (Suc n) t buf = unmarshal_switch (unmarshal n) t buf"
  by simp

lemma codec_named: "codec (Suc (Suc n)) (TNamed k)"
proof
  fix v
  assume "encodable (TNamed k) v"
  then have "encodable (TPrim k) v" by simp
  from prefix_codec.encode_decode [OF codec_prim this]
  show "\<exists>bs. marshal (Suc (Suc n)) (TNamed k) v = ret bs \<and>
      (\<forall>rest. unmarshal (Suc (Suc n)) (TNamed k) (bs @ rest) = ret (v, rest))"
    by (simp only: marshal_unfold [of "Suc n"] unmarshal_unfold [of "Suc n"])
      (auto simp: marshal_switch_def [of _ "TNamed k"] unmarshal_switch_def [of _ "TNamed k"] reflect_defs
        simp del: marshal.simps unmarshal.simps)
qed

section \<open>Byte and bit strings, keys and pointers\<close>

lemma codec_bytes: "codec (Suc n) TBytes"
proof
  fix v
  assume "encodable TBytes v"
  then obtain b where v: "v = VBytes b" and len: "length b < 2 ^ 32"
    by (auto split: jval.splits)
  have "decodeBytesFixedLength (of_nat (length b)) (b @ rest) = ret (b, rest)" for rest
    using len small_not_exceeding [OF len]
    by (cases "b = []") (auto simp: decodeBytesFixedLength_def word_less_nat_alt)
  then show "\<exists>bs. marshal (Suc n) TBytes v = ret bs \<and> (\<forall>rest. unmarshal (Suc n) TBytes (bs @ rest) = ret (v, rest))"
    by (simp add: v marshal_switch_def unmarshal_switch_def encodeBytes_def decodeBytes_def)
qed

lemma codec_bits: "codec (Suc n) TBits"
proof
  fix v
  assume "encodable TBits v"
  then obtain b where v: "v = VBits b" and ok: "bits_ok b"
    by (auto split: jval.splits)
  show "\<exists>bs. marshal (Suc n) TBits v = ret bs \<and> (\<forall>rest. unmarshal (Suc n) TBits (bs @ rest) = ret (v, rest))"
    using decode_encodeBits [OF ok] by (simp add: v marshal_switch_def unmarshal_switch_def)
qed

lemma codec_key: "codec (Suc n) TEd25519PublicKey"
proof
  fix v
  assume "encodable TEd25519PublicKey v"
  then obtain b where "v = VBytes b" and "length b = 32"
    by (auto split: jval.splits)
  then show "\<exists>bs. marshal (Suc n) TEd25519PublicKey v = ret bs \<and>
      (\<forall>rest. unmarshal (Suc n) TEd25519PublicKey (bs @ rest) = ret (v, rest))"
    by (simp add: marshal_switch_def unmarshal_switch_def reflect_defs encodeEd25519PublicKey_def
        decodeEd25519PublicKey_def io_ReadFull_def)
qed

lemma codec_ptr: "codec n t \<Longrightarrow> codec (Suc n) (TPtr t)"
proof
  fix v
  assume c: "codec n t" and "encodable (TPtr t) v"
  then consider "v = VPtr None" | w where "v = VPtr (Some w)" "encodable t w"
    by (auto split: jval.splits option.splits)
  then show "\<exists>bs. marshal (Suc n) (TPtr t) v = ret bs \<and>
      (\<forall>rest. unmarshal (Suc n) (TPtr t) (bs @ rest) = ret (v, rest))"
  proof cases
    case 1
    then show ?thesis
      by (simp add: marshal_switch_def unmarshal_switch_def reflect_defs decodePointer_def)
  next
    case 2
    then show ?thesis
      using prefix_codec.encode_decode [OF c 2(2)]
      by (auto simp: marshal_switch_def unmarshal_switch_def reflect_defs decodePointer_def)
  qed
qed

section \<open>Sequences, maps, structs and enums\<close>

lemma codec_array: "codec n t \<Longrightarrow> codec (Suc n) (TArray l t)"
proof
  fix v
  assume c: "codec n t" and "encodable (TArray l t) v"
  then obtain vs where v: "v = VList vs" and "length vs = l" "\<forall>x \<in> set vs. encodable t x"
    by (auto split: jval.splits simp: list_all_iff)
  with prefix_codec.encode_all_decode_times [OF c, of vs]
  show "\<exists>bs. marshal (Suc n) (TArray l t) v = ret bs \<and>
      (\<forall>rest. unmarshal (Suc n) (TArray l t) (bs @ rest) = ret (v, rest))"
    by (auto simp: marshal_switch_def unmarshal_switch_def reflect_defs encodeArray_def decodeArray_def)
qed

lemma codec_slice: "codec n t \<Longrightarrow> codec (Suc n) (TSlice t)"
proof
  fix v
  assume c: "codec n t" and "encodable (TSlice t) v"
  then obtain vs where v: "v = VList vs" and "length vs < 2 ^ 64" "\<forall>x \<in> set vs. encodable t x"
    by (auto split: jval.splits simp: list_all_iff)
  with prefix_codec.encode_all_decode_times [OF c, of vs]
  show "\<exists>bs. marshal (Suc n) (TSlice t) v = ret bs \<and>
      (\<forall>rest. unmarshal (Suc n) (TSlice t) (bs @ rest) = ret (v, rest))"
    by (auto simp: marshal_switch_def unmarshal_switch_def reflect_defs encodeSlice_def decodeSlice_def)
qed

lemma codec_pair:
  assumes "codec n kt" "codec n vt"
  shows "prefix_codec
    (\<lambda>(k, v). res_bind (marshal n kt k) (\<lambda>kb. res_bind (marshal n vt v) (\<lambda>vb. ret (kb @ vb))))
    (decodeMap_pair (unmarshal n) kt vt) (\<lambda>(k, v). encodable kt k \<and> encodable vt v)"
proof
  fix p :: "jval \<times> jval"
  assume "(\<lambda>(k, v). encodable kt k \<and> encodable vt v) p"
  then show "\<exists>bs. (\<lambda>(k, v). res_bind (marshal n kt k) (\<lambda>kb. res_bind (marshal n vt v) (\<lambda>vb. ret (kb @ vb)))) p = ret bs \<and>
      (\<forall>rest. decodeMap_pair (unmarshal n) kt vt (bs @ rest) = ret (p, rest))"
    using prefix_codec.encode_decode [OF assms(1), of "fst p"] prefix_codec.encode_decode [OF assms(2), of "snd p"]
    by (auto simp: decodeMap_pair_def)
qed

lemma fold_update_distinct:
  "distinct (map fst (acc @ kvs)) \<Longrightarrow> fold (\<lambda>(k, v). AList.update k v) kvs acc = acc @ kvs"
proof (induction kvs arbitrary: acc)
  case Nil
  then show ?case by simp
next
  case (Cons p kvs)
  have "AList.update k v acc = acc @ [(k, v)]" if "k \<notin> fst ` set acc" for k :: 'a and v :: 'b
    using that by (induction acc) auto
  then have "AList.update (fst p) (snd p) acc = acc @ [p]"
    using Cons.prems by auto
  then show ?case
    using Cons.IH [of "acc @ [p]"] Cons.prems by (simp add: case_prod_unfold)
qed

lemma codec_map: "codec n kt \<Longrightarrow> codec n vt \<Longrightarrow> codec (Suc n) (TMap kt vt)"
proof
  fix v
  assume c: "codec n kt" "codec n vt" and "encodable (TMap kt vt) v"
  then obtain kvs where v: "v = VMap kvs" and len: "length kvs < 2 ^ 64"
    and key: "sortable_key_type kt = None" and srt: "sorted (map (map_key_rank \<circ> fst) kvs)"
    and dist: "distinct (map fst kvs)"
    and ok: "\<forall>p \<in> set kvs. (\<lambda>(k, v). encodable kt k \<and> encodable vt v) p"
    by (auto split: jval.splits simp: list_all_iff)
  have sort: "sortMapKeys kt kvs = Inr kvs"
    using key srt by (simp add: sortMapKeys_def case_prod_unfold sort_key_id_if_sorted comp_def)
  have upd: "fold (\<lambda>(k, v). AList.update k v) kvs [] = kvs"
    using fold_update_distinct [of "[]" kvs] dist by simp
  show "\<exists>bs. marshal (Suc n) (TMap kt vt) v = ret bs \<and>
      (\<forall>rest. unmarshal (Suc n) (TMap kt vt) (bs @ rest) = ret (v, rest))"
    using prefix_codec.encode_all_decode_times [OF codec_pair [OF c] ok] v sort upd len
    by (cases "kvs = []")
      (auto simp: marshal_switch_def unmarshal_switch_def reflect_defs encodeMap_def decodeMap_def)
qed

lemma codec_field:
  "codec n t \<Longrightarrow> prefix_codec (\<lambda>v. encodeStruct_field (marshal n) ((tag, t), v))
     (decodeStruct_field (unmarshal n) (tag, t)) (encodable_field (tag, t))"
proof
  fix v
  assume c: "codec n t" and ok: "encodable_field (tag, t) v"
  show "\<exists>bs. encodeStruct_field (marshal n) ((tag, t), v) = ret bs \<and>
      (\<forall>rest. decodeStruct_field (unmarshal n) (tag, t) (bs @ rest) = ret (v, rest))"
  proof (cases tag)
    case NoTag
    with ok show ?thesis
      using prefix_codec.encode_decode [OF c, of v] by (auto simp: encodeStruct_field_def decodeStruct_field_def)
  next
    case TagSkip
    with ok show ?thesis by (simp add: encodeStruct_field_def decodeStruct_field_def)
  next
    case (TagLength l)
    with ok show ?thesis
      using prefix_codec.encode_decode [OF codec_fixed, of l t v]
      by (auto simp: encodeStruct_field_def decodeStruct_field_def)
  qed
qed

lemma codec_fields:
  assumes "list_all2 encodable_field fs vs" "\<forall>(tag, t) \<in> set fs. codec n t"
  shows "\<exists>bs. encode_all (encodeStruct_field (marshal n)) (zip fs vs) = ret bs \<and>
    (\<forall>rest. decodeStruct_fields (decodeStruct_field (unmarshal n)) fs (bs @ rest) = ret (vs, rest))"
  using assms
proof (induction fs vs rule: list_all2_induct)
  case Nil
  show ?case by simp
next
  case (Cons f fs v vs)
  obtain tag t where f: "f = (tag, t)" by (cases f)
  with Cons.prems have "codec n t" by auto
  from prefix_codec.encode_decode [OF codec_field [OF this], of tag v] Cons f show ?case
    by auto
qed

lemma codec_struct: "\<forall>(tag, t) \<in> set fs. codec n t \<Longrightarrow> codec (Suc n) (TStruct fs)"
proof
  fix v
  assume c: "\<forall>(tag, t) \<in> set fs. codec n t" and "encodable (TStruct fs) v"
  then obtain vs where v: "v = VStruct vs" and "list_all2 encodable_field fs vs"
    by (auto split: jval.splits)
  with codec_fields [OF this(2) c]
  show "\<exists>bs. marshal (Suc n) (TStruct fs) v = ret bs \<and>
      (\<forall>rest. unmarshal (Suc n) (TStruct fs) (bs @ rest) = ret (v, rest))"
    by (auto simp: marshal_switch_def unmarshal_switch_def reflect_defs encodeStruct_def decodeStruct_def)
qed

lemma codec_enum:
  assumes "\<And>b t. (b, Some t) \<in> set variants \<Longrightarrow> codec n t"
  shows "codec (Suc n) (TEnum variants)"
proof
  fix v
  assume ok: "encodable (TEnum variants) v"
  then consider b where "v = VEnum b None" "map_of variants b = Some None"
    | b t w where "v = VEnum b (Some w)" "map_of variants b = Some (Some t)" "encodable t w"
    by (auto split: jval.splits option.splits)
  then show "\<exists>bs. marshal (Suc n) (TEnum variants) v = ret bs \<and>
      (\<forall>rest. unmarshal (Suc n) (TEnum variants) (bs @ rest) = ret (v, rest))"
  proof cases
    case (1 b)
    then show ?thesis
      by (simp add: marshal_switch_def unmarshal_switch_def encodeEnumType_def decodeEnum_def)
  next
    case (2 b t w)
    then have "codec n t" by (auto dest: map_of_SomeD intro: assms)
    from prefix_codec.encode_decode [OF this 2(3)] 2 show ?thesis
      by (auto simp: marshal_switch_def unmarshal_switch_def encodeEnumType_def decodeEnum_def)
  qed
qed

lemma foldr_max_le: "foldr max xs (0::nat) \<le> n \<longleftrightarrow> (\<forall>x \<in> set xs. x \<le> n)"
  by (induction xs) auto

lemma codec_all: "stack_depth t \<le> n \<Longrightarrow> codec n t"
proof (induction n arbitrary: t)
  case 0
  then show ?case by (cases t) auto
next
  case (Suc n)
  show ?case
  proof (cases t)
    case (TNamed k)
    with Suc.prems obtain m where "n = Suc m" by (cases n) auto
    with TNamed show ?thesis by (simp only: codec_named)
  next
    case (TStruct fs)
    with Suc have "\<forall>(tag, t) \<in> set fs. codec n t"
      by (fastforce simp: foldr_max_le)
    with TStruct show ?thesis by (simp only: codec_struct)
  next
    case (TEnum variants)
    have "codec n u" if "(b, Some u) \<in> set variants" for b u
      using Suc TEnum that by (fastforce simp: foldr_max_le)
    then have "codec (Suc n) (TEnum variants)" by (rule codec_enum)
    with TEnum show ?thesis by (simp only:)
  qed (use Suc in \<open>auto intro!: codec_prim codec_bytes codec_bits codec_key codec_ptr codec_array codec_slice codec_map
        simp del: marshal.simps unmarshal.simps encodable.simps\<close>)
qed

interpretation jam: prefix_codec "marshal (stack_depth t) t" "unmarshal (stack_depth t) t" "encodable t" for t
  by (rule codec_all) simp

section \<open>The decoder always returns\<close>

lemma decodeUint_returns: "returns (decodeUint buf)"
proof -
  have no_panic: False
    if "buffer_Read l b = Inr (q, r)" "deserializeUint64WithLength (p # q) l = None" for p q l b r
    using that by (auto simp: buffer_Read_def deserializeUint64WithLength_def Let_def split: if_splits)
  then show ?thesis
    by (auto simp: decodeUint_def Let_def split: sum.splits option.splits dest: no_panic)
qed

lemma decodeLength_returns: "returns (decodeLength buf)"
  using decodeUint_returns [of buf] by (auto simp: decodeLength_def returns_def split: sum.splits option.splits)

lemma decode_times_returns: "(\<And>b. returns (f b)) \<Longrightarrow> returns (decode_times f n buf)"
  by (induction n arbitrary: buf) auto

lemma decodeStruct_fields_returns:
  "(\<And>f b. f \<in> set fs \<Longrightarrow> returns (d f b)) \<Longrightarrow> returns (decodeStruct_fields d fs buf)"
  by (induction fs arbitrary: buf) auto

lemma readPointerMarker_returns: "returns (readPointerMarker buf)"
  by (auto simp: readPointerMarker_def br_Read_def)

lemma decodeFixedWidth_value_returns: "returns (decodeFixedWidth_value t l buf)"
  by (auto simp: decodeFixedWidth_value_def br_Read_def split: option.splits)

lemma decodeFixedWidth_returns: "returns (decodeFixedWidth t l buf)"
  by (auto simp: decodeFixedWidth_def readPointerMarker_returns decodeFixedWidth_value_returns split: jtype.splits)

lemmas decoder_returns = decodeUint_returns decodeLength_returns decodeFixedWidth_returns readPointerMarker_returns

lemmas scalar_decoder_defs = decodeUint_value_def decodeBool_def decodeBytes_def decodeBytesFixedLength_def
  decodeBits_def decodeBitsFixedLength_def decodeEd25519PublicKey_def io_ReadFull_def br_Read_def br_ReadOctet_def

lemmas compound_decoder_defs = decodePointer_def decodeStruct_def decodeStruct_field_def decodeArray_def
  decodeSlice_def decodeMap_def decodeMap_pair_def decodeEnum_def

lemma unmarshal_returns: "stack_depth t \<le> n \<Longrightarrow> returns (unmarshal n t buf)"
proof (induction n arbitrary: t buf)
  case 0
  then show ?case by (cases t) auto
next
  case (Suc n)
  show ?case
  proof (cases t)
    case (TPrim k)
    then show ?thesis
      by (cases k) (auto simp: unmarshal_switch_def scalar_decoder_defs decoder_returns)
  next
    case (TNamed k)
    with Suc.prems have "returns (unmarshal n (TPrim k) buf)"
      by (intro Suc.IH) simp
    with TNamed show ?thesis
      by (simp add: unmarshal_switch_def reflect_defs)
  next
    case (TStruct fs)
    with Suc have "returns (unmarshal n u b)" if "(tag, u) \<in> set fs" for tag u b
      using that by (fastforce simp: foldr_max_le)
    then have "returns (decodeStruct_field (unmarshal n) f b)" if "f \<in> set fs" for f b
      using that by (cases f) (auto simp: decodeStruct_field_def decoder_returns split: field_tag.splits)
    from decodeStruct_fields_returns [OF this] TStruct show ?thesis
      by (auto simp: unmarshal_switch_def reflect_defs decodeStruct_def)
  next
    case (TEnum variants)
    have "returns (unmarshal n u b)" if "map_of variants i = Some (Some u)" for i u b
      using Suc TEnum that by (fastforce simp: foldr_max_le dest!: map_of_SomeD)
    with TEnum show ?thesis
      by (auto simp: unmarshal_switch_def decodeEnum_def br_ReadOctet_def split: option.splits)
  qed (use Suc in \<open>auto simp: unmarshal_switch_def reflect_defs scalar_decoder_defs decoder_returns
        compound_decoder_defs intro!: decode_times_returns\<close>)
qed

section \<open>Types the encoder never returns for\<close>

lemma marshal_signed_never_returns:
  "signed_kind k \<Longrightarrow> k \<noteq> KInt \<Longrightarrow> marshal n (TPrim k) v = None"
proof (induction n)
  case (Suc n)
  then show ?case
    by (cases k) (auto simp: marshal_switch_def reflect_defs)
qed simp

lemma encodeBits_loop_overrun:
  assumes "j < length bs" "bs ! j" "8 * length bb \<le> i + j"
  shows "encodeBits_loop i bs bb = None"
  using assms
proof (induction i bs bb arbitrary: j rule: encodeBits_loop.induct)
  case (2 i b bs bb)
  show ?case
  proof (cases j)
    case 0
    with "2.prems" have "\<not> i div 8 < length bb" by auto
    with 0 "2.prems" show ?thesis by simp
  next
    case (Suc m)
    with "2.prems" "2.IH"(1) [of m] "2.IH"(2) [of m] show ?thesis by auto
  qed
qed simp

section \<open>Properties\<close>

text \<open>
  \<^bold>\<open>General naturals round trip.\<close> For every 64-bit number, \<^verbatim>\<open>decodeUint\<close> applied to
  what \<^verbatim>\<open>serializeUint64\<close> wrote, followed by anything, returns that number and leaves exactly
  what followed.
\<close>

theorem general_natural_roundtrip: "decodeUint (serializeUint64 x @ rest) = ret (x, rest)"
  by (rule decodeUint_serializeUint64)

text \<open>
  \<^bold>\<open>General naturals take the fewest octets.\<close> The encoding has \<open>l + 1\<close> octets for the
  least \<open>l\<close> with \<open>x < 2 ^ (7 (l + 1))\<close>, and nine where there is none: at most \<open>l + 1\<close> octets
  are written exactly for the numbers below \<open>2 ^ (7 (l + 1))\<close>, and never more than nine.
\<close>

theorem general_natural_length:
  "length (serializeUint64 x) \<le> 9 \<and>
   (\<forall>l. l < 8 \<longrightarrow> (length (serializeUint64 x) \<le> Suc l \<longleftrightarrow> unat x < 2 ^ (7 * (l + 1))))"
proof -
  have len: "length (serializeUint64 x) = Suc (serializeUint64_length x 0)"
    using serializeUint64_split [of x] by auto
  have below: "unat x < 2 ^ (7 * (l + 1))" if "serializeUint64_length x 0 \<le> l" "l < 8" for l
  proof -
    have le: "(2::nat) ^ (7 * (serializeUint64_length x 0 + 1)) \<le> 2 ^ (7 * (l + 1))"
      using that by (intro power_increasing) auto
    have "unat x < 2 ^ (7 * (serializeUint64_length x 0 + 1))"
      using serializeUint64_length_spec [of 0 x] that by simp
    then show ?thesis using le by (rule less_le_trans)
  qed
  have above: "2 ^ (7 * (l + 1)) \<le> unat x" if "l < serializeUint64_length x 0" for l
  proof -
    have le: "(2::nat) ^ (7 * (l + 1)) \<le> 2 ^ (7 * serializeUint64_length x 0)"
      using that by (intro power_increasing) auto
    have "2 ^ (7 * serializeUint64_length x 0) \<le> unat x"
      using serializeUint64_length_spec [of 0 x] that by simp
    with le show ?thesis by (rule order_trans)
  qed
  have "length (serializeUint64 x) \<le> Suc l \<longleftrightarrow> unat x < 2 ^ (7 * (l + 1))" if "l < 8" for l
    using below [of l] above [of l] that unfolding len by (cases "serializeUint64_length x 0 \<le> l") simp_all
  then show ?thesis
    using len serializeUint64_length_spec [of 0 x] by simp
qed

theorem general_natural_length_witness:
  "length (serializeUint64 300) \<le> Suc 1 \<longleftrightarrow> unat (300 :: u64) < 2 ^ (7 * (1 + 1))"
  by (rule general_natural_length [THEN conjunct2, rule_format]) simp





text \<open>
  \<^bold>\<open>The encoder never returns on signed fixed-width integers.\<close> For \<^verbatim>\<open>int8\<close>,
  \<^verbatim>\<open>int16\<close>, \<^verbatim>\<open>int32\<close> and \<^verbatim>\<open>int64\<close>, predeclared or defined over, \<^verbatim>\<open>marshal\<close> exceeds every
  bound on the call stack: \<^verbatim>\<open>encodeCustomPrimitive\<close> hands the value back to \<^verbatim>\<open>marshal\<close>, whose
  switch has no case for it.
\<close>

theorem marshal_signed_overflows_stack:
  assumes "k \<in> {KInt8, KInt16, KInt32, KInt64}"
  shows "marshal n (TPrim k) v = None \<and> marshal n (TNamed k) v = None"
proof -
  have k: "signed_kind k" "k \<noteq> KInt" using assms by auto
  moreover have "marshal n (TNamed k) v = None"
    using marshal_signed_never_returns [OF k]
    by (cases n) (auto simp: marshal_switch_def reflect_defs)
  ultimately show ?thesis by (simp add: marshal_signed_never_returns)
qed

theorem marshal_signed_overflows_stack_witness:
  "marshal 1000 (TPrim KInt8) (VInt 1) = None \<and> marshal 1000 (TNamed KInt8) (VInt 1) = None"
  by (rule marshal_signed_overflows_stack) simp

text \<open>
  \<^bold>\<open>Bit sequences whose last octet is not allotted.\<close> \<^verbatim>\<open>encodeBits\<close> tests
  \<^verbatim>\<open>length%8 == 0\<close> on the number of octets where the number of bits is meant. When neither
  number is a multiple of eight, no octet is allotted for the last bits, and a set bit among
  them is an index out of range.
\<close>

theorem encodeBits_index_out_of_range:
  assumes "length bs mod 8 \<noteq> 0" and "length bs div 8 mod 8 \<noteq> 0"
    and "8 * (length bs div 8) \<le> i" and "i < length bs" and "bs ! i"
  shows "encodeBits bs = None"
proof -
  have "encodeBits_length (length bs) = length bs div 8"
    using assms(2) by (simp add: encodeBits_length_def)
  then have "encodeBits_loop 0 bs (replicate (encodeBits_length (length bs)) 0) = None"
    using encodeBits_loop_overrun [of i bs "replicate (length bs div 8) 0" 0] assms by simp
  then show ?thesis by (simp add: encodeBits_def)
qed

text \<open>The availability bit field of 341 cores, all of them set.\<close>

theorem encodeBits_index_out_of_range_witness: "encodeBits (replicate 341 True) = None"
  by (rule encodeBits_index_out_of_range [where i = 340]) simp_all

text \<open>
  \<^bold>\<open>Truncated byte strings are accepted.\<close> A non-empty input that ends before the length
  it announces decodes without an error, and the missing octets read as zero:
  \<^verbatim>\<open>bytes.Buffer.Read\<close> reports a short read by its count, which the reader ignores.
\<close>

theorem truncated_bytes_accepted:
  assumes "p \<noteq> []" and "length p \<le> n" and "n < 2 ^ 32"
  shows "Unmarshal (Suc d) TBytes (encodeLength n @ p) dst = ret (VBytes (p @ replicate (n - length p) 0))"
proof -
  have "0 < n" using assms(1,2) by (cases p) auto
  then have "decodeBytesFixedLength (of_nat n) p = ret (p @ replicate (n - length p) 0, [])"
    using assms small_not_exceeding [OF assms(3)]
    by (auto simp: decodeBytesFixedLength_def br_Read_def buffer_Read_def go_copy_def word_less_nat_alt)
  moreover have "encodeLength n \<noteq> []"
    using serializeUint64_split [of "of_nat n"] by (auto simp: encodeLength_def encodeUint_def)
  ultimately show ?thesis
    by (simp add: Unmarshal_def unmarshal_switch_def decodeBytes_def)
qed

theorem truncated_bytes_accepted_witness:
  "Unmarshal (Suc 0) TBytes (encodeLength 4 @ [7]) (VBytes []) = ret (VBytes ([7] @ replicate (4 - length [7 :: u8]) 0))"
  by (rule truncated_bytes_accepted) simp_all

end
