(* ===== verification/Pvm_Memory.thy ===== *)
theory Pvm_Memory
  imports Jam_Natural
begin

text \<open>
  The memory of the PolkaVM interpreter (\<^verbatim>\<open>internal/polkavm/common.go\<close>) and its standard
  layout (\<^verbatim>\<open>internal/polkavm/initialisation.go\<close>). Addresses are 64-bit and every sum wraps,
  as in the source; the slice expressions keep Go's bounds checks, so a result \<open>None\<close> is a
  run-time panic.
\<close>

section \<open>Exit reasons\<close>

text \<open>
  The error values of \<^verbatim>\<open>exit_reason.go\<close>. The message of a panic is kept without the
  arguments that \<^verbatim>\<open>ErrPanicf\<close> formats into it.
\<close>

datatype pvm_error =
    ErrPanic string
  | ErrOutOfGas
  | ErrPageFault string u64
  | ErrHostCall
  | ErrHalt
  | ErrJam jam_error
  | ErrMemoryLayoutOverflowsAddressSpace
  | ErrBlob string

type_synonym 'a pvm_result = "(pvm_error + 'a) option"

section \<open>Segments\<close>

datatype MemoryAccess = Inaccessible | ReadOnly | ReadWrite

record memorySegment =
  seg_address :: u64
  seg_data :: bytes
  seg_access :: MemoryAccess

record Memory =
  mem_ro :: memorySegment
  mem_rw :: memorySegment
  mem_stack :: memorySegment
  mem_args :: memorySegment

definition PageSize :: u64 where
  "PageSize = 4096"

text \<open>The four branches of \<^verbatim>\<open>Read\<close>, \<^verbatim>\<open>Write\<close>, \<^verbatim>\<open>GetAccess\<close> and \<^verbatim>\<open>SetAccess\<close>, in their order.\<close>

datatype segment_name = Stack | Rw | Ro | Args

fun get_segment :: "Memory \<Rightarrow> segment_name \<Rightarrow> memorySegment" where
  "get_segment m Stack = mem_stack m"
| "get_segment m Rw = mem_rw m"
| "get_segment m Ro = mem_ro m"
| "get_segment m Args = mem_args m"

fun set_segment :: "Memory \<Rightarrow> segment_name \<Rightarrow> memorySegment \<Rightarrow> Memory" where
  "set_segment m Stack s = m\<lparr>mem_stack := s\<rparr>"
| "set_segment m Rw s = m\<lparr>mem_rw := s\<rparr>"
| "set_segment m Ro s = m\<lparr>mem_ro := s\<rparr>"
| "set_segment m Args s = m\<lparr>mem_args := s\<rparr>"

definition seg_end :: "memorySegment \<Rightarrow> u64" where
  "seg_end s = seg_address s + len64 (seg_data s)"

definition in_range :: "memorySegment \<Rightarrow> u64 \<Rightarrow> nat \<Rightarrow> bool" where
  "in_range s addr n \<longleftrightarrow> addr \<ge> seg_address s \<and> addr + of_nat n \<le> seg_end s"

definition on_segment :: "memorySegment \<Rightarrow> u64 \<Rightarrow> bool" where
  "on_segment s addr \<longleftrightarrow> addr \<ge> seg_address s \<and> addr < seg_end s"

definition find_segment :: "(memorySegment \<Rightarrow> bool) \<Rightarrow> Memory \<Rightarrow> segment_name option" where
  "find_segment p m =
     (if p (mem_stack m) then Some Stack
      else if p (mem_rw m) then Some Rw
      else if p (mem_ro m) then Some Ro
      else if p (mem_args m) then Some Args
      else None)"

section \<open>Operations\<close>

definition GetAccess :: "Memory \<Rightarrow> u64 \<Rightarrow> MemoryAccess" where
  "GetAccess m pageIndex =
     (let addr = pageIndex * PageSize in
      case find_segment (\<lambda>s. on_segment s addr) m of
        Some n \<Rightarrow> seg_access (get_segment m n)
      | None \<Rightarrow> Inaccessible)"

definition SetAccess :: "Memory \<Rightarrow> u64 \<Rightarrow> MemoryAccess \<Rightarrow> pvm_error + Memory" where
  "SetAccess m pageIndex acc =
     (let addr = pageIndex * PageSize in
      case find_segment (\<lambda>s. on_segment s addr) m of
        Some n \<Rightarrow> Inr (set_segment m n ((get_segment m n)\<lparr>seg_access := acc\<rparr>))
      | None \<Rightarrow> Inl (ErrPageFault ''page out of valid range'' addr))"

text \<open>The loop that looks for the lowest offending page.\<close>

function page_scan :: "(u64 \<Rightarrow> bool) \<Rightarrow> nat \<Rightarrow> nat \<Rightarrow> u64 option" where
  "page_scan bad i k =
     (if i \<le> k then if bad (of_nat i) then Some (of_nat i) else page_scan bad (Suc i) k
      else None)"
  by pat_completeness auto
termination
  by (relation "measure (\<lambda>(bad, i, k). Suc k - i)") auto

definition page_fault :: "string \<Rightarrow> (u64 \<Rightarrow> bool) \<Rightarrow> u64 \<Rightarrow> nat \<Rightarrow> pvm_error" where
  "page_fault reason bad addr n =
     (case page_scan bad (unat (addr div PageSize)) (unat ((addr + of_nat n) div PageSize)) of
        Some i \<Rightarrow> ErrPageFault reason (i * PageSize)
      | None \<Rightarrow> ErrPanic ''inaccessible memory; unable to find the bad memory page'')"

text \<open>The bounds of the slice of a segment's data that an access takes.\<close>

definition seg_lo :: "memorySegment \<Rightarrow> u64 \<Rightarrow> nat" where
  "seg_lo s addr = unat (addr - seg_address s)"

definition seg_hi :: "memorySegment \<Rightarrow> u64 \<Rightarrow> nat \<Rightarrow> nat" where
  "seg_hi s addr n = unat (addr - seg_address s + of_nat n)"

definition Memory_Read :: "Memory \<Rightarrow> u64 \<Rightarrow> nat \<Rightarrow> bytes pvm_result" where
  "Memory_Read m addr n =
     (if addr < 65536 then raise (ErrPanic ''forbidden memory access'')
      else
        let fault = raise (page_fault ''inaccessible memory'' (\<lambda>i. GetAccess m i = Inaccessible) addr n) in
        case find_segment (\<lambda>s. in_range s addr n) m of
          None \<Rightarrow> fault
        | Some name \<Rightarrow>
            (let s = get_segment m name in
             case go_slice (seg_data s) (seg_lo s addr) (seg_hi s addr n) of
               None \<Rightarrow> None
             | Some memoryData \<Rightarrow>
                 if seg_access s = Inaccessible then fault
                 else ret (go_copy (replicate n 0) memoryData)))"

definition Memory_Write :: "Memory \<Rightarrow> u64 \<Rightarrow> bytes \<Rightarrow> Memory pvm_result" where
  "Memory_Write m addr d =
     (if addr < 65536 then raise (ErrPanic ''forbidden memory access'')
      else
        let n = length d;
            fault = raise (page_fault ''memory at address is not writeable''
              (\<lambda>i. GetAccess m i \<noteq> ReadWrite) addr n) in
        case find_segment (\<lambda>s. in_range s addr n) m of
          None \<Rightarrow> fault
        | Some name \<Rightarrow>
            (let s = get_segment m name; lo = seg_lo s addr; hi = seg_hi s addr n in
             case go_slice (seg_data s) lo hi of
               None \<Rightarrow> None
             | Some memoryData \<Rightarrow>
                 if seg_access s \<noteq> ReadWrite then fault
                 else ret (set_segment m name
                   (s\<lparr>seg_data := take lo (seg_data s) @ go_copy memoryData d @ drop hi (seg_data s)\<rparr>))))"

section \<open>Alignment and the standard layout\<close>

definition alignToPage :: "u64 \<Rightarrow> u64" where
  "alignToPage value =
     (if value AND (PageSize - 1) = 0 then value else (value + PageSize) AND NOT (PageSize - 1))"

definition MemoryZoneSize :: u64 where
  "MemoryZoneSize = 65536"

definition alignToZone :: "u64 \<Rightarrow> u64" where
  "alignToZone value =
     (if value AND (MemoryZoneSize - 1) = 0 then value
      else (value + MemoryZoneSize) AND NOT (MemoryZoneSize - 1))"

definition AddressSpaceSize :: u64 where
  "AddressSpaceSize = 4294967296"

definition DynamicAddressAlignment :: nat where
  "DynamicAddressAlignment = 2"

definition InputDataSize :: u64 where
  "InputDataSize = 16777216"

definition AddressReturnToHost :: u64 where
  "AddressReturnToHost = AddressSpaceSize - MemoryZoneSize"

definition StackAddressHigh :: u64 where
  "StackAddressHigh = AddressSpaceSize - 2 * MemoryZoneSize - InputDataSize"

definition ArgsAddressLow :: u64 where
  "ArgsAddressLow = AddressSpaceSize - MemoryZoneSize - InputDataSize"

lemmas layout_constants = PageSize_def MemoryZoneSize_def AddressSpaceSize_def InputDataSize_def
  AddressReturnToHost_def StackAddressHigh_def ArgsAddressLow_def

definition Memory_Sbrk :: "Memory \<Rightarrow> u64 \<Rightarrow> pvm_error + (u64 \<times> Memory)" where
  "Memory_Sbrk m size0 =
     (let currentHeapPointer = seg_end (mem_rw m) in
      if size0 = 0 then Inr (currentHeapPointer, m)
      else
        let newHeapPointer = currentHeapPointer + size0 in
        if newHeapPointer \<ge> seg_address (mem_stack m)
        then Inl (ErrPageFault ''allocation failed heap pointer exceeds maximum allowed'' newHeapPointer)
        else
          let m' = (if newHeapPointer > currentHeapPointer
                    then m\<lparr>mem_rw := (mem_rw m)\<lparr>seg_data := replicate (unat (alignToPage newHeapPointer)) 0\<rparr>\<rparr>
                    else m)
          in Inr (seg_end (mem_rw m'), m'))"

definition copySized :: "bytes \<Rightarrow> u64 \<Rightarrow> bytes" where
  "copySized d n = go_copy (replicate (unat n) 0) d"

definition InitializeMemory :: "bytes \<Rightarrow> bytes \<Rightarrow> bytes \<Rightarrow> u32 \<Rightarrow> u16 \<Rightarrow> pvm_error + Memory" where
  "InitializeMemory roData rwData argsData stackSize initialPages =
     (if 5 * 65536 + sint (alignToZone (len64 rwData + ucast initialPages * PageSize)) +
           sint (alignToZone (ucast stackSize)) + 16777216 > 4294967296
      then Inl ErrMemoryLayoutOverflowsAddressSpace
      else
        let stackSizeAligned = alignToPage (ucast stackSize) in
        Inr \<lparr>
          mem_ro = \<lparr>seg_address = MemoryZoneSize,
                    seg_data = copySized roData (alignToPage (len64 roData)),
                    seg_access = ReadOnly\<rparr>,
          mem_rw = \<lparr>seg_address = 2 * MemoryZoneSize + alignToZone (len64 roData),
                    seg_data = copySized rwData
                      (alignToPage (len64 rwData) + ucast initialPages * PageSize),
                    seg_access = ReadWrite\<rparr>,
          mem_stack = \<lparr>seg_address = StackAddressHigh - stackSizeAligned,
                       seg_data = replicate (unat stackSizeAligned) 0,
                       seg_access = ReadWrite\<rparr>,
          mem_args = \<lparr>seg_address = ArgsAddressLow,
                      seg_data = copySized argsData (alignToPage (len64 argsData)),
                      seg_access = ReadOnly\<rparr>\<rparr>)"

definition InitializeCustomMemory ::
  "u64 \<Rightarrow> u64 \<Rightarrow> u64 \<Rightarrow> u64 \<Rightarrow> u64 \<Rightarrow> u64 \<Rightarrow> u64 \<Rightarrow> u64 \<Rightarrow> Memory" where
  "InitializeCustomMemory roAddr rwAddr stackAddr argsAddr roSize rwSize stackSize argsSize =
     \<lparr>mem_ro = \<lparr>seg_address = roAddr, seg_data = replicate (unat roSize) 0, seg_access = ReadOnly\<rparr>,
      mem_rw = \<lparr>seg_address = rwAddr, seg_data = replicate (unat rwSize) 0, seg_access = ReadWrite\<rparr>,
      mem_stack = \<lparr>seg_address = stackAddr, seg_data = replicate (unat stackSize) 0, seg_access = ReadWrite\<rparr>,
      mem_args = \<lparr>seg_address = argsAddr, seg_data = replicate (unat argsSize) 0, seg_access = ReadOnly\<rparr>\<rparr>"

section \<open>Specification vocabulary\<close>

definition same_layout :: "Memory \<Rightarrow> Memory \<Rightarrow> bool" where
  "same_layout m m' \<longleftrightarrow> (\<forall>name.
     seg_address (get_segment m' name) = seg_address (get_segment m name) \<and>
     length (seg_data (get_segment m' name)) = length (seg_data (get_segment m name)) \<and>
     seg_access (get_segment m' name) = seg_access (get_segment m name))"

definition disjoint_ranges :: "u64 \<Rightarrow> nat \<Rightarrow> u64 \<Rightarrow> nat \<Rightarrow> bool" where
  "disjoint_ranges a n b k \<longleftrightarrow> unat a + n \<le> unat b \<or> unat b + k \<le> unat a"

text \<open>The bound of the comment in \<^verbatim>\<open>InitializeMemory\<close> (eq. A.35), and the limit on the arguments.\<close>

definition layout_fits :: "bytes \<Rightarrow> bytes \<Rightarrow> bytes \<Rightarrow> u32 \<Rightarrow> u16 \<Rightarrow> bool" where
  "layout_fits ro rw args stackSize pages \<longleftrightarrow>
     5 * 65536 + ceil_to 65536 (length ro) + ceil_to 65536 (length rw + unat pages * 4096) +
       ceil_to 65536 (unat stackSize) + 16777216 \<le> 4294967296 \<and>
     length args \<le> 16777216"

definition seg_at :: "memorySegment \<Rightarrow> nat \<Rightarrow> nat \<Rightarrow> MemoryAccess \<Rightarrow> bool" where
  "seg_at s a n acc \<longleftrightarrow> unat (seg_address s) = a \<and> length (seg_data s) = n \<and> seg_access s = acc"

section \<open>Reads and writes\<close>

lemma get_set_segment [simp]:
  "get_segment (set_segment m name s) name' = (if name' = name then s else get_segment m name')"
  by (cases name; cases name') simp_all

lemma find_segment_Some: "find_segment p m = Some name \<Longrightarrow> p (get_segment m name)"
  by (auto simp: find_segment_def split: if_splits)

lemma find_segment_None: "find_segment p m = None \<longleftrightarrow> (\<forall>name. \<not> p (get_segment m name))"
proof -
  have "(\<forall>name. \<not> p (get_segment m name)) \<longleftrightarrow>
      \<not> p (mem_stack m) \<and> \<not> p (mem_rw m) \<and> \<not> p (mem_ro m) \<and> \<not> p (mem_args m)"
    by (metis get_segment.simps segment_name.exhaust)
  then show ?thesis by (simp add: find_segment_def)
qed

lemma find_segment_cong:
  assumes "\<And>name. p (get_segment m name) = q (get_segment m' name)"
  shows "find_segment p m = find_segment q m'"
  using assms[of Stack] assms[of Rw] assms[of Ro] assms[of Args] by (simp add: find_segment_def)

lemma seg_hi_eq: "\<lbrakk>seg_lo s a \<le> seg_hi s a n; n < 2 ^ 64\<rbrakk> \<Longrightarrow> seg_hi s a n = seg_lo s a + n"
  unfolding seg_lo_def seg_hi_def by (rule unat_add_no_wrap)

lemma seg_lo_in_range: "in_range s a n \<Longrightarrow> seg_lo s a = unat a - unat (seg_address s) \<and> unat (seg_address s) \<le> unat a"
  by (simp add: in_range_def seg_lo_def unat_sub word_le_nat_alt)

lemma same_layoutD:
  assumes "same_layout m m'"
  shows "seg_address (get_segment m' name) = seg_address (get_segment m name)"
    and "length (seg_data (get_segment m' name)) = length (seg_data (get_segment m name))"
    and "seg_access (get_segment m' name) = seg_access (get_segment m name)"
  using assms by (simp_all add: same_layout_def)

lemma same_layout_find:
  assumes "same_layout m m'"
  shows "find_segment (\<lambda>s. in_range s a n) m' = find_segment (\<lambda>s. in_range s a n) m"
    and "find_segment (\<lambda>s. on_segment s a) m' = find_segment (\<lambda>s. on_segment s a) m"
  by (rule find_segment_cong, simp add: in_range_def on_segment_def seg_end_def same_layoutD[OF assms])+

lemma same_layout_GetAccess: "same_layout m m' \<Longrightarrow> GetAccess m' = GetAccess m"
  by (rule ext) (simp add: GetAccess_def Let_def same_layout_find same_layoutD split: option.split)

lemma Memory_Write_retE:
  assumes "Memory_Write m a d = ret m'" and "length d < 2 ^ 64"
  obtains name where
    "find_segment (\<lambda>s. in_range s a (length d)) m = Some name"
    and "seg_access (get_segment m name) = ReadWrite"
    and "\<not> a < 65536"
    and "seg_lo (get_segment m name) a + length d \<le> length (seg_data (get_segment m name))"
    and "m' = set_segment m name ((get_segment m name)\<lparr>seg_data :=
           take (seg_lo (get_segment m name) a) (seg_data (get_segment m name)) @ d @
           drop (seg_lo (get_segment m name) a + length d) (seg_data (get_segment m name))\<rparr>)"
proof -
  from assms(1) obtain name ys where
    f: "find_segment (\<lambda>s. in_range s a (length d)) m = Some name" and a: "\<not> a < 65536"
    and g: "go_slice (seg_data (get_segment m name)) (seg_lo (get_segment m name) a)
              (seg_hi (get_segment m name) a (length d)) = Some ys"
    and acc: "seg_access (get_segment m name) = ReadWrite"
    and m': "m' = set_segment m name ((get_segment m name)\<lparr>seg_data :=
           take (seg_lo (get_segment m name) a) (seg_data (get_segment m name)) @ go_copy ys d @
           drop (seg_hi (get_segment m name) a (length d)) (seg_data (get_segment m name))\<rparr>)"
    by (auto simp: Memory_Write_def Let_def split: if_splits option.splits)
  from g have lohi: "seg_lo (get_segment m name) a \<le> seg_hi (get_segment m name) a (length d)"
    and le: "seg_hi (get_segment m name) a (length d) \<le> length (seg_data (get_segment m name))"
    by (simp_all add: go_facts)
  note hi = seg_hi_eq[OF lohi assms(2)]
  have "length ys = length d" using length_go_slice[OF g] hi by simp
  then have "go_copy ys d = d" by (simp add: go_copy_same_length)
  with m' hi le show thesis by (intro that[OF f acc a]) simp_all
qed

lemma Memory_Write_same_layout:
  assumes "Memory_Write m a d = ret m'" and "length d < 2 ^ 64"
  shows "same_layout m m'"
proof -
  obtain name where
    "seg_lo (get_segment m name) a + length d \<le> length (seg_data (get_segment m name))"
    "m' = set_segment m name ((get_segment m name)\<lparr>seg_data :=
       take (seg_lo (get_segment m name) a) (seg_data (get_segment m name)) @ d @
       drop (seg_lo (get_segment m name) a + length d) (seg_data (get_segment m name))\<rparr>)"
    using Memory_Write_retE[OF assms] by metis
  then show ?thesis by (simp add: same_layout_def)
qed

lemma Memory_Read_Some:
  assumes "find_segment (\<lambda>s. in_range s a n) m = Some name" and "\<not> a < 65536"
    and "seg_access (get_segment m name) \<noteq> Inaccessible"
    and "seg_lo (get_segment m name) a + n \<le> length (seg_data (get_segment m name))"
    and "n < 2 ^ 64"
  shows "Memory_Read m a n =
    (if seg_hi (get_segment m name) a n < seg_lo (get_segment m name) a then None
     else ret (take n (drop (seg_lo (get_segment m name) a) (seg_data (get_segment m name)))))"
proof (cases "seg_hi (get_segment m name) a n < seg_lo (get_segment m name) a")
  case True
  then show ?thesis using assms by (simp add: Memory_Read_def go_slice_def)
next
  case False
  then have "seg_hi (get_segment m name) a n = seg_lo (get_segment m name) a + n"
    using seg_hi_eq assms(5) by simp
  then show ?thesis using assms False
    by (simp add: Memory_Read_def go_slice_def go_copy_same_length Let_def)
qed

lemma Memory_Read_Write:
  assumes w: "Memory_Write m a d = ret m'" and len: "length d < 2 ^ 64"
  shows "Memory_Read m' a (length d) = ret d"
proof -
  obtain name where f: "find_segment (\<lambda>s. in_range s a (length d)) m = Some name"
    and acc: "seg_access (get_segment m name) = ReadWrite" and a: "\<not> a < 65536"
    and le: "seg_lo (get_segment m name) a + length d \<le> length (seg_data (get_segment m name))"
    and m': "m' = set_segment m name ((get_segment m name)\<lparr>seg_data :=
           take (seg_lo (get_segment m name) a) (seg_data (get_segment m name)) @ d @
           drop (seg_lo (get_segment m name) a + length d) (seg_data (get_segment m name))\<rparr>)"
    by (rule Memory_Write_retE[OF w len])
  note lay = Memory_Write_same_layout[OF w len]
  have f': "find_segment (\<lambda>s. in_range s a (length d)) m' = Some name"
    using f same_layout_find(1)[OF lay] by simp
  have lo: "seg_lo (get_segment m' name) a = seg_lo (get_segment m name) a"
    by (simp add: seg_lo_def same_layoutD[OF lay])
  have "\<not> seg_hi (get_segment m' name) a (length d) < seg_lo (get_segment m' name) a"
    using w f a by (auto simp: Memory_Write_def Let_def go_slice_def seg_lo_def seg_hi_def
        same_layoutD[OF lay] split: if_splits)
  then show ?thesis
    using Memory_Read_Some[OF f' a _ _ len] acc le
    by (simp add: same_layoutD[OF lay] lo) (simp add: m')
qed

lemma Memory_Read_Write_disjoint:
  assumes w: "Memory_Write m a d = ret m'" and len: "length d < 2 ^ 64" and k: "k < 2 ^ 64"
    and dis: "disjoint_ranges a (length d) b k"
  shows "Memory_Read m' b k = Memory_Read m b k"
proof -
  obtain name where f: "find_segment (\<lambda>s. in_range s a (length d)) m = Some name"
    and le: "seg_lo (get_segment m name) a + length d \<le> length (seg_data (get_segment m name))"
    and m': "m' = set_segment m name ((get_segment m name)\<lparr>seg_data :=
           take (seg_lo (get_segment m name) a) (seg_data (get_segment m name)) @ d @
           drop (seg_lo (get_segment m name) a + length d) (seg_data (get_segment m name))\<rparr>)"
    by (rule Memory_Write_retE[OF w len])
  note lay = Memory_Write_same_layout[OF w len]
  note ra = seg_lo_in_range[OF find_segment_Some[OF f]]
  have slice: "go_slice (seg_data (get_segment m' name')) (seg_lo (get_segment m' name') b) (seg_hi (get_segment m' name') b k)
      = go_slice (seg_data (get_segment m name')) (seg_lo (get_segment m name') b) (seg_hi (get_segment m name') b k)"
    if f': "find_segment (\<lambda>s. in_range s b k) m = Some name'" for name'
  proof (cases "name' = name \<and> seg_lo (get_segment m name) b \<le> seg_hi (get_segment m name) b k")
    case False
    then show ?thesis
      by (auto simp: go_slice_def seg_lo_def seg_hi_def same_layoutD[OF lay] m')
  next
    case True
    note rb = seg_lo_in_range[OF find_segment_Some[OF f']]
    have hi: "seg_hi (get_segment m name) b k = seg_lo (get_segment m name) b + k"
      using True seg_hi_eq k by blast
    have "seg_lo (get_segment m name) b + k \<le> seg_lo (get_segment m name) a \<or>
        seg_lo (get_segment m name) a + length d \<le> seg_lo (get_segment m name) b"
      using ra rb True dis by (auto simp: disjoint_ranges_def)
    from take_drop_update[OF le this] show ?thesis
      using True hi le by (simp add: go_slice_def m' seg_lo_def seg_hi_def)
  qed
  show ?thesis
    unfolding Memory_Read_def Let_def same_layout_find(1)[OF lay] same_layout_GetAccess[OF lay]
    by (auto simp: slice same_layoutD[OF lay] split: option.split)
qed


lemma Memory_Write_protects:
  assumes w: "Memory_Write m a d = ret m'" and len: "length d < 2 ^ 64"
    and acc: "seg_access (get_segment m name) \<noteq> ReadWrite"
  shows "get_segment m' name = get_segment m name"
  using Memory_Write_retE[OF w len] acc by (metis get_set_segment)

declare page_scan.simps [simp del]

lemma page_scan_Some:
  assumes "page_scan bad i k = Some p"
  shows "\<exists>j. i \<le> j \<and> j \<le> k \<and> p = of_nat j \<and> bad (of_nat j) \<and> (\<forall>j'. i \<le> j' \<and> j' < j \<longrightarrow> \<not> bad (of_nat j'))"
  using assms
proof (induction bad i k rule: page_scan.induct)
  case (1 bad i k)
  show ?case
  proof (cases "bad (of_nat i)")
    case True
    with 1(2) show ?thesis
      by (intro exI[of _ i]) (auto simp: page_scan.simps[of bad i k] split: if_splits)
  next
    case False
    from 1(2) False have "i \<le> k" "page_scan bad (Suc i) k = Some p"
      by (auto simp: page_scan.simps[of bad i k] split: if_splits)
    then obtain j where "Suc i \<le> j" "j \<le> k" "p = of_nat j" "bad (of_nat j)"
        "\<forall>j'. Suc i \<le> j' \<and> j' < j \<longrightarrow> \<not> bad (of_nat j')"
      using 1(1) False by blast
    then show ?thesis using False
      by (intro exI[of _ j]) (metis Suc_leD Suc_leI le_neq_implies_less)
  qed
qed

lemma page_scan_None: "page_scan bad i k = None \<Longrightarrow> i \<le> j \<Longrightarrow> j \<le> k \<Longrightarrow> \<not> bad (of_nat j)"
proof (induction bad i k rule: page_scan.induct)
  case (1 bad i k)
  then show ?case
    by (cases "j = i") (auto simp: page_scan.simps[of bad i k] split: if_splits)
qed

subsection \<open>Alignment\<close>

lemma align_word:
  assumes "unat v + 2 ^ n < 2 ^ 64" and "n < 64"
  shows "unat (if v AND mask n = 0 then v else (v + 2 ^ n) AND NOT (mask n) :: u64) = ceil_to (2 ^ n) (unat v)"
proof -
  have m: "unat (v AND mask n) = unat v mod 2 ^ n"
    using unat_take_bit[of n v] by (simp only: take_bit_eq_mask)
  have "unat (v + 2 ^ n) = unat v + 2 ^ n"
    using assms by (simp add: unat_word_ariths unat_two_power)
  moreover have "v AND mask n = 0 \<longleftrightarrow> unat v mod 2 ^ n = 0"
    unfolding m[symmetric] by (simp only: unat_eq_0)
  ultimately show ?thesis
    by (auto simp: ceil_to_split unat_clear_low div_add_self2)
qed

lemma mask_literals: "mask 12 = (4095 :: u64)" "mask 16 = (65535 :: u64)" "2 ^ 12 = (4096 :: u64)" "2 ^ 16 = (65536 :: u64)"
  "(4096 :: u64) - 1 = 4095" "(65536 :: u64) - 1 = 65535" "2 ^ 12 = (4096 :: nat)" "2 ^ 16 = (65536 :: nat)"
  "(12 :: nat) < 64" "(16 :: nat) < 64"
  by (simp_all add: mask_eq_exp_minus_1)

lemma unat_alignToPage: "unat v + 4096 < 2 ^ 64 \<Longrightarrow> unat (alignToPage v) = ceil_to 4096 (unat v)"
  using align_word[of v 12] by (simp only: alignToPage_def PageSize_def mask_literals simp_thms)

lemma unat_alignToZone: "unat v + 65536 < 2 ^ 64 \<Longrightarrow> unat (alignToZone v) = ceil_to 65536 (unat v)"
  using align_word[of v 16] by (simp only: alignToZone_def MemoryZoneSize_def mask_literals simp_thms)


lemma ceil_page_le_zone: "ceil_to 4096 x \<le> ceil_to 65536 x"
proof (rule ceil_to_least)
  show "x \<le> ceil_to 65536 x" by (simp add: ceil_to_bounds)
  show "4096 dvd ceil_to 65536 x"
    by (rule dvd_trans[OF _ ceil_to_bounds(3)]) simp_all
qed simp

subsection \<open>The standard layout\<close>

lemma unat_pages: "unat (ucast (pages :: u16) * PageSize) = unat pages * 4096"
proof -
  have "unat pages < 2 ^ 16" by (rule order_less_le_trans[OF unsigned_less]) simp
  then show ?thesis
    by (simp add: PageSize_def unat_word_ariths unsigned_ucast_eq take_bit_nat_eq_self)
qed

lemma copySized_length [simp]: "length (copySized d n) = unat n"
  by (simp add: copySized_def)


lemma layout_sizes:
  assumes "layout_fits ro rw args stackSize pages"
  shows "unat (alignToPage (len64 ro)) = ceil_to 4096 (length ro)"
    and "unat (alignToZone (len64 ro)) = ceil_to 65536 (length ro)"
    and "unat (alignToPage (len64 rw) + ucast pages * PageSize) = ceil_to 4096 (length rw) + unat pages * 4096"
    and "unat (alignToZone (len64 rw + ucast pages * PageSize)) = ceil_to 65536 (length rw + unat pages * 4096)"
    and "unat (alignToPage (ucast stackSize)) = ceil_to 4096 (unat stackSize)"
    and "unat (alignToZone (ucast stackSize)) = ceil_to 65536 (unat stackSize)"
    and "unat (alignToPage (len64 args)) = ceil_to 4096 (length args)"
proof -
  have ro: "length ro \<le> 4294967296" and rw: "length rw + unat pages * 4096 \<le> 4294967296"
    and st: "unat stackSize \<le> 4294967296" and args: "length args \<le> 4294967296"
    using assms ceil_to_bounds(1)[of 65536 "length ro"] ceil_to_bounds(1)[of 65536 "unat stackSize"]
      ceil_to_bounds(1)[of 65536 "length rw + unat pages * 4096"]
    by (simp_all add: layout_fits_def)
  have uro: "unat (len64 ro) = length ro" and urw: "unat (len64 rw) = length rw"
    and uargs: "unat (len64 args) = length args"
    using ro rw args by (intro unat_of_nat_small; simp)+
  have ust: "unat (ucast stackSize :: u64) = unat stackSize"
    using st by (simp add: unsigned_ucast_eq take_bit_nat_eq_self)
  have sum: "unat (len64 rw + ucast pages * PageSize) = length rw + unat pages * 4096"
    using rw by (subst unat_add_small) (simp_all add: urw unat_pages)
  show "unat (alignToPage (len64 ro)) = ceil_to 4096 (length ro)"
    and "unat (alignToZone (len64 ro)) = ceil_to 65536 (length ro)"
    using ro unat_alignToPage[of "len64 ro"] unat_alignToZone[of "len64 ro"] by (simp_all add: uro)
  show "unat (alignToPage (ucast stackSize)) = ceil_to 4096 (unat stackSize)"
    and "unat (alignToZone (ucast stackSize)) = ceil_to 65536 (unat stackSize)"
    using st unat_alignToPage[of "ucast stackSize"] unat_alignToZone[of "ucast stackSize"] by (simp_all add: ust)
  show "unat (alignToPage (len64 args)) = ceil_to 4096 (length args)"
    using args unat_alignToPage[of "len64 args"] by (simp add: uargs)
  show "unat (alignToZone (len64 rw + ucast pages * PageSize)) = ceil_to 65536 (length rw + unat pages * 4096)"
    using rw unat_alignToZone[of "len64 rw + ucast pages * PageSize"] by (simp add: sum)
  have "unat (alignToPage (len64 rw)) = ceil_to 4096 (length rw)"
    using rw unat_alignToPage[of "len64 rw"] by (simp add: urw)
  then show "unat (alignToPage (len64 rw) + ucast pages * PageSize) = ceil_to 4096 (length rw) + unat pages * 4096"
    using rw ceil_to_bounds(2)[of 4096 "length rw"]
    by (subst unat_add_small) (simp_all add: unat_pages)
qed

lemma InitializeMemory_layout:
  assumes fits: "layout_fits ro rw args stackSize pages"
  obtains m where "InitializeMemory ro rw args stackSize pages = Inr m"
    and "seg_at (mem_ro m) 65536 (ceil_to 4096 (length ro)) ReadOnly"
    and "seg_at (mem_rw m) (131072 + ceil_to 65536 (length ro))
           (ceil_to 4096 (length rw) + unat pages * 4096) ReadWrite"
    and "seg_at (mem_stack m) (4278059008 - ceil_to 4096 (unat stackSize))
           (ceil_to 4096 (unat stackSize)) ReadWrite"
    and "seg_at (mem_args m) 4278124544 (ceil_to 4096 (length args)) ReadOnly"
    and "take (length ro) (seg_data (mem_ro m)) = ro"
    and "take (length rw) (seg_data (mem_rw m)) = rw"
    and "take (length args) (seg_data (mem_args m)) = args"
proof -
  note sz = layout_sizes[OF fits]
  note b = fits[unfolded layout_fits_def]
  have "ceil_to 65536 (length rw + unat pages * 4096) < 2 ^ 63" "ceil_to 65536 (unat stackSize) < 2 ^ 63"
    using b by simp_all
  then have si: "sint (alignToZone (len64 rw + ucast pages * PageSize)) = int (ceil_to 65536 (length rw + unat pages * 4096))"
      "sint (alignToZone (ucast stackSize)) = int (ceil_to 65536 (unat stackSize))"
    by (simp_all only: sint_small sz)
  have ok: "\<not> 5 * 65536 + sint (alignToZone (len64 rw + ucast pages * PageSize)) +
           sint (alignToZone (ucast stackSize)) + 16777216 > 4294967296"
    unfolding si using b by linarith
  have rwa: "unat (2 * MemoryZoneSize + alignToZone (len64 ro)) = 131072 + ceil_to 65536 (length ro)"
    using b by (subst unat_add_small) (simp_all add: sz MemoryZoneSize_def)
  have "ceil_to 4096 (unat stackSize) \<le> 4278059008"
    using b ceil_page_le_zone[of "unat stackSize"] by linarith
  then have sta: "unat (StackAddressHigh - alignToPage (ucast stackSize)) = 4278059008 - ceil_to 4096 (unat stackSize)"
    by (subst unat_sub) (simp_all add: layout_constants word_le_nat_alt sz)
  have cp: "take (length d) (copySized d n) = d" if "length d \<le> unat n" for d n
    using that by (simp add: copySized_def go_copy_def)
  show thesis
  proof (rule that)
    show "InitializeMemory ro rw args stackSize pages = Inr \<lparr>
          mem_ro = \<lparr>seg_address = MemoryZoneSize,
                    seg_data = copySized ro (alignToPage (len64 ro)),
                    seg_access = ReadOnly\<rparr>,
          mem_rw = \<lparr>seg_address = 2 * MemoryZoneSize + alignToZone (len64 ro),
                    seg_data = copySized rw
                      (alignToPage (len64 rw) + ucast pages * PageSize),
                    seg_access = ReadWrite\<rparr>,
          mem_stack = \<lparr>seg_address = StackAddressHigh - alignToPage (ucast stackSize),
                       seg_data = replicate (unat (alignToPage (ucast stackSize))) 0,
                       seg_access = ReadWrite\<rparr>,
          mem_args = \<lparr>seg_address = ArgsAddressLow,
                      seg_data = copySized args (alignToPage (len64 args)),
                      seg_access = ReadOnly\<rparr>\<rparr>" (is "_ = Inr ?m")
      unfolding InitializeMemory_def Let_def if_not_P[OF ok] ..
  qed (simp_all add: seg_at_def rwa sta sz cp ceil_to_bounds(1) trans_le_add1, simp_all add: layout_constants)
qed


lemma ceil_rw_le_zone:
  "ceil_to 4096 x + z * 4096 \<le> ceil_to 65536 (x + z * 4096)"
  using ceil_page_le_zone[of "x + z * 4096"] by (simp add: ceil_to_add_multiple)


lemma unat_seg_end: "seg_at s A n acc \<Longrightarrow> A + n < 2 ^ 64 \<Longrightarrow> unat (seg_end s) = A + n"
  unfolding seg_end_def by (subst unat_add_small) (simp_all add: seg_at_def unat_of_nat_small)

lemma in_range_seg_at:
  assumes s: "seg_at s A n acc" and A: "A + n < 2 ^ 64" and a: "unat a + k < 2 ^ 64"
  shows "in_range s a k \<longleftrightarrow> A \<le> unat a \<and> unat a + k \<le> A + n"
proof -
  have "unat (of_nat k :: u64) = k"
    using a by (simp add: unat_of_nat_small)
  then have "unat (a + of_nat k) = unat a + k"
    using a by (subst unat_add_small) simp_all
  then show ?thesis
    using s unat_seg_end[OF s A] by (simp add: in_range_def word_le_nat_alt seg_at_def)
qed

lemma Memory_Read_seg_at:
  assumes f: "find_segment (\<lambda>s. in_range s a k) m = Some name"
    and s: "seg_at (get_segment m name) (unat a) n acc" and le: "k \<le> n" "unat a + n < 2 ^ 64"
    and acc: "acc \<noteq> Inaccessible" and a: "65536 \<le> unat a"
  shows "Memory_Read m a k = ret (take k (seg_data (get_segment m name)))"
proof -
  have eq: "seg_address (get_segment m name) = a"
    using s by (simp add: seg_at_def word_unat_eq_iff)
  have "\<not> a < 65536" using a by (simp add: word_less_nat_alt)
  then show ?thesis
    using Memory_Read_Some[OF f] s le acc by (simp add: seg_lo_def seg_hi_def eq seg_at_def)
qed

section \<open>The memory as a store of bytes\<close>

text \<open>
  The contract the interpreter relies on. Sizes are below \<open>2 ^ 64\<close>, which every Go slice
  satisfies.
\<close>

locale byte_store =
  fixes rd :: "'m \<Rightarrow> u64 \<Rightarrow> nat \<Rightarrow> bytes pvm_result"
    and wr :: "'m \<Rightarrow> u64 \<Rightarrow> bytes \<Rightarrow> 'm pvm_result"
  assumes rd_wr_same: "\<lbrakk>wr m a d = ret m'; length d < 2 ^ 64\<rbrakk> \<Longrightarrow> rd m' a (length d) = ret d"
    and rd_wr_disjoint:
      "\<lbrakk>wr m a d = ret m'; length d < 2 ^ 64; k < 2 ^ 64; disjoint_ranges a (length d) b k\<rbrakk>
         \<Longrightarrow> rd m' b k = rd m b k"
begin

text \<open>A sequence of writes, stopped by the first failing one.\<close>

primrec wr_all :: "'m \<Rightarrow> (u64 \<times> bytes) list \<Rightarrow> 'm pvm_result" where
  "wr_all m [] = ret m"
| "wr_all m (w # ws) = res_bind (wr m (fst w) (snd w)) (\<lambda>m'. wr_all m' ws)"

lemma wr_all_disjoint:
  assumes "wr_all m ws = ret m'" and "k < 2 ^ 64"
    and "\<forall>(a, d) \<in> set ws. length d < 2 ^ 64 \<and> disjoint_ranges a (length d) b k"
  shows "rd m' b k = rd m b k"
  using assms
proof (induction ws arbitrary: m)
  case (Cons w ws)
  obtain m1 where "wr m (fst w) (snd w) = ret m1" "wr_all m1 ws = ret m'"
    using Cons.prems(1) by (auto simp: res_bind_ret_iff)
  then show ?case
    using Cons.IH[of m1] Cons.prems rd_wr_disjoint[of m "fst w" "snd w" m1 k b] by (auto split: prod.splits)
qed simp

lemma last_write_wins:
  assumes "wr_all m (ws @ (a, d) # vs) = ret m'" and "length d < 2 ^ 64"
    and "\<forall>(b, e) \<in> set vs. length e < 2 ^ 64 \<and> disjoint_ranges b (length e) a (length d)"
  shows "rd m' a (length d) = ret d"
  using assms(1)
proof (induction ws arbitrary: m)
  case Nil
  then obtain m1 where "wr m a d = ret m1" "wr_all m1 vs = ret m'"
    by (auto simp: res_bind_ret_iff)
  then show ?case
    using rd_wr_same[of m a d m1] wr_all_disjoint[of m1 vs m' "length d" a] assms(2,3) by simp
qed (auto simp: res_bind_ret_iff)

end

interpretation ram: byte_store Memory_Read Memory_Write
  by unfold_locales (fact Memory_Read_Write, fact Memory_Read_Write_disjoint)

section \<open>Properties\<close>

text \<open>
  C34: A successful write is read back exactly by a read of the same range; a read of a
  disjoint range is not affected; a segment that is not writeable keeps its contents; and no
  segment moves, grows or changes its access mode.
\<close>
theorem memory_read_after_write:
  assumes "Memory_Write m a d = ret m'" and "length d < 2 ^ 64"
  shows "Memory_Read m' a (length d) = ret d \<and>
    (\<forall>b k. k < 2 ^ 64 \<and> disjoint_ranges a (length d) b k \<longrightarrow> Memory_Read m' b k = Memory_Read m b k) \<and>
    (\<forall>name. seg_access (get_segment m name) \<noteq> ReadWrite \<longrightarrow> get_segment m' name = get_segment m name) \<and>
    same_layout m m'"
  using ram.rd_wr_same[OF assms] ram.rd_wr_disjoint[OF assms] Memory_Write_protects[OF assms]
    Memory_Write_same_layout[OF assms] by blast

theorem memory_read_after_write_witness:
  "\<exists>m'. Memory_Write (InitializeCustomMemory 65536 131072 196608 262144 4 4 4 4) 131073 [7, 9] = ret m' \<and>
     Memory_Read m' 131073 2 = ret [7, 9]"
proof -
  let ?m = "InitializeCustomMemory 65536 131072 196608 262144 4 4 4 4"
  have w: "Memory_Write ?m 131073 [7, 9] = ret (?m\<lparr>mem_rw := (mem_rw ?m)\<lparr>seg_data := [0, 7, 9, 0]\<rparr>\<rparr>)"
    by code_simp
  have "Memory_Read (?m\<lparr>mem_rw := (mem_rw ?m)\<lparr>seg_data := [0, 7, 9, 0]\<rparr>\<rparr>) 131073 (length [7, 9 :: u8]) = ret [7, 9]"
    using memory_read_after_write[OF w] by simp
  then show ?thesis
    using w by (auto simp: numeral_2_eq_2)
qed

text \<open>
  When the layout fits the address space (eq. A.35) the standard initialisation succeeds.
  Read-only data, heap, stack and arguments lie at the documented addresses, in this order and
  without overlap, below \<open>2 ^ 32\<close>, and the three data areas read back as the given data.
\<close>
theorem InitializeMemory_standard_layout:
  assumes "layout_fits ro rw args stackSize pages"
  shows "\<exists>m. InitializeMemory ro rw args stackSize pages = Inr m \<and>
    seg_at (mem_ro m) 65536 (ceil_to 4096 (length ro)) ReadOnly \<and>
    seg_at (mem_rw m) (131072 + ceil_to 65536 (length ro)) (ceil_to 4096 (length rw) + unat pages * 4096) ReadWrite \<and>
    seg_at (mem_stack m) (4278059008 - ceil_to 4096 (unat stackSize)) (ceil_to 4096 (unat stackSize)) ReadWrite \<and>
    seg_at (mem_args m) 4278124544 (ceil_to 4096 (length args)) ReadOnly \<and>
    unat (seg_end (mem_ro m)) < unat (seg_address (mem_rw m)) \<and>
    unat (seg_end (mem_rw m)) < unat (seg_address (mem_stack m)) \<and>
    unat (seg_end (mem_stack m)) < unat (seg_address (mem_args m)) \<and>
    unat (seg_end (mem_args m)) < 2 ^ 32 \<and>
    Memory_Read m MemoryZoneSize (length ro) = ret ro \<and>
    Memory_Read m (seg_address (mem_rw m)) (length rw) = ret rw \<and>
    Memory_Read m ArgsAddressLow (length args) = ret args"
proof -
  obtain m where m: "InitializeMemory ro rw args stackSize pages = Inr m"
    and ro: "seg_at (mem_ro m) 65536 (ceil_to 4096 (length ro)) ReadOnly"
    and rw: "seg_at (mem_rw m) (131072 + ceil_to 65536 (length ro))
           (ceil_to 4096 (length rw) + unat pages * 4096) ReadWrite"
    and st: "seg_at (mem_stack m) (4278059008 - ceil_to 4096 (unat stackSize))
           (ceil_to 4096 (unat stackSize)) ReadWrite"
    and args: "seg_at (mem_args m) 4278124544 (ceil_to 4096 (length args)) ReadOnly"
    and data: "take (length ro) (seg_data (mem_ro m)) = ro"
      "take (length rw) (seg_data (mem_rw m)) = rw"
      "take (length args) (seg_data (mem_args m)) = args"
    using InitializeMemory_layout[OF assms] .
  have le: "length ro \<le> ceil_to 4096 (length ro)" "length rw \<le> ceil_to 4096 (length rw)"
    "length args \<le> ceil_to 4096 (length args)"
    by (simp_all add: ceil_to_bounds)
  have pz: "ceil_to 4096 (length ro) \<le> ceil_to 65536 (length ro)"
    "ceil_to 4096 (unat stackSize) \<le> ceil_to 65536 (unat stackSize)"
    "ceil_to 4096 (length rw) + unat pages * 4096 \<le> ceil_to 65536 (length rw + unat pages * 4096)"
    "ceil_to 4096 (length args) \<le> 16777216"
    using assms by (simp_all add: ceil_page_le_zone ceil_rw_le_zone ceil_to_least layout_fits_def)
  note b = conjunct1[OF assms[unfolded layout_fits_def]]
  note ends = unat_seg_end[OF ro] unat_seg_end[OF rw] unat_seg_end[OF st] unat_seg_end[OF args]
  have ord: "unat (seg_end (mem_ro m)) < unat (seg_address (mem_rw m))"
    "unat (seg_end (mem_rw m)) < unat (seg_address (mem_stack m))"
    "unat (seg_end (mem_stack m)) < unat (seg_address (mem_args m))"
    "unat (seg_end (mem_args m)) < 2 ^ 32"
    using pz b ends ro rw st args by (simp_all add: seg_at_def)
  note inr = in_range_seg_at[OF ro] in_range_seg_at[OF rw] in_range_seg_at[OF st] in_range_seg_at[OF args]
  have a: "unat (seg_address (mem_rw m)) = 131072 + ceil_to 65536 (length ro)"
    "unat MemoryZoneSize = 65536" "unat ArgsAddressLow = 4278124544"
    using rw by (simp_all add: seg_at_def layout_constants)
  have f: "find_segment (\<lambda>s. in_range s MemoryZoneSize (length ro)) m = Some Ro"
    "find_segment (\<lambda>s. in_range s (seg_address (mem_rw m)) (length rw)) m = Some Rw"
    "find_segment (\<lambda>s. in_range s ArgsAddressLow (length args)) m = Some Args"
    using pz b le by (simp_all add: find_segment_def inr a)
  have rd: "Memory_Read m MemoryZoneSize (length ro) = ret ro"
    "Memory_Read m (seg_address (mem_rw m)) (length rw) = ret rw"
    "Memory_Read m ArgsAddressLow (length args) = ret args"
    using Memory_Read_seg_at[OF f(1), of _ ReadOnly] Memory_Read_seg_at[OF f(2), of _ ReadWrite]
      Memory_Read_seg_at[OF f(3), of _ ReadOnly] pz b le ro rw args data by (simp_all add: a)
  show ?thesis
    using m ro rw st args ord rd by blast
qed

theorem InitializeMemory_standard_layout_witness:
  "layout_fits [1, 2, 3] [4, 5] [6] 4096 1 \<and>
   (\<exists>m. InitializeMemory [1, 2, 3] [4, 5] [6] 4096 1 = Inr m \<and>
      Memory_Read m ArgsAddressLow (length [6 :: u8]) = ret [6])"
proof -
  have f: "layout_fits [1, 2, 3] [4, 5] [6] 4096 1"
    by (simp add: layout_fits_def ceil_to_def)
  then show ?thesis
    using InitializeMemory_standard_layout[OF f] by blast
qed

text \<open>
  A page fault reported by a read names the lowest page the read touches that is
  inaccessible: the faulting address is the start of that page and every lower touched page
  is accessible.
\<close>
theorem Memory_Read_fault_lowest_page:
  assumes "Memory_Read m a n = raise (ErrPageFault reason p)"
  shows "\<exists>j. unat (a div PageSize) \<le> j \<and> j \<le> unat ((a + of_nat n) div PageSize) \<and>
    p = of_nat j * PageSize \<and> GetAccess m (of_nat j) = Inaccessible \<and>
    (\<forall>i. unat (a div PageSize) \<le> i \<and> i < j \<longrightarrow> GetAccess m (of_nat i) \<noteq> Inaccessible)"
proof -
  have "page_fault ''inaccessible memory'' (\<lambda>i. GetAccess m i = Inaccessible) a n = ErrPageFault reason p"
    using assms by (auto simp: Memory_Read_def Let_def split: if_splits option.splits)
  then obtain i where
    "page_scan (\<lambda>i. GetAccess m i = Inaccessible) (unat (a div PageSize)) (unat ((a + of_nat n) div PageSize)) = Some i"
    "p = i * PageSize"
    by (auto simp: page_fault_def split: option.splits)
  then show ?thesis using page_scan_Some by blast
qed

theorem Memory_Read_fault_lowest_page_witness:
  "Memory_Read (InitializeCustomMemory 65536 131072 196608 262144 4096 4 4 4) 69630 4 =
     raise (ErrPageFault ''inaccessible memory'' 69632) \<and>
   (\<exists>j. 69632 = of_nat j * PageSize \<and>
      GetAccess (InitializeCustomMemory 65536 131072 196608 262144 4096 4 4 4) (of_nat j) = Inaccessible)"
proof -
  have r: "Memory_Read (InitializeCustomMemory 65536 131072 196608 262144 4096 4 4 4) 69630 4 =
      raise (ErrPageFault ''inaccessible memory'' 69632)"
    by code_simp
  show ?thesis
    using Memory_Read_fault_lowest_page[OF r] r by blast
qed

text \<open>
  \<^verbatim>\<open>Sbrk\<close> with a positive size that is accepted without wrap-around replaces the heap
  by a zeroed buffer whose length is the page-aligned \<^emph>\<open>absolute\<close> new heap pointer: the old
  contents are lost, and the heap end it returns lies beyond the requested pointer by at least
  the base address of the heap.
\<close>
theorem Sbrk_discards_heap:
  assumes "Memory_Sbrk m n = Inr (p, m')" and "n \<noteq> 0"
    and "unat (seg_end (mem_rw m)) + unat n < 2 ^ 32" and "unat (seg_address (mem_rw m)) < 2 ^ 32"
  shows "seg_data (mem_rw m') = replicate (ceil_to 4096 (unat (seg_end (mem_rw m)) + unat n)) 0 \<and>
    unat p \<ge> unat (seg_address (mem_rw m)) + unat (seg_end (mem_rw m)) + unat n"
proof -
  let ?h = "seg_end (mem_rw m) + n"
  have h: "unat ?h = unat (seg_end (mem_rw m)) + unat n"
    using assms(3) by (intro unat_add_small) simp
  have al: "unat (alignToPage ?h) = ceil_to 4096 (unat ?h)"
    using assms(3) h by (intro unat_alignToPage) simp
  have "unat n > 0" using assms(2) by (simp add: unat_gt_0)
  then have gt: "?h > seg_end (mem_rw m)" by (simp add: word_less_nat_alt h)
  from assms(1,2) gt have m': "m' = m\<lparr>mem_rw := (mem_rw m)\<lparr>seg_data := replicate (unat (alignToPage ?h)) 0\<rparr>\<rparr>"
    and p: "p = seg_end (mem_rw m')"
    by (auto simp: Memory_Sbrk_def Let_def split: if_splits)
  have b: "unat ?h \<le> ceil_to 4096 (unat ?h)" "ceil_to 4096 (unat ?h) < unat ?h + 4096"
    by (simp_all add: ceil_to_bounds)
  have "unat p = unat (seg_address (mem_rw m)) + ceil_to 4096 (unat ?h)"
    unfolding p by (rule unat_seg_end[of _ _ _ "seg_access (mem_rw m)"])
      (use b h assms(3,4) in \<open>simp_all add: m' seg_at_def al\<close>)
  then show ?thesis using b h by (simp add: m' al)
qed

theorem Sbrk_discards_heap_witness:
  "\<exists>p m'. Memory_Sbrk (InitializeCustomMemory 65536 131072 4294770688 4294836224 0 1 0 0) 8 = Inr (p, m') \<and>
     seg_data (mem_rw m') = replicate (ceil_to 4096 (131073 + 8)) 0 \<and> unat p \<ge> 131072 + 131073 + 8"
proof -
  let ?m = "InitializeCustomMemory 65536 131072 4294770688 4294836224 0 1 0 0"
  have e: "unat (seg_end (mem_rw ?m)) = 131073" "unat (seg_address (mem_rw ?m)) = 131072"
    by (simp_all add: InitializeCustomMemory_def seg_end_def)
  obtain p m' where r: "Memory_Sbrk ?m 8 = Inr (p, m')"
    by (simp add: Memory_Sbrk_def InitializeCustomMemory_def Let_def seg_end_def)
  show ?thesis
    using Sbrk_discards_heap[OF r] r by (simp add: e)
qed

text \<open>
  The size check of \<^verbatim>\<open>InitializeMemory\<close> leaves out the read-only data that the formula
  in its comment includes: a read-only section of \<open>2 ^ 32\<close> octets, for which eq. A.35 does not
  hold, is accepted and the heap is placed above the stack, outside the address space.
\<close>
theorem InitializeMemory_ignores_ro_size:
  assumes "length ro = 2 ^ 32"
  shows "\<not> layout_fits ro [] [] 0 0 \<and>
    (\<exists>m. InitializeMemory ro [] [] 0 0 = Inr m \<and> unat (seg_address (mem_rw m)) = 2 ^ 32 + 131072)"
proof -
  have "layout_fits ro [] [] 0 0 \<Longrightarrow> False"
    using assms ceil_to_bounds(1)[of 65536 "length ro"] by (simp add: layout_fits_def)
  moreover have "alignToZone (len64 ro) = 2 ^ 32"
    using assms by (simp add: alignToZone_def MemoryZoneSize_def)
  ultimately show ?thesis
    by (auto simp: InitializeMemory_def Let_def alignToZone_def layout_constants)
qed

theorem InitializeMemory_ignores_ro_size_witness:
  "\<exists>m. InitializeMemory (replicate (2 ^ 32) 0) [] [] 0 0 = Inr m \<and>
     unat (seg_address (mem_rw m)) = 2 ^ 32 + 131072"
  using InitializeMemory_ignores_ro_size[OF length_replicate] by blast

end
