(* ===== verification/Pvm_Program.thy ===== *)
theory Pvm_Program
  imports Jam_Roundtrip Pvm_Memory
begin

text \<open>
  Programs of the PolkaVM: the opcodes and their classes (\<^verbatim>\<open>instruction_codes.go\<close>,
  \<^verbatim>\<open>instructions.go\<close>), the skip function and the decoding of a program blob
  (\<^verbatim>\<open>program.go\<close>), and the registers.
\<close>

section \<open>Opcodes\<close>

type_synonym Opcode = u8

abbreviation (input) op_Trap :: Opcode where "op_Trap \<equiv> 0"
abbreviation (input) op_Fallthrough :: Opcode where "op_Fallthrough \<equiv> 1"
abbreviation (input) op_Ecalli :: Opcode where "op_Ecalli \<equiv> 10"
abbreviation (input) op_LoadImm64 :: Opcode where "op_LoadImm64 \<equiv> 20"
abbreviation (input) op_StoreImmU8 :: Opcode where "op_StoreImmU8 \<equiv> 30"
abbreviation (input) op_StoreImmU16 :: Opcode where "op_StoreImmU16 \<equiv> 31"
abbreviation (input) op_StoreImmU32 :: Opcode where "op_StoreImmU32 \<equiv> 32"
abbreviation (input) op_StoreImmU64 :: Opcode where "op_StoreImmU64 \<equiv> 33"
abbreviation (input) op_Jump :: Opcode where "op_Jump \<equiv> 40"
abbreviation (input) op_JumpIndirect :: Opcode where "op_JumpIndirect \<equiv> 50"
abbreviation (input) op_LoadImm :: Opcode where "op_LoadImm \<equiv> 51"
abbreviation (input) op_LoadU8 :: Opcode where "op_LoadU8 \<equiv> 52"
abbreviation (input) op_LoadI8 :: Opcode where "op_LoadI8 \<equiv> 53"
abbreviation (input) op_LoadU16 :: Opcode where "op_LoadU16 \<equiv> 54"
abbreviation (input) op_LoadI16 :: Opcode where "op_LoadI16 \<equiv> 55"
abbreviation (input) op_LoadU32 :: Opcode where "op_LoadU32 \<equiv> 56"
abbreviation (input) op_LoadI32 :: Opcode where "op_LoadI32 \<equiv> 57"
abbreviation (input) op_LoadU64 :: Opcode where "op_LoadU64 \<equiv> 58"
abbreviation (input) op_StoreU8 :: Opcode where "op_StoreU8 \<equiv> 59"
abbreviation (input) op_StoreU16 :: Opcode where "op_StoreU16 \<equiv> 60"
abbreviation (input) op_StoreU32 :: Opcode where "op_StoreU32 \<equiv> 61"
abbreviation (input) op_StoreU64 :: Opcode where "op_StoreU64 \<equiv> 62"
abbreviation (input) op_StoreImmIndirectU8 :: Opcode where "op_StoreImmIndirectU8 \<equiv> 70"
abbreviation (input) op_StoreImmIndirectU16 :: Opcode where "op_StoreImmIndirectU16 \<equiv> 71"
abbreviation (input) op_StoreImmIndirectU32 :: Opcode where "op_StoreImmIndirectU32 \<equiv> 72"
abbreviation (input) op_StoreImmIndirectU64 :: Opcode where "op_StoreImmIndirectU64 \<equiv> 73"
abbreviation (input) op_LoadImmAndJump :: Opcode where "op_LoadImmAndJump \<equiv> 80"
abbreviation (input) op_BranchEqImm :: Opcode where "op_BranchEqImm \<equiv> 81"
abbreviation (input) op_BranchNotEqImm :: Opcode where "op_BranchNotEqImm \<equiv> 82"
abbreviation (input) op_BranchLessUnsignedImm :: Opcode where "op_BranchLessUnsignedImm \<equiv> 83"
abbreviation (input) op_BranchLessOrEqualUnsignedImm :: Opcode where "op_BranchLessOrEqualUnsignedImm \<equiv> 84"
abbreviation (input) op_BranchGreaterOrEqualUnsignedImm :: Opcode where "op_BranchGreaterOrEqualUnsignedImm \<equiv> 85"
abbreviation (input) op_BranchGreaterUnsignedImm :: Opcode where "op_BranchGreaterUnsignedImm \<equiv> 86"
abbreviation (input) op_BranchLessSignedImm :: Opcode where "op_BranchLessSignedImm \<equiv> 87"
abbreviation (input) op_BranchLessOrEqualSignedImm :: Opcode where "op_BranchLessOrEqualSignedImm \<equiv> 88"
abbreviation (input) op_BranchGreaterOrEqualSignedImm :: Opcode where "op_BranchGreaterOrEqualSignedImm \<equiv> 89"
abbreviation (input) op_BranchGreaterSignedImm :: Opcode where "op_BranchGreaterSignedImm \<equiv> 90"
abbreviation (input) op_MoveReg :: Opcode where "op_MoveReg \<equiv> 100"
abbreviation (input) op_Sbrk :: Opcode where "op_Sbrk \<equiv> 101"
abbreviation (input) op_CountSetBits64 :: Opcode where "op_CountSetBits64 \<equiv> 102"
abbreviation (input) op_CountSetBits32 :: Opcode where "op_CountSetBits32 \<equiv> 103"
abbreviation (input) op_LeadingZeroBits64 :: Opcode where "op_LeadingZeroBits64 \<equiv> 104"
abbreviation (input) op_LeadingZeroBits32 :: Opcode where "op_LeadingZeroBits32 \<equiv> 105"
abbreviation (input) op_TrailingZeroBits64 :: Opcode where "op_TrailingZeroBits64 \<equiv> 106"
abbreviation (input) op_TrailingZeroBits32 :: Opcode where "op_TrailingZeroBits32 \<equiv> 107"
abbreviation (input) op_SignExtend8 :: Opcode where "op_SignExtend8 \<equiv> 108"
abbreviation (input) op_SignExtend16 :: Opcode where "op_SignExtend16 \<equiv> 109"
abbreviation (input) op_ZeroExtend16 :: Opcode where "op_ZeroExtend16 \<equiv> 110"
abbreviation (input) op_ReverseBytes :: Opcode where "op_ReverseBytes \<equiv> 111"
abbreviation (input) op_StoreIndirectU8 :: Opcode where "op_StoreIndirectU8 \<equiv> 120"
abbreviation (input) op_StoreIndirectU16 :: Opcode where "op_StoreIndirectU16 \<equiv> 121"
abbreviation (input) op_StoreIndirectU32 :: Opcode where "op_StoreIndirectU32 \<equiv> 122"
abbreviation (input) op_StoreIndirectU64 :: Opcode where "op_StoreIndirectU64 \<equiv> 123"
abbreviation (input) op_LoadIndirectU8 :: Opcode where "op_LoadIndirectU8 \<equiv> 124"
abbreviation (input) op_LoadIndirectI8 :: Opcode where "op_LoadIndirectI8 \<equiv> 125"
abbreviation (input) op_LoadIndirectU16 :: Opcode where "op_LoadIndirectU16 \<equiv> 126"
abbreviation (input) op_LoadIndirectI16 :: Opcode where "op_LoadIndirectI16 \<equiv> 127"
abbreviation (input) op_LoadIndirectU32 :: Opcode where "op_LoadIndirectU32 \<equiv> 128"
abbreviation (input) op_LoadIndirectI32 :: Opcode where "op_LoadIndirectI32 \<equiv> 129"
abbreviation (input) op_LoadIndirectU64 :: Opcode where "op_LoadIndirectU64 \<equiv> 130"
abbreviation (input) op_AddImm32 :: Opcode where "op_AddImm32 \<equiv> 131"
abbreviation (input) op_AndImm :: Opcode where "op_AndImm \<equiv> 132"
abbreviation (input) op_XorImm :: Opcode where "op_XorImm \<equiv> 133"
abbreviation (input) op_OrImm :: Opcode where "op_OrImm \<equiv> 134"
abbreviation (input) op_MulImm32 :: Opcode where "op_MulImm32 \<equiv> 135"
abbreviation (input) op_SetLessThanUnsignedImm :: Opcode where "op_SetLessThanUnsignedImm \<equiv> 136"
abbreviation (input) op_SetLessThanSignedImm :: Opcode where "op_SetLessThanSignedImm \<equiv> 137"
abbreviation (input) op_ShiftLogicalLeftImm32 :: Opcode where "op_ShiftLogicalLeftImm32 \<equiv> 138"
abbreviation (input) op_ShiftLogicalRightImm32 :: Opcode where "op_ShiftLogicalRightImm32 \<equiv> 139"
abbreviation (input) op_ShiftArithmeticRightImm32 :: Opcode where "op_ShiftArithmeticRightImm32 \<equiv> 140"
abbreviation (input) op_NegateAndAddImm32 :: Opcode where "op_NegateAndAddImm32 \<equiv> 141"
abbreviation (input) op_SetGreaterThanUnsignedImm :: Opcode where "op_SetGreaterThanUnsignedImm \<equiv> 142"
abbreviation (input) op_SetGreaterThanSignedImm :: Opcode where "op_SetGreaterThanSignedImm \<equiv> 143"
abbreviation (input) op_ShiftLogicalLeftImmAlt32 :: Opcode where "op_ShiftLogicalLeftImmAlt32 \<equiv> 144"
abbreviation (input) op_ShiftArithmeticRightImmAlt32 :: Opcode where "op_ShiftArithmeticRightImmAlt32 \<equiv> 145"
abbreviation (input) op_ShiftLogicalRightImmAlt32 :: Opcode where "op_ShiftLogicalRightImmAlt32 \<equiv> 146"
abbreviation (input) op_CmovIfZeroImm :: Opcode where "op_CmovIfZeroImm \<equiv> 147"
abbreviation (input) op_CmovIfNotZeroImm :: Opcode where "op_CmovIfNotZeroImm \<equiv> 148"
abbreviation (input) op_AddImm64 :: Opcode where "op_AddImm64 \<equiv> 149"
abbreviation (input) op_MulImm64 :: Opcode where "op_MulImm64 \<equiv> 150"
abbreviation (input) op_ShiftLogicalLeftImm64 :: Opcode where "op_ShiftLogicalLeftImm64 \<equiv> 151"
abbreviation (input) op_ShiftLogicalRightImm64 :: Opcode where "op_ShiftLogicalRightImm64 \<equiv> 152"
abbreviation (input) op_ShiftArithmeticRightImm64 :: Opcode where "op_ShiftArithmeticRightImm64 \<equiv> 153"
abbreviation (input) op_NegateAndAddImm64 :: Opcode where "op_NegateAndAddImm64 \<equiv> 154"
abbreviation (input) op_ShiftLogicalLeftImmAlt64 :: Opcode where "op_ShiftLogicalLeftImmAlt64 \<equiv> 155"
abbreviation (input) op_ShiftLogicalRightImmAlt64 :: Opcode where "op_ShiftLogicalRightImmAlt64 \<equiv> 156"
abbreviation (input) op_ShiftArithmeticRightImmAlt64 :: Opcode where "op_ShiftArithmeticRightImmAlt64 \<equiv> 157"
abbreviation (input) op_RotR64Imm :: Opcode where "op_RotR64Imm \<equiv> 158"
abbreviation (input) op_RotR64ImmAlt :: Opcode where "op_RotR64ImmAlt \<equiv> 159"
abbreviation (input) op_RotR32Imm :: Opcode where "op_RotR32Imm \<equiv> 160"
abbreviation (input) op_RotR32ImmAlt :: Opcode where "op_RotR32ImmAlt \<equiv> 161"
abbreviation (input) op_BranchEq :: Opcode where "op_BranchEq \<equiv> 170"
abbreviation (input) op_BranchNotEq :: Opcode where "op_BranchNotEq \<equiv> 171"
abbreviation (input) op_BranchLessUnsigned :: Opcode where "op_BranchLessUnsigned \<equiv> 172"
abbreviation (input) op_BranchLessSigned :: Opcode where "op_BranchLessSigned \<equiv> 173"
abbreviation (input) op_BranchGreaterOrEqualUnsigned :: Opcode where "op_BranchGreaterOrEqualUnsigned \<equiv> 174"
abbreviation (input) op_BranchGreaterOrEqualSigned :: Opcode where "op_BranchGreaterOrEqualSigned \<equiv> 175"
abbreviation (input) op_LoadImmAndJumpIndirect :: Opcode where "op_LoadImmAndJumpIndirect \<equiv> 180"
abbreviation (input) op_Add32 :: Opcode where "op_Add32 \<equiv> 190"
abbreviation (input) op_Sub32 :: Opcode where "op_Sub32 \<equiv> 191"
abbreviation (input) op_Mul32 :: Opcode where "op_Mul32 \<equiv> 192"
abbreviation (input) op_DivUnsigned32 :: Opcode where "op_DivUnsigned32 \<equiv> 193"
abbreviation (input) op_DivSigned32 :: Opcode where "op_DivSigned32 \<equiv> 194"
abbreviation (input) op_RemUnsigned32 :: Opcode where "op_RemUnsigned32 \<equiv> 195"
abbreviation (input) op_RemSigned32 :: Opcode where "op_RemSigned32 \<equiv> 196"
abbreviation (input) op_ShiftLogicalLeft32 :: Opcode where "op_ShiftLogicalLeft32 \<equiv> 197"
abbreviation (input) op_ShiftLogicalRight32 :: Opcode where "op_ShiftLogicalRight32 \<equiv> 198"
abbreviation (input) op_ShiftArithmeticRight32 :: Opcode where "op_ShiftArithmeticRight32 \<equiv> 199"
abbreviation (input) op_Add64 :: Opcode where "op_Add64 \<equiv> 200"
abbreviation (input) op_Sub64 :: Opcode where "op_Sub64 \<equiv> 201"
abbreviation (input) op_Mul64 :: Opcode where "op_Mul64 \<equiv> 202"
abbreviation (input) op_DivUnsigned64 :: Opcode where "op_DivUnsigned64 \<equiv> 203"
abbreviation (input) op_DivSigned64 :: Opcode where "op_DivSigned64 \<equiv> 204"
abbreviation (input) op_RemUnsigned64 :: Opcode where "op_RemUnsigned64 \<equiv> 205"
abbreviation (input) op_RemSigned64 :: Opcode where "op_RemSigned64 \<equiv> 206"
abbreviation (input) op_ShiftLogicalLeft64 :: Opcode where "op_ShiftLogicalLeft64 \<equiv> 207"
abbreviation (input) op_ShiftLogicalRight64 :: Opcode where "op_ShiftLogicalRight64 \<equiv> 208"
abbreviation (input) op_ShiftArithmeticRight64 :: Opcode where "op_ShiftArithmeticRight64 \<equiv> 209"
abbreviation (input) op_And :: Opcode where "op_And \<equiv> 210"
abbreviation (input) op_Xor :: Opcode where "op_Xor \<equiv> 211"
abbreviation (input) op_Or :: Opcode where "op_Or \<equiv> 212"
abbreviation (input) op_MulUpperSignedSigned :: Opcode where "op_MulUpperSignedSigned \<equiv> 213"
abbreviation (input) op_MulUpperUnsignedUnsigned :: Opcode where "op_MulUpperUnsignedUnsigned \<equiv> 214"
abbreviation (input) op_MulUpperSignedUnsigned :: Opcode where "op_MulUpperSignedUnsigned \<equiv> 215"
abbreviation (input) op_SetLessThanUnsigned :: Opcode where "op_SetLessThanUnsigned \<equiv> 216"
abbreviation (input) op_SetLessThanSigned :: Opcode where "op_SetLessThanSigned \<equiv> 217"
abbreviation (input) op_CmovIfZero :: Opcode where "op_CmovIfZero \<equiv> 218"
abbreviation (input) op_CmovIfNotZero :: Opcode where "op_CmovIfNotZero \<equiv> 219"
abbreviation (input) op_RotL64 :: Opcode where "op_RotL64 \<equiv> 220"
abbreviation (input) op_RotL32 :: Opcode where "op_RotL32 \<equiv> 221"
abbreviation (input) op_RotR64 :: Opcode where "op_RotR64 \<equiv> 222"
abbreviation (input) op_RotR32 :: Opcode where "op_RotR32 \<equiv> 223"
abbreviation (input) op_AndInv :: Opcode where "op_AndInv \<equiv> 224"
abbreviation (input) op_OrInv :: Opcode where "op_OrInv \<equiv> 225"
abbreviation (input) op_Xnor :: Opcode where "op_Xnor \<equiv> 226"
abbreviation (input) op_Max :: Opcode where "op_Max \<equiv> 227"
abbreviation (input) op_MaxU :: Opcode where "op_MaxU \<equiv> 228"
abbreviation (input) op_Min :: Opcode where "op_Min \<equiv> 229"
abbreviation (input) op_MinU :: Opcode where "op_MinU \<equiv> 230"

section \<open>Gas costs\<close>

text \<open>The gas counter is the signed 64-bit \<^verbatim>\<open>Gas\<close>; an opcode that is not a key costs nothing.\<close>

type_synonym Gas = i64

definition GasCosts_table :: "(Opcode \<times> Gas) list" where
  "GasCosts_table =
    [(op_Trap, 1), (op_Fallthrough, 1), (op_Ecalli, 1), (op_StoreImmU8, 1), (op_StoreImmU16, 1),
     (op_StoreImmU32, 1), (op_StoreImmU64, 1), (op_Jump, 1), (op_JumpIndirect, 1),
     (op_LoadImm, 1), (op_LoadU8, 1), (op_LoadI8, 1), (op_LoadU16, 1), (op_LoadI16, 1),
     (op_LoadImm64, 1), (op_LoadU32, 1), (op_LoadI32, 1), (op_LoadU64, 1), (op_StoreU8, 1),
     (op_StoreU16, 1), (op_StoreU32, 1), (op_StoreU64, 1), (op_StoreImmIndirectU8, 1),
     (op_StoreImmIndirectU16, 1), (op_StoreImmIndirectU32, 1), (op_StoreImmIndirectU64, 1),
     (op_LoadImmAndJump, 1), (op_BranchEqImm, 1), (op_BranchNotEqImm, 1),
     (op_BranchLessUnsignedImm, 1), (op_BranchLessOrEqualUnsignedImm, 1),
     (op_BranchGreaterOrEqualUnsignedImm, 1), (op_BranchGreaterUnsignedImm, 1),
     (op_BranchLessSignedImm, 1), (op_BranchLessOrEqualSignedImm, 1),
     (op_BranchGreaterOrEqualSignedImm, 1), (op_BranchGreaterSignedImm, 1), (op_MoveReg, 1),
     (op_Sbrk, 1), (op_CountSetBits64, 1), (op_CountSetBits32, 1), (op_LeadingZeroBits64, 1),
     (op_LeadingZeroBits32, 1), (op_TrailingZeroBits64, 1), (op_TrailingZeroBits32, 1),
     (op_SignExtend8, 1), (op_SignExtend16, 1), (op_ZeroExtend16, 1), (op_ReverseBytes, 1),
     (op_StoreIndirectU8, 1), (op_StoreIndirectU16, 1), (op_StoreIndirectU32, 1),
     (op_StoreIndirectU64, 1), (op_LoadIndirectU8, 1), (op_LoadIndirectI8, 1),
     (op_LoadIndirectU16, 1), (op_LoadIndirectI16, 1), (op_LoadIndirectU32, 1),
     (op_LoadIndirectI32, 1), (op_LoadIndirectU64, 1), (op_AddImm32, 1), (op_AndImm, 1),
     (op_XorImm, 1), (op_OrImm, 1), (op_MulImm32, 1), (op_SetLessThanUnsignedImm, 1),
     (op_SetLessThanSignedImm, 1), (op_ShiftLogicalLeftImm32, 1), (op_ShiftLogicalRightImm32, 1),
     (op_ShiftArithmeticRightImm32, 1), (op_NegateAndAddImm32, 1),
     (op_SetGreaterThanUnsignedImm, 1), (op_SetGreaterThanSignedImm, 1),
     (op_ShiftLogicalRightImmAlt32, 1), (op_ShiftArithmeticRightImmAlt32, 1),
     (op_ShiftLogicalLeftImmAlt32, 1), (op_CmovIfZeroImm, 1), (op_CmovIfNotZeroImm, 1),
     (op_AddImm64, 1), (op_MulImm64, 1), (op_ShiftLogicalLeftImm64, 1),
     (op_ShiftLogicalRightImm64, 1), (op_ShiftArithmeticRightImm64, 1),
     (op_NegateAndAddImm64, 1), (op_ShiftLogicalLeftImmAlt64, 1),
     (op_ShiftLogicalRightImmAlt64, 1), (op_ShiftArithmeticRightImmAlt64, 1), (op_RotR64Imm, 1),
     (op_RotR64ImmAlt, 1), (op_RotR32Imm, 1), (op_RotR32ImmAlt, 1), (op_BranchEq, 1),
     (op_BranchNotEq, 1), (op_BranchLessUnsigned, 1), (op_BranchLessSigned, 1),
     (op_BranchGreaterOrEqualUnsigned, 1), (op_BranchGreaterOrEqualSigned, 1),
     (op_LoadImmAndJumpIndirect, 1), (op_Add32, 1), (op_Sub32, 1), (op_Mul32, 1),
     (op_DivUnsigned32, 1), (op_DivSigned32, 1), (op_RemUnsigned32, 1), (op_RemSigned32, 1),
     (op_ShiftLogicalLeft32, 1), (op_ShiftLogicalRight32, 1), (op_ShiftArithmeticRight32, 1),
     (op_Add64, 1), (op_Sub64, 1), (op_Mul64, 1), (op_DivUnsigned64, 1), (op_DivSigned64, 1),
     (op_RemUnsigned64, 1), (op_RemSigned64, 1), (op_ShiftLogicalLeft64, 1),
     (op_ShiftLogicalRight64, 1), (op_ShiftArithmeticRight64, 1), (op_And, 1), (op_Xor, 1),
     (op_Or, 1), (op_MulUpperSignedSigned, 1), (op_MulUpperUnsignedUnsigned, 1),
     (op_MulUpperSignedUnsigned, 1), (op_SetLessThanUnsigned, 1), (op_SetLessThanSigned, 1),
     (op_CmovIfZero, 1), (op_CmovIfNotZero, 1), (op_RotL64, 1), (op_RotL32, 1), (op_RotR64, 1),
     (op_RotR32, 1), (op_AndInv, 1), (op_OrInv, 1), (op_Xnor, 1), (op_Max, 1), (op_MaxU, 1),
     (op_Min, 1), (op_MinU, 1)]"

definition GasCosts :: "Opcode \<Rightarrow> Gas" where
  "GasCosts opcode = (case map_of GasCosts_table opcode of Some g \<Rightarrow> g | None \<Rightarrow> 0)"

section \<open>Registers\<close>

datatype Reg = RA | SP | T0 | T1 | T2 | S0 | S1 | A0 | A1 | A2 | A3 | A4 | A5

type_synonym Registers = "Reg \<Rightarrow> u64"

text \<open>\<^verbatim>\<open>polkavm.Reg(min(12, b))\<close>.\<close>

definition to_Reg :: "u8 \<Rightarrow> Reg" where
  "to_Reg b = [RA, SP, T0, T1, T2, S0, S1, A0, A1, A2, A3, A4, A5] ! min 12 (unat b)"

section \<open>Instruction classes\<close>

definition instrNone :: "Opcode list" where
  "instrNone =
    [op_Trap, op_Fallthrough]"

definition instrImm :: "Opcode list" where
  "instrImm =
    [op_Ecalli]"

definition instrRegImmExt :: "Opcode list" where
  "instrRegImmExt =
    [op_LoadImm64]"

definition instrImm2 :: "Opcode list" where
  "instrImm2 =
    [op_StoreImmU8, op_StoreImmU16, op_StoreImmU32, op_StoreImmU64]"

definition instrOffset :: "Opcode list" where
  "instrOffset =
    [op_Jump]"

definition instrRegImm :: "Opcode list" where
  "instrRegImm =
    [op_JumpIndirect, op_LoadImm, op_LoadU8, op_LoadI8, op_LoadU16, op_LoadI16, op_LoadU32,
     op_LoadI32, op_LoadU64, op_StoreU8, op_StoreU16, op_StoreU32, op_StoreU64]"

definition instrRegImm2 :: "Opcode list" where
  "instrRegImm2 =
    [op_StoreImmIndirectU8, op_StoreImmIndirectU16, op_StoreImmIndirectU32, op_StoreImmIndirectU64]"

definition instrRegImmOffset :: "Opcode list" where
  "instrRegImmOffset =
    [op_LoadImmAndJump, op_BranchEqImm, op_BranchNotEqImm, op_BranchLessUnsignedImm,
     op_BranchLessOrEqualUnsignedImm, op_BranchGreaterOrEqualUnsignedImm,
     op_BranchGreaterUnsignedImm, op_BranchLessSignedImm, op_BranchLessOrEqualSignedImm,
     op_BranchGreaterOrEqualSignedImm, op_BranchGreaterSignedImm]"

definition instrRegReg :: "Opcode list" where
  "instrRegReg =
    [op_MoveReg, op_Sbrk, op_CountSetBits64, op_CountSetBits32, op_LeadingZeroBits64,
     op_LeadingZeroBits32, op_TrailingZeroBits64, op_TrailingZeroBits32, op_SignExtend8,
     op_SignExtend16, op_ZeroExtend16, op_ReverseBytes]"

definition instrReg2Imm :: "Opcode list" where
  "instrReg2Imm =
    [op_StoreIndirectU8, op_StoreIndirectU16, op_StoreIndirectU32, op_StoreIndirectU64,
     op_LoadIndirectU8, op_LoadIndirectI8, op_LoadIndirectU16, op_LoadIndirectI16,
     op_LoadIndirectU32, op_LoadIndirectI32, op_LoadIndirectU64, op_AddImm32, op_AndImm,
     op_XorImm, op_OrImm, op_MulImm32, op_SetLessThanUnsignedImm, op_SetLessThanSignedImm,
     op_ShiftLogicalLeftImm32, op_ShiftLogicalRightImm32, op_ShiftArithmeticRightImm32,
     op_NegateAndAddImm32, op_SetGreaterThanUnsignedImm, op_SetGreaterThanSignedImm,
     op_ShiftLogicalRightImmAlt32, op_ShiftArithmeticRightImmAlt32, op_ShiftLogicalLeftImmAlt32,
     op_CmovIfZeroImm, op_CmovIfNotZeroImm, op_AddImm64, op_MulImm64, op_ShiftLogicalLeftImm64,
     op_ShiftLogicalRightImm64, op_ShiftArithmeticRightImm64, op_NegateAndAddImm64,
     op_ShiftLogicalLeftImmAlt64, op_ShiftLogicalRightImmAlt64, op_ShiftArithmeticRightImmAlt64,
     op_RotR64Imm, op_RotR64ImmAlt, op_RotR32Imm, op_RotR32ImmAlt]"

definition instrReg2Offset :: "Opcode list" where
  "instrReg2Offset =
    [op_BranchEq, op_BranchNotEq, op_BranchLessUnsigned, op_BranchLessSigned,
     op_BranchGreaterOrEqualUnsigned, op_BranchGreaterOrEqualSigned]"

definition instrReg2Imm2 :: "Opcode list" where
  "instrReg2Imm2 =
    [op_LoadImmAndJumpIndirect]"

definition instrReg3 :: "Opcode list" where
  "instrReg3 =
    [op_Add32, op_Sub32, op_Mul32, op_DivUnsigned32, op_DivSigned32, op_RemUnsigned32,
     op_RemSigned32, op_ShiftLogicalLeft32, op_ShiftLogicalRight32, op_ShiftArithmeticRight32,
     op_Add64, op_Sub64, op_Mul64, op_DivUnsigned64, op_DivSigned64, op_RemUnsigned64,
     op_RemSigned64, op_ShiftLogicalLeft64, op_ShiftLogicalRight64, op_ShiftArithmeticRight64,
     op_And, op_Xor, op_Or, op_MulUpperSignedSigned, op_MulUpperUnsignedUnsigned,
     op_MulUpperSignedUnsigned, op_SetLessThanUnsigned, op_SetLessThanSigned, op_CmovIfZero,
     op_CmovIfNotZero, op_RotL64, op_RotL32, op_RotR64, op_RotR32, op_AndInv, op_OrInv, op_Xnor,
     op_Max, op_MaxU, op_Min, op_MinU]"

datatype InstructionType =
    InstrNone
  | InstrImm
  | InstrRegImmExt
  | InstrImm2
  | InstrOffset
  | InstrRegImm
  | InstrRegImm2
  | InstrRegImmOffset
  | InstrRegReg
  | InstrReg2Imm
  | InstrReg2Offset
  | InstrReg2Imm2
  | InstrReg3

text \<open>
  The map that \<^verbatim>\<open>init\<close> fills, in the order of its loops; a later entry replaces an earlier
  one, and the zero value for an unknown opcode is \<^verbatim>\<open>InstrNone\<close>.
\<close>

definition init_types :: "(Opcode \<times> InstructionType) list" where
  "init_types =
     map (\<lambda>code. (code, InstrNone)) instrNone @
     map (\<lambda>code. (code, InstrRegImm)) instrRegImm @
     map (\<lambda>code. (code, InstrRegImmOffset)) instrRegImmOffset @
     map (\<lambda>code. (code, InstrRegImm2)) instrRegImm2 @
     map (\<lambda>code. (code, InstrReg2Imm)) instrReg2Imm @
     map (\<lambda>code. (code, InstrReg2Offset)) instrReg2Offset @
     map (\<lambda>code. (code, InstrReg3)) instrReg3 @
     map (\<lambda>code. (code, InstrOffset)) instrOffset @
     map (\<lambda>code. (code, InstrImm)) instrImm @
     map (\<lambda>code. (code, InstrImm2)) instrImm2 @
     map (\<lambda>code. (code, InstrRegReg)) instrRegReg @
     map (\<lambda>code. (code, InstrReg2Imm2)) instrReg2Imm2 @
     map (\<lambda>code. (code, InstrRegImmExt)) instrRegImmExt"

definition InstructionForType :: "Opcode \<Rightarrow> InstructionType" where
  "InstructionForType opcode =
     (case map_of (rev init_types) opcode of Some t \<Rightarrow> t | None \<Rightarrow> InstrNone)"

definition IsBasicBlockTermination :: "Opcode \<Rightarrow> bool" where
  "IsBasicBlockTermination o1 \<longleftrightarrow> o1 \<in> set
    [op_Trap, op_Fallthrough, op_Jump, op_JumpIndirect, op_LoadImmAndJump,
     op_LoadImmAndJumpIndirect, op_BranchEq, op_BranchNotEq, op_BranchGreaterOrEqualUnsigned,
     op_BranchGreaterOrEqualSigned, op_BranchLessUnsigned, op_BranchLessSigned, op_BranchEqImm,
     op_BranchNotEqImm, op_BranchLessUnsignedImm, op_BranchLessSignedImm,
     op_BranchLessOrEqualUnsignedImm, op_BranchLessOrEqualSignedImm,
     op_BranchGreaterOrEqualUnsignedImm, op_BranchGreaterOrEqualSignedImm,
     op_BranchGreaterUnsignedImm, op_BranchGreaterSignedImm]"

section \<open>Skip\<close>

definition BitmaskMax :: nat where
  "BitmaskMax = 24"

fun Skip_loop :: "nat \<Rightarrow> bool list \<Rightarrow> u64" where
  "Skip_loop i [] = 0"
| "Skip_loop i (b # bs) =
     (if i > BitmaskMax then of_nat BitmaskMax
      else if b then of_nat i
      else Skip_loop (Suc i) bs)"

definition Skip :: "u64 \<Rightarrow> bool list \<Rightarrow> u64 option" where
  "Skip instructionOffset bitmask =
     (case go_slice_from bitmask (unat (instructionOffset + 1)) of
        None \<Rightarrow> None
      | Some bs \<Rightarrow> Some (Skip_loop 0 bs))"

section \<open>Program blobs\<close>

record ProgramMemorySizes =
  RODataSize :: u32
  RWDataSize :: u32
  InitialHeapPages :: u16
  StackSize :: u32

record Program =
  prog_MemorySizes :: ProgramMemorySizes
  ROData :: bytes
  RWData :: bytes
  CodeAndJumpTable :: bytes

text \<open>
  The struct types as the codec sees them, and the read of a value at such a type through
  \<^verbatim>\<open>Decoder.Decode\<close>.
\<close>

definition ProgramMemorySizes_type :: jtype where
  "ProgramMemorySizes_type = TStruct
     [(TagLength 3, TPrim KUint32), (TagLength 3, TPrim KUint32),
      (TagLength 2, TPrim KUint16), (TagLength 3, TPrim KUint32)]"

definition CodeAndJumpTableLengths_type :: jtype where
  "CodeAndJumpTableLengths_type = TStruct
     [(NoTag, TPrim KUint), (NoTag, TPrim KUint8), (NoTag, TPrim KUint)]"

definition jam_lift :: "'a jam_result \<Rightarrow> 'a pvm_result" where
  "jam_lift r = (case r of None \<Rightarrow> None | Some (Inl e) \<Rightarrow> raise (ErrJam e) | Some (Inr x) \<Rightarrow> ret x)"

definition Decode :: "jtype \<Rightarrow> bytes \<Rightarrow> (jval \<times> bytes) pvm_result" where
  "Decode ty buf = jam_lift (unmarshal (stack_depth ty) ty buf)"

text \<open>
  \<^verbatim>\<open>Decoder.DecodeFixedLength\<close> at the three types the sources pass: a fixed-width integer, a
  byte slice and a bit sequence.
\<close>

definition DecodeFixedLength :: "jtype \<Rightarrow> u64 \<Rightarrow> bytes \<Rightarrow> (jval \<times> bytes) pvm_result" where
  "DecodeFixedLength ty len buf =
     (case ty of
        TPrim k \<Rightarrow>
          if k \<in> {KInt8, KUint8, KInt16, KUint16, KInt32, KUint32, KInt64, KUint64}
          then jam_lift (decodeFixedWidth ty (unat len) buf)
          else raise (ErrJam ErrUnsupportedType)
      | TBytes \<Rightarrow> res_bind (jam_lift (decodeBytesFixedLength len buf)) (\<lambda>(b, rest). ret (VBytes b, rest))
      | TBits \<Rightarrow> res_bind (jam_lift (decodeBitsFixedLength len buf)) (\<lambda>(b, rest). ret (VBits b, rest))
      | _ \<Rightarrow> raise (ErrJam ErrUnsupportedType))"

text \<open>
  \<^verbatim>\<open>make([]T, n)\<close> panics when the slice exceeds the address space of the run-time (48 bits).
\<close>

definition make_ok :: "nat \<Rightarrow> u64 \<Rightarrow> bool" where
  "make_ok elemSize n \<longleftrightarrow> elemSize * unat n \<le> 2 ^ 48"

text \<open>The results of the decoder, read at the types of the destinations.\<close>

definition decode_sizes :: "bytes \<Rightarrow> (ProgramMemorySizes \<times> bytes) pvm_result" where
  "decode_sizes buf = res_bind (Decode ProgramMemorySizes_type buf) (\<lambda>(v, rest).
     case v of
       VStruct [VUint o1, VUint w, VUint z, VUint s] \<Rightarrow>
         ret (\<lparr>RODataSize = ucast o1, RWDataSize = ucast w, InitialHeapPages = ucast z, StackSize = ucast s\<rparr>, rest)
     | _ \<Rightarrow> None)"

definition decode_bytes :: "u64 \<Rightarrow> bytes \<Rightarrow> (bytes \<times> bytes) pvm_result" where
  "decode_bytes n buf = res_bind (DecodeFixedLength TBytes n buf) (\<lambda>(v, rest).
     case v of VBytes b \<Rightarrow> ret (b, rest) | _ \<Rightarrow> None)"

definition decode_bits :: "u64 \<Rightarrow> bytes \<Rightarrow> (bool list \<times> bytes) pvm_result" where
  "decode_bits n buf = res_bind (DecodeFixedLength TBits n buf) (\<lambda>(v, rest).
     case v of VBits b \<Rightarrow> ret (b, rest) | _ \<Rightarrow> None)"

definition decode_u64 :: "u64 \<Rightarrow> bytes \<Rightarrow> (u64 \<times> bytes) pvm_result" where
  "decode_u64 n buf = res_bind (DecodeFixedLength (TPrim KUint64) n buf) (\<lambda>(v, rest).
     case v of VUint x \<Rightarrow> ret (x, rest) | _ \<Rightarrow> None)"

definition decode_codeSize :: "bytes \<Rightarrow> (u32 \<times> bytes) pvm_result" where
  "decode_codeSize buf = res_bind (Decode (TPrim KUint32) buf) (\<lambda>(v, rest).
     case v of VUint x \<Rightarrow> ret (ucast x, rest) | _ \<Rightarrow> None)"

definition ParseBlob :: "bytes \<Rightarrow> Program pvm_result" where
  "ParseBlob data =
     res_bind (decode_sizes data) (\<lambda>(memorySizes, buff).
     res_bind (decode_bytes (ucast (RODataSize memorySizes)) buff) (\<lambda>(roData, buff).
       let rwData = [] in
       if unat (RODataSize memorySizes) \<noteq> length roData then raise (ErrBlob ''ro data size mismatch'')
       else if unat (RWDataSize memorySizes) \<noteq> length (rwData :: bytes) then raise (ErrBlob ''rw data size mismatch'')
       else
         res_bind (decode_bytes (ucast (RWDataSize memorySizes)) buff) (\<lambda>(rwData, buff).
         res_bind (decode_codeSize buff) (\<lambda>(codeSize, buff).
           case go_slice_from data (unat (RWDataSize memorySizes + 4)) of
             None \<Rightarrow> None
           | Some tail \<Rightarrow>
               if length tail \<noteq> unat codeSize then raise (ErrBlob ''code size mismatch'')
               else ret \<lparr>prog_MemorySizes = memorySizes, ROData = roData, RWData = rwData,
                         CodeAndJumpTable = buff\<rparr>))))"

definition decode_lengths :: "bytes \<Rightarrow> ((u64 \<times> u8 \<times> u64) \<times> bytes) pvm_result" where
  "decode_lengths buf = res_bind (Decode CodeAndJumpTableLengths_type buf) (\<lambda>(v, rest).
     case v of VStruct [VUint count, VUint size1, VUint codeLength] \<Rightarrow> ret ((count, ucast size1, codeLength), rest)
     | _ \<Rightarrow> None)"

fun decode_jumpTable :: "nat \<Rightarrow> u8 \<Rightarrow> bytes \<Rightarrow> (u64 list \<times> bytes) pvm_result" where
  "decode_jumpTable 0 z buff = ret ([], buff)"
| "decode_jumpTable (Suc n) z buff =
     res_bind (decode_u64 (ucast z) buff) (\<lambda>(j, buff).
     res_bind (decode_jumpTable n z buff) (\<lambda>(js, buff). ret (j # js, buff)))"

definition Deblob :: "bytes \<Rightarrow> (bytes \<times> bool list \<times> u64 list) pvm_result" where
  "Deblob bytecode =
     res_bind (decode_lengths bytecode) (\<lambda>((count, entrySize, codeLength), buff).
       if \<not> make_ok 8 count then None
       else
         res_bind (decode_jumpTable (unat count) entrySize buff) (\<lambda>(jumpTable, buff).
           if \<not> make_ok 1 codeLength then None
           else
             res_bind (decode_bytes codeLength buff) (\<lambda>(code, buff).
             res_bind (decode_bits (len64 buff) buff) (\<lambda>(bitmask, buff).
               case go_slice bitmask 0 (unat codeLength) of
                 None \<Rightarrow> None
               | Some bitmask \<Rightarrow> ret (code, bitmask, jumpTable)))))"

section \<open>Initial state\<close>

definition InitializeRegisters :: "nat \<Rightarrow> Registers" where
  "InitializeRegisters argsLen =
     (\<lambda>_. 0)(RA := AddressReturnToHost, SP := StackAddressHigh, A0 := ArgsAddressLow, A1 := of_nat argsLen)"

definition InitializeStandardProgram :: "Program \<Rightarrow> bytes \<Rightarrow> pvm_error + (Memory \<times> Registers)" where
  "InitializeStandardProgram program argsData =
     (case InitializeMemory (ROData program) (RWData program) argsData
             (StackSize (prog_MemorySizes program)) (InitialHeapPages (prog_MemorySizes program)) of
        Inl err \<Rightarrow> Inl err
      | Inr ram \<Rightarrow> Inr (ram, InitializeRegisters (length argsData)))"

section \<open>Specification vocabulary\<close>

text \<open>The blob of the comment above \<^verbatim>\<open>Deblob\<close>.\<close>

definition pack_bits :: "bool list \<Rightarrow> bytes" where
  "pack_bits k = map (\<lambda>i. horner_sum of_bool 2 (take 8 (drop (8 * i) k))) [0..<(length k + 7) div 8]"

definition code_blob :: "u64 list \<Rightarrow> u8 \<Rightarrow> bytes \<Rightarrow> bool list \<Rightarrow> bytes" where
  "code_blob j z c k =
     serializeUint64 (len64 j) @ [z] @ serializeUint64 (len64 c) @
     concat (map (\<lambda>x. serializeTrivialNatural x (unat z)) j) @ c @ pack_bits k"

text \<open>The program blob of the comment above \<^verbatim>\<open>ParseBlob\<close> (eq. A.32).\<close>

definition program_blob :: "bytes \<Rightarrow> bytes \<Rightarrow> u16 \<Rightarrow> u32 \<Rightarrow> bytes \<Rightarrow> bytes" where
  "program_blob o1 w z s c =
     serializeTrivialNatural (len64 o1) 3 @ serializeTrivialNatural (len64 w) 3 @
     serializeTrivialNatural (ucast z) 2 @ serializeTrivialNatural (ucast s) 3 @
     o1 @ w @ serializeTrivialNatural (len64 c) 4 @ c"

section \<open>Opcode tables\<close>

lemmas instr_lists = instrNone_def instrImm_def instrRegImmExt_def instrImm2_def instrOffset_def
  instrRegImm_def instrRegImm2_def instrRegImmOffset_def instrRegReg_def instrReg2Imm_def
  instrReg2Offset_def instrReg2Imm2_def instrReg3_def

lemma GasCosts_table_ones: "snd ` set GasCosts_table = {1}"
  by (simp add: GasCosts_table_def)

lemma init_types_priced: "fst ` set init_types \<subseteq> fst ` set GasCosts_table"
proof -
  have "unat ` fst ` set init_types \<subseteq> unat ` fst ` set GasCosts_table"
    unfolding init_types_def instr_lists GasCosts_table_def by simp
  then show ?thesis
    by (simp only: inj_image_subset_iff[OF inj_unsigned])
qed

lemma InstrNone_priced: "op_Trap \<in> fst ` set GasCosts_table" "op_Fallthrough \<in> fst ` set GasCosts_table"
  by (simp_all add: GasCosts_table_def)


text \<open>Every opcode of a class costs one unit; any other octet costs nothing and has no handler.\<close>

lemma GasCosts_cases:
  obtains "GasCosts opcode = 1"
  | "GasCosts opcode = 0" "InstructionForType opcode = InstrNone" "opcode \<noteq> 0" "opcode \<noteq> 1"
proof (cases "map_of GasCosts_table opcode")
  case None
  then have no: "opcode \<notin> fst ` set GasCosts_table" by (simp add: map_of_eq_None_iff)
  then have "map_of (rev init_types) opcode = None"
    using init_types_priced by (auto simp: map_of_eq_None_iff)
  with None no InstrNone_priced show thesis
    by (intro that(2)) (auto simp: GasCosts_def InstructionForType_def)
next
  case (Some g)
  then have "g \<in> snd ` set GasCosts_table" by (force dest: map_of_SomeD)
  with Some show thesis by (intro that(1)) (simp add: GasCosts_def GasCosts_table_ones)
qed

section \<open>Skip\<close>

lemma Skip_loop_spec:
  assumes "i \<le> BitmaskMax + 1"
  shows "Skip_loop i bs =
    (let k = length (takeWhile Not bs) in
     if k < length bs \<and> i + k \<le> BitmaskMax then of_nat (i + k)
     else if BitmaskMax + 1 < i + length bs then of_nat BitmaskMax
     else 0)"
  using assms
proof (induction i bs rule: Skip_loop.induct)
  case (2 i b bs)
  show ?case
  proof (cases "b \<or> i = BitmaskMax + 1")
    case True
    then show ?thesis using "2.prems" by (auto simp: Let_def)
  next
    case False
    then have "\<not> BitmaskMax < i" "\<not> b" "Suc i \<le> BitmaskMax + 1" using "2.prems" by auto
    then show ?thesis using "2.IH" by (simp add: Let_def)
  qed
qed simp

section \<open>Decoding a code blob\<close>

lemma ucast_ucast_octet: "ucast (ucast (z :: u8) :: u64) = z"
  by (rule bit_word_eqI) (simp add: bit_ucast_iff)

lemma unat_ucast_octet: "unat (ucast (z :: u8) :: u64) = unat z"
  by (intro unat_ucast_below unat_below) simp

lemma decode_lengths_blob:
  "decode_lengths (serializeUint64 a @ [z] @ serializeUint64 c @ rest) = ret ((a, z, c), rest)"
proof -
  have z: "decodeFixedWidth_value (TPrim KUint8) 1 ([z] @ rest) = ret (VUint (ucast z), rest)" for rest
    by (simp add: decodeFixedWidth_value_def fixedWidth_value_def deserializeTrivialNatural_def del: append.simps)
  show ?thesis
    using z
    by (simp add: decode_lengths_def Decode_def jam_lift_def CodeAndJumpTableLengths_type_def
        unmarshal_switch_def reflect_defs compound_decoder_defs scalar_decoder_defs decodeFixedWidth_def
        decodeUint_serializeUint64 ucast_ucast_octet)
qed


lemma decode_jumpTable_blob:
  assumes "\<forall>x \<in> set j. unat x < 2 ^ (8 * unat z)"
  shows "decode_jumpTable (length j) z (concat (map (\<lambda>x. serializeTrivialNatural x (unat z)) j) @ rest) = ret (j, rest)"
  using assms
proof (induction j)
  case (Cons x j)
  note unat_ucast_octet[of z]
  moreover have "unat x < 2 ^ 64" by (rule order_less_le_trans[OF unsigned_less]) simp
  ultimately have "decode_u64 (ucast z) (serializeTrivialNatural x (unat z) @ r) = ret (x, r)" for r
    using Cons.prems decode_encodeFixedWidth_value[of "TPrim KUint64" KUint64 x "unat z" r]
    by (simp add: decode_u64_def DecodeFixedLength_def decodeFixedWidth_def jam_lift_def)
  then show ?case using Cons by simp
qed simp

lemma decode_bytes_blob:
  assumes "length c < 2 ^ 32"
  shows "decode_bytes (len64 c) (c @ rest) = ret (c, rest)"
proof (cases "c = []")
  case True
  then show ?thesis
    by (simp add: decode_bytes_def DecodeFixedLength_def decodeBytesFixedLength_def jam_lift_def MaxUint32_def)
next
  case False
  then have "len64 c > 0" using assms by (simp add: word_less_nat_alt)
  then show ?thesis using small_not_exceeding[OF assms] assms
    by (simp add: decode_bytes_def DecodeFixedLength_def decodeBytesFixedLength_def jam_lift_def)
qed

lemma bit_pack_bits:
  assumes "i < length k"
  shows "bit (pack_bits k ! (i div 8)) (i mod 8) = k ! i"
proof -
  define q r where "q = i div 8" and "r = i mod 8"
  have i: "i = 8 * q + r" and r: "r < 8" by (simp_all add: q_def r_def)
  have "q < (length k + 7) div 8" using assms i by linarith
  then have "pack_bits k ! q = horner_sum of_bool 2 (take 8 (drop (8 * q) k))"
    by (simp add: pack_bits_def)
  moreover have "r < length k - 8 * q" using assms i by linarith
  ultimately show ?thesis
    unfolding q_def[symmetric] r_def[symmetric] using r i
    by (simp add: bit_horner_sum_bit_word_iff)
qed

lemma length_pack_bits: "length (pack_bits k) = (length k + 7) div 8"
  by (simp add: pack_bits_def)

lemma decode_bits_blob:
  assumes "length k < 2 ^ 32"
  shows "\<exists>ext. decode_bits (len64 (pack_bits k)) (pack_bits k) = ret (k @ ext, [])"
proof -
  have len: "length (pack_bits k) < 2 ^ 32" "length k \<le> length (pack_bits k) * 8"
    using assms unfolding length_pack_bits by linarith+
  let ?f = "\<lambda>i. pack_bits k ! (i div 8) AND shl 1 (i mod 8) = shl 1 (i mod 8)"
  define bits where "bits = map ?f [0..<length (pack_bits k) * 8]"
  have "take (length k) bits = k"
  proof (rule nth_equalityI)
    show l: "length (take (length k) bits) = length k" using len(2) by (simp add: bits_def)
    fix i assume "i < length (take (length k) bits)"
    then have i: "i < length k" by (simp only: l)
    then have "take (length k) bits ! i = ?f i" using len(2) by (simp add: bits_def del: push_bit_of_1)
    then show "take (length k) bits ! i = k ! i"
      using and_pow_eq_bit[of "i mod 8" "pack_bits k ! (i div 8)"] bit_pack_bits[OF i] by simp
  qed
  then have bits: "bits = k @ drop (length k) bits"
    by (metis append_take_drop_id)
  have rd: "br_Read (length (pack_bits k)) (pack_bits k) = ret (pack_bits k, [])"
    using br_Read_append[of "pack_bits k" "length (pack_bits k)" "[]"] by simp
  have un: "unat (len64 (pack_bits k)) = length (pack_bits k)"
    using len(1) by simp
  have "decode_bits (len64 (pack_bits k)) (pack_bits k) = ret (bits, [])"
    unfolding decode_bits_def DecodeFixedLength_def decodeBitsFixedLength_def
      jtype.case un rd if_not_P[OF small_not_exceeding[OF len(1)]] bits_def
    by (simp add: jam_lift_def del: push_bit_of_1)
  then show ?thesis using bits by metis
qed


lemma decode_sizes_blob:
  assumes "unat o1 < 2 ^ 24" "unat w < 2 ^ 24" "unat z < 2 ^ 16" "unat s < 2 ^ 24"
  shows "decode_sizes (serializeTrivialNatural o1 3 @ serializeTrivialNatural w 3 @
      serializeTrivialNatural z 2 @ serializeTrivialNatural s 3 @ rest) =
    ret (\<lparr>RODataSize = ucast o1, RWDataSize = ucast w, InitialHeapPages = ucast z, StackSize = ucast s\<rparr>, rest)"
proof -
  have 32: "decodeFixedWidth_value (TPrim KUint32) 3 (serializeTrivialNatural x 3 @ r) = ret (VUint x, r)"
    if "unat x < 2 ^ 24" for x r
    using that by (intro decode_encodeFixedWidth_value[where k = KUint32]) simp_all
  have 16: "decodeFixedWidth_value (TPrim KUint16) 2 (serializeTrivialNatural x 2 @ r) = ret (VUint x, r)"
    if "unat x < 2 ^ 16" for x r
    using that by (intro decode_encodeFixedWidth_value[where k = KUint16]) simp_all
  show ?thesis
    using assms
    by (simp add: decode_sizes_def Decode_def jam_lift_def ProgramMemorySizes_type_def unmarshal_switch_def
        reflect_defs compound_decoder_defs decodeFixedWidth_def 32 16)
qed

lemma decode_codeSize_blob:
  assumes "unat c < 2 ^ 32"
  shows "decode_codeSize (serializeTrivialNatural c 4 @ rest) = ret (ucast c, rest)"
proof -
  have "decodeFixedWidth_value (TPrim KUint32) 4 (serializeTrivialNatural c 4 @ rest) = ret (VUint c, rest)"
    using assms by (intro decode_encodeFixedWidth_value[where k = KUint32]) simp_all
  then show ?thesis
    by (simp add: decode_codeSize_def Decode_def jam_lift_def unmarshal_switch_def decodeFixedWidth_def)
qed

lemma Deblob_blob:
  assumes "length k = length c" "length c < 2 ^ 32" "8 * length j \<le> 2 ^ 48"
    and "\<forall>x \<in> set j. unat x < 2 ^ (8 * unat z)"
  shows "Deblob (code_blob j z c k) = ret (c, k, j)"
proof -
  have lens: "unat (len64 j) = length j" "unat (len64 c) = length c"
    using assms(2,3) by simp_all
  have ok: "make_ok 8 (len64 j)" "make_ok 1 (len64 c)"
    using assms(2,3) unfolding make_ok_def lens by simp_all
  obtain ext where bits: "decode_bits (len64 (pack_bits k)) (pack_bits k) = ret (k @ ext, [])"
    using decode_bits_blob[of k] assms(1,2) by auto
  show ?thesis
    unfolding Deblob_def code_blob_def decode_lengths_blob
    using decode_jumpTable_blob[OF assms(4)] decode_bytes_blob[OF assms(2)] ok lens bits assms(1)
    by (simp add: go_slice_def)
qed

section \<open>Properties\<close>

text \<open>
  \<^bold>\<open>A code blob decodes to its parts.\<close> For a jump table whose entries fit in \<open>z\<close> octets, a
  code of less than \<open>2 ^ 32\<close> octets and a mask with one bit per octet of code, \<^verbatim>\<open>Deblob\<close> of the
  documented encoding gives back code, mask and jump table.
\<close>
theorem Deblob_code_blob:
  assumes "length k = length c" "length c < 2 ^ 32" "8 * length j \<le> 2 ^ 48"
    and "\<forall>x \<in> set j. unat x < 2 ^ (8 * unat z)"
  shows "Deblob (code_blob j z c k) = ret (c, k, j)"
  by (rule Deblob_blob[OF assms])

theorem Deblob_code_blob_witness:
  "Deblob (code_blob [0, 300] 2 [51, 7, 1] [True, False, True]) = ret ([51, 7, 1], [True, False, True], [0, 300])"
  by (rule Deblob_code_blob) simp_all

text \<open>
  \<^bold>\<open>Every program blob in the documented format is rejected.\<close> \<^verbatim>\<open>ParseBlob\<close> compares the size of
  the read-write data with a field it has not decoded yet, and the code size with the length of
  the input from an offset that is not the start of the code.
\<close>
theorem ParseBlob_rejects_documented_format:
  assumes "length ro < 2 ^ 24" "length rw < 2 ^ 24" "unat s < 2 ^ 24" "length c < 2 ^ 32"
  shows "ParseBlob (program_blob ro rw z s c) =
    raise (ErrBlob (if rw = [] then ''code size mismatch'' else ''rw data size mismatch''))"
proof -
  have lens: "unat (len64 ro) = length ro" "unat (len64 rw) = length rw" "unat (len64 c) = length c"
    using assms by simp_all
  have z: "unat (ucast z :: u64) < 2 ^ 16" and s: "unat (ucast s :: u64) < 2 ^ 24"
    using assms(3) unat_below[of 16 z] unat_below[of 64 z] unat_below[of 64 s]
    by (subst unat_ucast_below; simp)+
  have sz: "unat (ucast (len64 ro) :: u32) = length ro" "unat (ucast (len64 rw) :: u32) = length rw"
    "unat (ucast (len64 c) :: u32) = length c"
    using assms lens by (simp_all add: unat_ucast_below)
  have up: "ucast (ucast (len64 ro) :: u32) = len64 ro" "ucast (ucast (len64 rw) :: u32) = len64 rw"
    using assms lens by (intro ucast_ucast_below; simp)+
  let ?rest = "ro @ rw @ serializeTrivialNatural (len64 c) 4 @ c"
  have sizes: "decode_sizes (program_blob ro rw z s c) = ret (\<lparr>RODataSize = ucast (len64 ro),
      RWDataSize = ucast (len64 rw), InitialHeapPages = ucast (ucast z :: u64), StackSize = ucast (ucast s :: u64)\<rparr>, ?rest)"
    unfolding program_blob_def using assms lens z s by (intro decode_sizes_blob) simp_all
  have ro: "decode_bytes (len64 ro) (ro @ r) = ret (ro, r)" for r
    using assms(1) by (intro decode_bytes_blob) simp
  show ?thesis
  proof (cases "rw = []")
    case False
    then show ?thesis
      unfolding ParseBlob_def sizes by (simp add: up ro sz)
  next
    case True
    have "decode_bytes 0 r = ret ([], r)" for r
      using decode_bytes_blob[of "[]" r] by simp
    moreover have "decode_codeSize (serializeTrivialNatural (len64 c) 4 @ c) = ret (ucast (len64 c), c)"
      using assms(4) lens by (intro decode_codeSize_blob) simp
    moreover have "length (program_blob ro [] z s c) = 15 + length ro + length c"
      by (simp add: program_blob_def)
    ultimately show ?thesis
      unfolding ParseBlob_def sizes using True
      by (simp add: up ro sz go_slice_from_def)
  qed
qed

theorem ParseBlob_rejects_documented_format_witness:
  "ParseBlob (program_blob [1, 2] [] 4 8192 [0, 1, 2]) = raise (ErrBlob ''code size mismatch'')"
  using ParseBlob_rejects_documented_format[of "[1, 2]" "[]" 8192 "[0, 1, 2]" 4] by simp

text \<open>
  \<^bold>\<open>a code blob that ends before its mask crashes the decoder.\<close> Where the octets after the code
  hold fewer bits than the code has octets, the slice expression that cuts the mask to length is out
  of range: a run-time panic instead of an error.
\<close>
theorem Deblob_short_mask_crashes:
  assumes "length c < 2 ^ 32" "8 * length m < length c"
  shows "Deblob (serializeUint64 0 @ [0] @ serializeUint64 (len64 c) @ c @ m) = None"
proof -
  have lens: "unat (len64 c) = length c" "unat (len64 m) = length m" and m: "length m < 2 ^ 32"
    using assms by simp_all
  then have ok: "make_ok 8 0" "make_ok 1 (len64 c)"
    using assms by (simp_all add: make_ok_def)
  have "\<exists>bits. decode_bits (len64 m) m = ret (bits, []) \<and> length bits = 8 * length m"
    using br_Read_append[of m "length m" "[]"] lens m small_not_exceeding[OF m]
    by (simp add: decode_bits_def DecodeFixedLength_def decodeBitsFixedLength_def jam_lift_def
        del: br_Read_append push_bit_of_1)
  then show ?thesis
    unfolding Deblob_def decode_lengths_blob
    using decode_bytes_blob[OF assms(1)] ok lens assms(2) by (auto simp: go_slice_def)
qed

theorem Deblob_short_mask_crashes_witness: "Deblob (serializeUint64 0 @ [0] @ serializeUint64 1 @ [0]) = None"
  using Deblob_short_mask_crashes[of "[0]" "[]"] by simp

end
