(* ===== verification/Pvm_Instance.thy ===== *)
theory Pvm_Instance
  imports Pvm_Program
begin

text \<open>
  An instance of the virtual machine and its primitive operations
  (\<^verbatim>\<open>internal/polkavm/interpreter/instance.go\<close>).

  A method without a result is a function into \<open>Instance option\<close>, where \<open>None\<close> is a run-time
  panic of the interpreter; a method that returns an \<^verbatim>\<open>error\<close> also gives the error, if any, with
  the state the method leaves behind.
\<close>

section \<open>State\<close>

record Instance =
  memory :: Memory
  regs :: Registers
  instructionCounter :: u64
  gasRemaining :: Gas
  code :: bytes
  jumpTable :: "u64 list"
  bitmask :: "bool list"
  basicBlockInstructions :: "u64 set"

type_synonym mutation = "Instance option"
type_synonym fallible = "(pvm_error option \<times> Instance) option"

text \<open>A method that succeeds, and a method that stops at an error of a call before it changes the state.\<close>

definition no_error :: "mutation \<Rightarrow> fallible" where
  "no_error r = map_option (Pair None) r"

definition try_call :: "'a pvm_result \<Rightarrow> Instance \<Rightarrow> ('a \<Rightarrow> mutation) \<Rightarrow> fallible" where
  "try_call r i k =
     (case r of
        None \<Rightarrow> None
      | Some (Inl err) \<Rightarrow> Some (Some err, i)
      | Some (Inr v) \<Rightarrow> no_error (k v))"

section \<open>Instantiation\<close>

fun block_starts :: "bytes \<Rightarrow> bool list \<Rightarrow> nat \<Rightarrow> bool list \<Rightarrow> u64 set \<Rightarrow> u64 set option" where
  "block_starts c k i [] blocks = Some blocks"
| "block_starts c k i (b # bs) blocks =
     (if b then
        do {
          opcode \<leftarrow> go_index c i;
          if IsBasicBlockTermination opcode then
            do {
              s \<leftarrow> Skip (of_nat i) k;
              block_starts c k (Suc i) bs (insert (of_nat i + 1 + s) blocks)
            }
          else block_starts c k (Suc i) bs blocks
        }
      else block_starts c k (Suc i) bs blocks)"

definition Instantiate :: "bytes \<Rightarrow> u64 \<Rightarrow> Gas \<Rightarrow> Registers \<Rightarrow> Memory \<Rightarrow> Instance pvm_result" where
  "Instantiate program instructionOffset gasLimit rs ram =
     res_bind (Deblob program) (\<lambda>(c, k, j).
       case block_starts c k 0 k {0} of
         None \<Rightarrow> None
       | Some blocks \<Rightarrow> ret
           \<lparr>memory = ram, regs = rs, instructionCounter = instructionOffset, gasRemaining = gasLimit,
            code = c @ [0], jumpTable = j, bitmask = k @ [True], basicBlockInstructions = blocks\<rparr>)"

section \<open>Primitive operations\<close>

definition skip :: "Instance \<Rightarrow> mutation" where
  "skip i = do {
     s \<leftarrow> Skip (instructionCounter i) (bitmask i);
     Some (i\<lparr>instructionCounter := instructionCounter i + (1 + s)\<rparr>)
   }"

definition deductGas :: "Gas \<Rightarrow> Instance \<Rightarrow> pvm_error option \<times> Instance" where
  "deductGas cost i =
     (if sint (gasRemaining i) < sint cost then (Some ErrOutOfGas, i)
      else (None, i\<lparr>gasRemaining := gasRemaining i - cost\<rparr>))"

text \<open>
  \<^verbatim>\<open>jam.Unmarshal\<close> into a variable of an integer type, zero before the call, and
  \<^verbatim>\<open>jam.Marshal\<close> of an unsigned integer. A signed result is sign-extended to 64 bits, as the
  callers convert it.
\<close>

definition unmarshal_int :: "kind \<Rightarrow> bytes \<Rightarrow> u64 pvm_result" where
  "unmarshal_int k buf = res_bind (jam_lift (Unmarshal 1 (TPrim k) buf (VUint 0)))
     (\<lambda>v. case v of VUint x \<Rightarrow> ret x | VInt x \<Rightarrow> ret x | _ \<Rightarrow> None)"

definition marshal_int :: "kind \<Rightarrow> u64 \<Rightarrow> bytes pvm_result" where
  "marshal_int k v = jam_lift (Marshal 1 (TPrim k) (VUint v))"

definition load :: "u64 \<Rightarrow> nat \<Rightarrow> kind \<Rightarrow> Instance \<Rightarrow> u64 pvm_result" where
  "load address len k i = res_bind (Memory_Read (memory i) address len) (unmarshal_int k)"

definition store :: "u64 \<Rightarrow> kind \<Rightarrow> u64 \<Rightarrow> Instance \<Rightarrow> fallible" where
  "store address k v i =
     try_call (res_bind (marshal_int k v) (Memory_Write (memory i) address)) i
       (\<lambda>m. skip (i\<lparr>memory := m\<rparr>))"

definition setAndSkip :: "Reg \<Rightarrow> u64 \<Rightarrow> Instance \<Rightarrow> mutation" where
  "setAndSkip dst val i = skip (i\<lparr>regs := (regs i)(dst := val)\<rparr>)"

text \<open>The message of the panic reads the opcode at the target, which may be out of range.\<close>

definition branch :: "bool \<Rightarrow> u64 \<Rightarrow> Instance \<Rightarrow> fallible" where
  "branch condition target i =
     (if condition then
        if target \<notin> basicBlockInstructions i then
          do {
            opcode \<leftarrow> go_index (code i) (unat target);
            Some (Some (ErrPanic ''indirect jump to non-block-termination instruction''), i)
          }
        else Some (None, i\<lparr>instructionCounter := target\<rparr>)
      else no_error (skip i))"

definition djump :: "u64 \<Rightarrow> Instance \<Rightarrow> fallible" where
  "djump address0 i =
     (let address = (ucast address0 :: u32) in
      if address = ucast AddressReturnToHost then Some (Some ErrHalt, i)
      else if address = 0 \<or> unat address > length (jumpTable i) * DynamicAddressAlignment \<or>
          address mod of_nat DynamicAddressAlignment \<noteq> 0
        then Some (Some (ErrPanic ''indirect jump to address invalid''), i)
      else
        do {
          instructionOffset \<leftarrow> go_index (jumpTable i) (unat (address div of_nat DynamicAddressAlignment - 1));
          if instructionOffset \<notin> basicBlockInstructions i
          then Some (Some (ErrPanic ''indirect jump to address is non block-termination instruction''), i)
          else Some (None, i\<lparr>instructionCounter := instructionOffset\<rparr>)
        })"

end
