(* ===== verification/Pvm_Mutations.thy ===== *)
theory Pvm_Mutations
  imports Pvm_Instance
begin

text \<open>
  The instructions of the virtual machine, one definition per method of
  \<^verbatim>\<open>internal/polkavm/interpreter/mutations.go\<close>, in its order, on top of the primitive
  operations of \<open>Pvm_Instance\<close>. The helper functions at the end of that file and \<^verbatim>\<open>sext\<close> of
  \<^verbatim>\<open>step.go\<close> come first.
\<close>

named_theorems mutator_defs \<open>definitions of the instructions\<close>

section \<open>Arithmetic helpers\<close>

text \<open>\<^verbatim>\<open>sext\<close>; \<open>None\<close> is its \<^verbatim>\<open>panic("unreachable")\<close>.\<close>

definition sext :: "u64 \<Rightarrow> u64 \<Rightarrow> u64 option" where
  "sext val len =
     (if len = 0 then Some 0
      else if len = 1 then Some (scast (ucast val :: u8))
      else if len = 2 then Some (scast (ucast val :: u16))
      else if len = 3 then Some (scast (sar (ucast (shl val 8) :: u32) 8))
      else if len = 4 then Some (scast (ucast val :: u32))
      else if len = 8 then Some val
      else None)"

definition bool2uint64 :: "bool \<Rightarrow> u64" where
  "bool2uint64 v = (if v then 1 else 0)"

definition abs64 :: "i64 \<Rightarrow> i64" where
  "abs64 v = (let msk = sar v 63 in (v XOR msk) - msk)"

definition smod64 :: "i64 \<Rightarrow> i64 \<Rightarrow> i64" where
  "smod64 a b =
     (if b = 0 then a
      else if sint a < 0 then - word_of_int (go_rem (sint (abs64 a)) (sint (abs64 b)))
      else word_of_int (go_rem (sint (abs64 a)) (sint (abs64 b))))"

definition abs32 :: "u32 \<Rightarrow> u32" where
  "abs32 v = (let msk = sar v 31 in (v XOR msk) - msk)"

definition smod32 :: "u32 \<Rightarrow> u32 \<Rightarrow> u32" where
  "smod32 a b =
     (if b = 0 then a
      else if sint a < 0 then - word_of_int (go_rem (sint (abs32 a)) (sint (abs32 b)))
      else word_of_int (go_rem (sint (abs32 a)) (sint (abs32 b))))"

section \<open>Without arguments\<close>

definition Trap :: "Instance \<Rightarrow> fallible" where [mutator_defs]:
  "Trap  i = Some (Some (ErrPanic ''explicit trap''), i)"

definition Fallthrough :: "Instance \<Rightarrow> mutation" where [mutator_defs]:
  "Fallthrough  i = skip i"

section \<open>Immediate loads and stores\<close>

definition LoadImm64 :: "Reg \<Rightarrow> u64 \<Rightarrow> Instance \<Rightarrow> mutation" where [mutator_defs]:
  "LoadImm64 dst imm i = setAndSkip dst imm i"

definition StoreImmU8 :: "u64 \<Rightarrow> u64 \<Rightarrow> Instance \<Rightarrow> fallible" where [mutator_defs]:
  "StoreImmU8 address val i = store address KUint8 (ucast (ucast (val) :: u8)) i"

definition StoreImmU16 :: "u64 \<Rightarrow> u64 \<Rightarrow> Instance \<Rightarrow> fallible" where [mutator_defs]:
  "StoreImmU16 address val i = store address KUint16 (ucast (ucast (val) :: u16)) i"

definition StoreImmU32 :: "u64 \<Rightarrow> u64 \<Rightarrow> Instance \<Rightarrow> fallible" where [mutator_defs]:
  "StoreImmU32 address val i = store address KUint32 (ucast (ucast (val) :: u32)) i"

definition StoreImmU64 :: "u64 \<Rightarrow> u64 \<Rightarrow> Instance \<Rightarrow> fallible" where [mutator_defs]:
  "StoreImmU64 address val i = store address KUint64 ((val)) i"

section \<open>Jumps\<close>

definition Jump :: "u64 \<Rightarrow> Instance \<Rightarrow> fallible" where [mutator_defs]:
  "Jump target i = branch True target i"

definition JumpIndirect :: "Reg \<Rightarrow> u64 \<Rightarrow> Instance \<Rightarrow> fallible" where [mutator_defs]:
  "JumpIndirect base offset i = djump (regs i base + offset) i"

section \<open>One register and one immediate\<close>

definition LoadImm :: "Reg \<Rightarrow> u64 \<Rightarrow> Instance \<Rightarrow> mutation" where [mutator_defs]:
  "LoadImm dst imm i = setAndSkip dst imm i"

definition LoadU8 :: "Reg \<Rightarrow> u64 \<Rightarrow> Instance \<Rightarrow> fallible" where [mutator_defs]:
  "LoadU8 dst address i = 
     try_call (Memory_Read (memory i) (address) 1) i
       (\<lambda>bs. do { b \<leftarrow> go_index bs 0; setAndSkip dst (ucast b) i })"

definition LoadI8 :: "Reg \<Rightarrow> u64 \<Rightarrow> Instance \<Rightarrow> fallible" where [mutator_defs]:
  "LoadI8 dst address i = 
     try_call (Memory_Read (memory i) (address) 1) i
       (\<lambda>bs. do { b \<leftarrow> go_index bs 0; setAndSkip dst (scast b) i })"

definition LoadU16 :: "Reg \<Rightarrow> u64 \<Rightarrow> Instance \<Rightarrow> fallible" where [mutator_defs]:
  "LoadU16 dst address i = 
     try_call (load (address) 2 KUint16 i) i (\<lambda>v. setAndSkip dst v i)"

definition LoadI16 :: "Reg \<Rightarrow> u64 \<Rightarrow> Instance \<Rightarrow> fallible" where [mutator_defs]:
  "LoadI16 dst address i = 
     try_call (load (address) 2 KInt16 i) i (\<lambda>v. setAndSkip dst v i)"

definition LoadU32 :: "Reg \<Rightarrow> u64 \<Rightarrow> Instance \<Rightarrow> fallible" where [mutator_defs]:
  "LoadU32 dst address i = 
     try_call (load (address) 4 KUint32 i) i (\<lambda>v. setAndSkip dst v i)"

definition LoadI32 :: "Reg \<Rightarrow> u64 \<Rightarrow> Instance \<Rightarrow> fallible" where [mutator_defs]:
  "LoadI32 dst address i = 
     try_call (load (address) 4 KUint32 i) i (\<lambda>v. do { x \<leftarrow> sext v 4; setAndSkip dst x i })"

definition LoadU64 :: "Reg \<Rightarrow> u64 \<Rightarrow> Instance \<Rightarrow> fallible" where [mutator_defs]:
  "LoadU64 dst address i = 
     try_call (load (address) 8 KUint64 i) i (\<lambda>v. setAndSkip dst v i)"

definition StoreU8 :: "Reg \<Rightarrow> u64 \<Rightarrow> Instance \<Rightarrow> fallible" where [mutator_defs]:
  "StoreU8 src address i = store address KUint8 (ucast (ucast (regs i src) :: u8)) i"

definition StoreU16 :: "Reg \<Rightarrow> u64 \<Rightarrow> Instance \<Rightarrow> fallible" where [mutator_defs]:
  "StoreU16 src address i = store address KUint16 (ucast (ucast (regs i src) :: u16)) i"

definition StoreU32 :: "Reg \<Rightarrow> u64 \<Rightarrow> Instance \<Rightarrow> fallible" where [mutator_defs]:
  "StoreU32 src address i = store address KUint32 (ucast (ucast (regs i src) :: u32)) i"

definition StoreU64 :: "Reg \<Rightarrow> u64 \<Rightarrow> Instance \<Rightarrow> fallible" where [mutator_defs]:
  "StoreU64 src address i = store address KUint64 ((regs i src)) i"

section \<open>One register and two immediates\<close>

definition StoreImmIndirectU8 :: "Reg \<Rightarrow> u64 \<Rightarrow> u64 \<Rightarrow> Instance \<Rightarrow> fallible" where [mutator_defs]:
  "StoreImmIndirectU8 base offset val i = store (regs i base + offset) KUint8 (ucast (ucast (val) :: u8)) i"

definition StoreImmIndirectU16 :: "Reg \<Rightarrow> u64 \<Rightarrow> u64 \<Rightarrow> Instance \<Rightarrow> fallible" where [mutator_defs]:
  "StoreImmIndirectU16 base offset val i = store (regs i base + offset) KUint16 (ucast (ucast (val) :: u16)) i"

definition StoreImmIndirectU32 :: "Reg \<Rightarrow> u64 \<Rightarrow> u64 \<Rightarrow> Instance \<Rightarrow> fallible" where [mutator_defs]:
  "StoreImmIndirectU32 base offset val i = store (regs i base + offset) KUint32 (ucast (ucast (val) :: u32)) i"

definition StoreImmIndirectU64 :: "Reg \<Rightarrow> u64 \<Rightarrow> u64 \<Rightarrow> Instance \<Rightarrow> fallible" where [mutator_defs]:
  "StoreImmIndirectU64 base offset val i = store (regs i base + offset) KUint64 ((val)) i"

section \<open>One register, one immediate and one offset\<close>

definition LoadImmAndJump :: "Reg \<Rightarrow> u64 \<Rightarrow> u64 \<Rightarrow> Instance \<Rightarrow> fallible" where [mutator_defs]:
  "LoadImmAndJump ra val target i = do { i \<leftarrow> LoadImm ra val i; Jump target i }"

definition BranchEqImm :: "Reg \<Rightarrow> u64 \<Rightarrow> u64 \<Rightarrow> Instance \<Rightarrow> fallible" where [mutator_defs]:
  "BranchEqImm regA valueX target i = branch (regs i regA = valueX) target i"

definition BranchNotEqImm :: "Reg \<Rightarrow> u64 \<Rightarrow> u64 \<Rightarrow> Instance \<Rightarrow> fallible" where [mutator_defs]:
  "BranchNotEqImm regA valueX target i = branch (regs i regA \<noteq> valueX) target i"

definition BranchLessUnsignedImm :: "Reg \<Rightarrow> u64 \<Rightarrow> u64 \<Rightarrow> Instance \<Rightarrow> fallible" where [mutator_defs]:
  "BranchLessUnsignedImm regA valueX target i = branch (regs i regA < valueX) target i"

definition BranchLessOrEqualUnsignedImm :: "Reg \<Rightarrow> u64 \<Rightarrow> u64 \<Rightarrow> Instance \<Rightarrow> fallible" where [mutator_defs]:
  "BranchLessOrEqualUnsignedImm regA valueX target i = branch (regs i regA \<le> valueX) target i"

definition BranchGreaterOrEqualUnsignedImm :: "Reg \<Rightarrow> u64 \<Rightarrow> u64 \<Rightarrow> Instance \<Rightarrow> fallible" where [mutator_defs]:
  "BranchGreaterOrEqualUnsignedImm regA valueX target i = branch (regs i regA \<ge> valueX) target i"

definition BranchGreaterUnsignedImm :: "Reg \<Rightarrow> u64 \<Rightarrow> u64 \<Rightarrow> Instance \<Rightarrow> fallible" where [mutator_defs]:
  "BranchGreaterUnsignedImm regA valueX target i = branch (regs i regA > valueX) target i"

definition BranchLessSignedImm :: "Reg \<Rightarrow> u64 \<Rightarrow> u64 \<Rightarrow> Instance \<Rightarrow> fallible" where [mutator_defs]:
  "BranchLessSignedImm regA valueX target i = branch (sint (regs i regA) < sint valueX) target i"

definition BranchLessOrEqualSignedImm :: "Reg \<Rightarrow> u64 \<Rightarrow> u64 \<Rightarrow> Instance \<Rightarrow> fallible" where [mutator_defs]:
  "BranchLessOrEqualSignedImm regA valueX target i = branch (sint (regs i regA) \<le> sint valueX) target i"

definition BranchGreaterOrEqualSignedImm :: "Reg \<Rightarrow> u64 \<Rightarrow> u64 \<Rightarrow> Instance \<Rightarrow> fallible" where [mutator_defs]:
  "BranchGreaterOrEqualSignedImm regA valueX target i = branch (sint (regs i regA) \<ge> sint valueX) target i"

definition BranchGreaterSignedImm :: "Reg \<Rightarrow> u64 \<Rightarrow> u64 \<Rightarrow> Instance \<Rightarrow> fallible" where [mutator_defs]:
  "BranchGreaterSignedImm regA valueX target i = branch (sint (regs i regA) > sint valueX) target i"

section \<open>Two registers\<close>

definition MoveReg :: "Reg \<Rightarrow> Reg \<Rightarrow> Instance \<Rightarrow> mutation" where [mutator_defs]:
  "MoveReg dst s i = setAndSkip dst (regs i s) i"

definition Sbrk :: "Reg \<Rightarrow> Reg \<Rightarrow> Instance \<Rightarrow> fallible" where [mutator_defs]:
  "Sbrk dst sizeReg i = 
     (case Memory_Sbrk (memory i) (regs i sizeReg) of
        Inl err \<Rightarrow> Some (Some err, i)
      | Inr (heapTop, m) \<Rightarrow> no_error (setAndSkip dst heapTop (i\<lparr>memory := m\<rparr>)))"

definition CountSetBits64 :: "Reg \<Rightarrow> Reg \<Rightarrow> Instance \<Rightarrow> mutation" where [mutator_defs]:
  "CountSetBits64 dst s i = setAndSkip dst (of_nat (bits_OnesCount (regs i s))) i"

definition CountSetBits32 :: "Reg \<Rightarrow> Reg \<Rightarrow> Instance \<Rightarrow> mutation" where [mutator_defs]:
  "CountSetBits32 dst s i = setAndSkip dst (of_nat (bits_OnesCount (ucast (regs i s) :: u32))) i"

definition LeadingZeroBits64 :: "Reg \<Rightarrow> Reg \<Rightarrow> Instance \<Rightarrow> mutation" where [mutator_defs]:
  "LeadingZeroBits64 dst s i = setAndSkip dst (of_nat (bits_LeadingZeros (regs i s))) i"

definition LeadingZeroBits32 :: "Reg \<Rightarrow> Reg \<Rightarrow> Instance \<Rightarrow> mutation" where [mutator_defs]:
  "LeadingZeroBits32 dst s i = setAndSkip dst (of_nat (bits_LeadingZeros (ucast (regs i s) :: u32))) i"

definition TrailingZeroBits64 :: "Reg \<Rightarrow> Reg \<Rightarrow> Instance \<Rightarrow> mutation" where [mutator_defs]:
  "TrailingZeroBits64 dst s i = setAndSkip dst (of_nat (bits_TrailingZeros (regs i s))) i"

definition TrailingZeroBits32 :: "Reg \<Rightarrow> Reg \<Rightarrow> Instance \<Rightarrow> mutation" where [mutator_defs]:
  "TrailingZeroBits32 dst s i = setAndSkip dst (of_nat (bits_TrailingZeros (ucast (regs i s) :: u32))) i"

definition SignExtend8 :: "Reg \<Rightarrow> Reg \<Rightarrow> Instance \<Rightarrow> mutation" where [mutator_defs]:
  "SignExtend8 dst s i = setAndSkip dst (scast (ucast (regs i s) :: u8)) i"

definition SignExtend16 :: "Reg \<Rightarrow> Reg \<Rightarrow> Instance \<Rightarrow> mutation" where [mutator_defs]:
  "SignExtend16 dst s i = setAndSkip dst (scast (ucast (regs i s) :: u16)) i"

definition ZeroExtend16 :: "Reg \<Rightarrow> Reg \<Rightarrow> Instance \<Rightarrow> mutation" where [mutator_defs]:
  "ZeroExtend16 dst s i = setAndSkip dst (ucast (ucast (regs i s) :: u16)) i"

definition ReverseBytes :: "Reg \<Rightarrow> Reg \<Rightarrow> Instance \<Rightarrow> mutation" where [mutator_defs]:
  "ReverseBytes dst s i = setAndSkip dst (bits_ReverseBytes64 (regs i s)) i"

section \<open>Two registers and one immediate\<close>

definition StoreIndirectU8 :: "Reg \<Rightarrow> Reg \<Rightarrow> u64 \<Rightarrow> Instance \<Rightarrow> fallible" where [mutator_defs]:
  "StoreIndirectU8 src base offset i = store (regs i base + offset) KUint8 (ucast (ucast (regs i src) :: u8)) i"

definition StoreIndirectU16 :: "Reg \<Rightarrow> Reg \<Rightarrow> u64 \<Rightarrow> Instance \<Rightarrow> fallible" where [mutator_defs]:
  "StoreIndirectU16 src base offset i = store (regs i base + offset) KUint16 (ucast (ucast (regs i src) :: u16)) i"

definition StoreIndirectU32 :: "Reg \<Rightarrow> Reg \<Rightarrow> u64 \<Rightarrow> Instance \<Rightarrow> fallible" where [mutator_defs]:
  "StoreIndirectU32 src base offset i = store (regs i base + offset) KUint32 (ucast (ucast (regs i src) :: u32)) i"

definition StoreIndirectU64 :: "Reg \<Rightarrow> Reg \<Rightarrow> u64 \<Rightarrow> Instance \<Rightarrow> fallible" where [mutator_defs]:
  "StoreIndirectU64 src base offset i = store (regs i base + offset) KUint64 ((regs i src)) i"

definition LoadIndirectU8 :: "Reg \<Rightarrow> Reg \<Rightarrow> u64 \<Rightarrow> Instance \<Rightarrow> fallible" where [mutator_defs]:
  "LoadIndirectU8 dst base offset i = 
     try_call (Memory_Read (memory i) (regs i base + offset) 1) i
       (\<lambda>bs. do { b \<leftarrow> go_index bs 0; setAndSkip dst (ucast b) i })"

definition LoadIndirectI8 :: "Reg \<Rightarrow> Reg \<Rightarrow> u64 \<Rightarrow> Instance \<Rightarrow> fallible" where [mutator_defs]:
  "LoadIndirectI8 dst base offset i = 
     try_call (Memory_Read (memory i) (regs i base + offset) 1) i
       (\<lambda>bs. do { b \<leftarrow> go_index bs 0; setAndSkip dst (scast b) i })"

definition LoadIndirectU16 :: "Reg \<Rightarrow> Reg \<Rightarrow> u64 \<Rightarrow> Instance \<Rightarrow> fallible" where [mutator_defs]:
  "LoadIndirectU16 dst base offset i = 
     try_call (load (regs i base + offset) 2 KUint16 i) i (\<lambda>v. setAndSkip dst v i)"

definition LoadIndirectI16 :: "Reg \<Rightarrow> Reg \<Rightarrow> u64 \<Rightarrow> Instance \<Rightarrow> fallible" where [mutator_defs]:
  "LoadIndirectI16 dst base offset i = 
     try_call (load (regs i base + offset) 2 KInt16 i) i (\<lambda>v. setAndSkip dst v i)"

definition LoadIndirectU32 :: "Reg \<Rightarrow> Reg \<Rightarrow> u64 \<Rightarrow> Instance \<Rightarrow> fallible" where [mutator_defs]:
  "LoadIndirectU32 dst base offset i = 
     try_call (load (regs i base + offset) 4 KUint32 i) i (\<lambda>v. setAndSkip dst v i)"

definition LoadIndirectI32 :: "Reg \<Rightarrow> Reg \<Rightarrow> u64 \<Rightarrow> Instance \<Rightarrow> fallible" where [mutator_defs]:
  "LoadIndirectI32 dst base offset i = 
     try_call (load (regs i base + offset) 4 KInt32 i) i (\<lambda>v. setAndSkip dst v i)"

definition LoadIndirectU64 :: "Reg \<Rightarrow> Reg \<Rightarrow> u64 \<Rightarrow> Instance \<Rightarrow> fallible" where [mutator_defs]:
  "LoadIndirectU64 dst base offset i = 
     try_call (load (regs i base + offset) 8 KUint64 i) i (\<lambda>v. setAndSkip dst v i)"

definition AddImm32 :: "Reg \<Rightarrow> Reg \<Rightarrow> u64 \<Rightarrow> Instance \<Rightarrow> mutation" where [mutator_defs]:
  "AddImm32 dst regA val i = do { v \<leftarrow> sext (ucast (ucast (regs i regA + val) :: u32)) 4; setAndSkip dst v i }"

definition AndImm :: "Reg \<Rightarrow> Reg \<Rightarrow> u64 \<Rightarrow> Instance \<Rightarrow> mutation" where [mutator_defs]:
  "AndImm dst regA val i = setAndSkip dst (regs i regA AND val) i"

definition XorImm :: "Reg \<Rightarrow> Reg \<Rightarrow> u64 \<Rightarrow> Instance \<Rightarrow> mutation" where [mutator_defs]:
  "XorImm dst regA val i = setAndSkip dst (regs i regA XOR val) i"

definition OrImm :: "Reg \<Rightarrow> Reg \<Rightarrow> u64 \<Rightarrow> Instance \<Rightarrow> mutation" where [mutator_defs]:
  "OrImm dst regA val i = setAndSkip dst (regs i regA OR val) i"

definition MulImm32 :: "Reg \<Rightarrow> Reg \<Rightarrow> u64 \<Rightarrow> Instance \<Rightarrow> mutation" where [mutator_defs]:
  "MulImm32 dst regA val i = do { v \<leftarrow> sext (ucast (ucast (regs i regA * val) :: u32)) 4; setAndSkip dst v i }"

definition SetLessThanUnsignedImm :: "Reg \<Rightarrow> Reg \<Rightarrow> u64 \<Rightarrow> Instance \<Rightarrow> mutation" where [mutator_defs]:
  "SetLessThanUnsignedImm dst regA val i = setAndSkip dst (bool2uint64 (regs i regA < val)) i"

definition SetLessThanSignedImm :: "Reg \<Rightarrow> Reg \<Rightarrow> u64 \<Rightarrow> Instance \<Rightarrow> mutation" where [mutator_defs]:
  "SetLessThanSignedImm dst regA val i = setAndSkip dst (bool2uint64 (sint (regs i regA) < sint val)) i"

definition ShiftLogicalLeftImm32 :: "Reg \<Rightarrow> Reg \<Rightarrow> u64 \<Rightarrow> Instance \<Rightarrow> mutation" where [mutator_defs]:
  "ShiftLogicalLeftImm32 dst regA val i = do { v \<leftarrow> sext (ucast (shl (ucast (regs i regA) :: u32) (unat val) :: u32)) 4; setAndSkip dst v i }"

definition ShiftLogicalRightImm32 :: "Reg \<Rightarrow> Reg \<Rightarrow> u64 \<Rightarrow> Instance \<Rightarrow> mutation" where [mutator_defs]:
  "ShiftLogicalRightImm32 dst regA val i = do { v \<leftarrow> sext (ucast (shr (ucast (regs i regA) :: u32) (unat val) :: u32)) 4; setAndSkip dst v i }"

definition ShiftArithmeticRightImm32 :: "Reg \<Rightarrow> Reg \<Rightarrow> u64 \<Rightarrow> Instance \<Rightarrow> mutation" where [mutator_defs]:
  "ShiftArithmeticRightImm32 dst regA val i = setAndSkip dst (scast (sar (ucast (regs i regA) :: u32) (unat val))) i"

definition NegateAndAddImm32 :: "Reg \<Rightarrow> Reg \<Rightarrow> u64 \<Rightarrow> Instance \<Rightarrow> mutation" where [mutator_defs]:
  "NegateAndAddImm32 dst regA val i = do { v \<leftarrow> sext (ucast (ucast (val - regs i regA) :: u32)) 4; setAndSkip dst v i }"

definition SetGreaterThanUnsignedImm :: "Reg \<Rightarrow> Reg \<Rightarrow> u64 \<Rightarrow> Instance \<Rightarrow> mutation" where [mutator_defs]:
  "SetGreaterThanUnsignedImm dst regA val i = setAndSkip dst (bool2uint64 (regs i regA > val)) i"

definition SetGreaterThanSignedImm :: "Reg \<Rightarrow> Reg \<Rightarrow> u64 \<Rightarrow> Instance \<Rightarrow> mutation" where [mutator_defs]:
  "SetGreaterThanSignedImm dst regA val i = setAndSkip dst (bool2uint64 (sint (regs i regA) > sint val)) i"

definition ShiftLogicalLeftImmAlt32 :: "Reg \<Rightarrow> Reg \<Rightarrow> u64 \<Rightarrow> Instance \<Rightarrow> mutation" where [mutator_defs]:
  "ShiftLogicalLeftImmAlt32 dst regB val i = do { v \<leftarrow> sext (ucast (ucast (shl val (unat (regs i regB))) :: u32)) 4; setAndSkip dst v i }"

definition ShiftLogicalRightImmAlt32 :: "Reg \<Rightarrow> Reg \<Rightarrow> u64 \<Rightarrow> Instance \<Rightarrow> mutation" where [mutator_defs]:
  "ShiftLogicalRightImmAlt32 dst regB val i = do { v \<leftarrow> sext (ucast (shr (ucast val :: u32) (unat (ucast (regs i regB) :: u32)) :: u32)) 4; setAndSkip dst v i }"

definition ShiftArithmeticRightImmAlt32 :: "Reg \<Rightarrow> Reg \<Rightarrow> u64 \<Rightarrow> Instance \<Rightarrow> mutation" where [mutator_defs]:
  "ShiftArithmeticRightImmAlt32 dst regB val i = setAndSkip dst (scast (sar (ucast val :: u32) (unat (ucast (regs i regB) :: u32)))) i"

definition CmovIfZeroImm :: "Reg \<Rightarrow> Reg \<Rightarrow> u64 \<Rightarrow> Instance \<Rightarrow> mutation" where [mutator_defs]:
  "CmovIfZeroImm dst c s i = skip (if regs i c = 0 then i\<lparr>regs := (regs i)(dst := s)\<rparr> else i)"

definition CmovIfNotZeroImm :: "Reg \<Rightarrow> Reg \<Rightarrow> u64 \<Rightarrow> Instance \<Rightarrow> mutation" where [mutator_defs]:
  "CmovIfNotZeroImm dst c s i = skip (if regs i c \<noteq> 0 then i\<lparr>regs := (regs i)(dst := s)\<rparr> else i)"

definition AddImm64 :: "Reg \<Rightarrow> Reg \<Rightarrow> u64 \<Rightarrow> Instance \<Rightarrow> mutation" where [mutator_defs]:
  "AddImm64 dst regA val i = setAndSkip dst (regs i regA + val) i"

definition MulImm64 :: "Reg \<Rightarrow> Reg \<Rightarrow> u64 \<Rightarrow> Instance \<Rightarrow> mutation" where [mutator_defs]:
  "MulImm64 dst regA val i = setAndSkip dst (regs i regA * val) i"

definition ShiftLogicalLeftImm64 :: "Reg \<Rightarrow> Reg \<Rightarrow> u64 \<Rightarrow> Instance \<Rightarrow> mutation" where [mutator_defs]:
  "ShiftLogicalLeftImm64 dst regA val i = do { v \<leftarrow> sext (shl (regs i regA) (unat val)) 8; setAndSkip dst v i }"

definition ShiftLogicalRightImm64 :: "Reg \<Rightarrow> Reg \<Rightarrow> u64 \<Rightarrow> Instance \<Rightarrow> mutation" where [mutator_defs]:
  "ShiftLogicalRightImm64 dst regA val i = do { v \<leftarrow> sext (shr (regs i regA) (unat val)) 8; setAndSkip dst v i }"

definition ShiftArithmeticRightImm64 :: "Reg \<Rightarrow> Reg \<Rightarrow> u64 \<Rightarrow> Instance \<Rightarrow> mutation" where [mutator_defs]:
  "ShiftArithmeticRightImm64 dst regA val i = setAndSkip dst (sar (regs i regA) (unat val)) i"

definition NegateAndAddImm64 :: "Reg \<Rightarrow> Reg \<Rightarrow> u64 \<Rightarrow> Instance \<Rightarrow> mutation" where [mutator_defs]:
  "NegateAndAddImm64 dst regA val i = setAndSkip dst (val - regs i regA) i"

definition ShiftLogicalLeftImmAlt64 :: "Reg \<Rightarrow> Reg \<Rightarrow> u64 \<Rightarrow> Instance \<Rightarrow> mutation" where [mutator_defs]:
  "ShiftLogicalLeftImmAlt64 dst regB val i = setAndSkip dst (shl val (unat (regs i regB))) i"

definition ShiftLogicalRightImmAlt64 :: "Reg \<Rightarrow> Reg \<Rightarrow> u64 \<Rightarrow> Instance \<Rightarrow> mutation" where [mutator_defs]:
  "ShiftLogicalRightImmAlt64 dst regB val i = setAndSkip dst (shr val (unat (regs i regB))) i"

definition ShiftArithmeticRightImmAlt64 :: "Reg \<Rightarrow> Reg \<Rightarrow> u64 \<Rightarrow> Instance \<Rightarrow> mutation" where [mutator_defs]:
  "ShiftArithmeticRightImmAlt64 dst regB val i = setAndSkip dst (scast (sar (ucast val :: u32) (unat (regs i regB)))) i"

definition RotateRight64Imm :: "Reg \<Rightarrow> Reg \<Rightarrow> u64 \<Rightarrow> Instance \<Rightarrow> mutation" where [mutator_defs]:
  "RotateRight64Imm dst regA val i = setAndSkip dst (bits_RotateLeft (regs i regA) (- val)) i"

definition RotateRight64ImmAlt :: "Reg \<Rightarrow> Reg \<Rightarrow> u64 \<Rightarrow> Instance \<Rightarrow> mutation" where [mutator_defs]:
  "RotateRight64ImmAlt dst regA val i = setAndSkip dst (bits_RotateLeft val (- regs i regA)) i"

definition RotateRight32Imm :: "Reg \<Rightarrow> Reg \<Rightarrow> u64 \<Rightarrow> Instance \<Rightarrow> mutation" where [mutator_defs]:
  "RotateRight32Imm dst regA val i = do { v \<leftarrow> sext (ucast (bits_RotateLeft (ucast (regs i regA) :: u32) (- val) :: u32)) 4; setAndSkip dst v i }"

definition RotateRight32ImmAlt :: "Reg \<Rightarrow> Reg \<Rightarrow> u64 \<Rightarrow> Instance \<Rightarrow> mutation" where [mutator_defs]:
  "RotateRight32ImmAlt dst regA val i = do { v \<leftarrow> sext (ucast (bits_RotateLeft (ucast val :: u32) (- ucast (ucast (regs i regA) :: u32)) :: u32)) 4; setAndSkip dst v i }"

section \<open>Two registers and one offset\<close>

definition BranchEq :: "Reg \<Rightarrow> Reg \<Rightarrow> u64 \<Rightarrow> Instance \<Rightarrow> fallible" where [mutator_defs]:
  "BranchEq regA regB target i = branch (regs i regA = regs i regB) target i"

definition BranchNotEq :: "Reg \<Rightarrow> Reg \<Rightarrow> u64 \<Rightarrow> Instance \<Rightarrow> fallible" where [mutator_defs]:
  "BranchNotEq regA regB target i = branch (regs i regA \<noteq> regs i regB) target i"

definition BranchLessUnsigned :: "Reg \<Rightarrow> Reg \<Rightarrow> u64 \<Rightarrow> Instance \<Rightarrow> fallible" where [mutator_defs]:
  "BranchLessUnsigned regA regB target i = branch (regs i regA < regs i regB) target i"

definition BranchLessSigned :: "Reg \<Rightarrow> Reg \<Rightarrow> u64 \<Rightarrow> Instance \<Rightarrow> fallible" where [mutator_defs]:
  "BranchLessSigned regA regB target i = branch (sint (regs i regA) < sint (regs i regB)) target i"

definition BranchGreaterOrEqualUnsigned :: "Reg \<Rightarrow> Reg \<Rightarrow> u64 \<Rightarrow> Instance \<Rightarrow> fallible" where [mutator_defs]:
  "BranchGreaterOrEqualUnsigned regA regB target i = branch (regs i regA \<ge> regs i regB) target i"

definition BranchGreaterOrEqualSigned :: "Reg \<Rightarrow> Reg \<Rightarrow> u64 \<Rightarrow> Instance \<Rightarrow> fallible" where [mutator_defs]:
  "BranchGreaterOrEqualSigned regA regB target i = branch (sint (regs i regA) \<ge> sint (regs i regB)) target i"

section \<open>Two registers and two immediates\<close>

definition LoadImmAndJumpIndirect :: "Reg \<Rightarrow> Reg \<Rightarrow> u64 \<Rightarrow> u64 \<Rightarrow> Instance \<Rightarrow> fallible" where [mutator_defs]:
  "LoadImmAndJumpIndirect ra base val offset i = 
     (let target = regs i base + offset in djump target (i\<lparr>regs := (regs i)(ra := val)\<rparr>))"

section \<open>Three registers\<close>

definition Add32 :: "Reg \<Rightarrow> Reg \<Rightarrow> Reg \<Rightarrow> Instance \<Rightarrow> mutation" where [mutator_defs]:
  "Add32 dst regA regB i = do { v \<leftarrow> sext (ucast (ucast (regs i regA + regs i regB) :: u32)) 4; setAndSkip dst v i }"

definition Sub32 :: "Reg \<Rightarrow> Reg \<Rightarrow> Reg \<Rightarrow> Instance \<Rightarrow> mutation" where [mutator_defs]:
  "Sub32 dst regA regB i = do { v \<leftarrow> sext (ucast (ucast (regs i regA - regs i regB) :: u32)) 4; setAndSkip dst v i }"

definition Mul32 :: "Reg \<Rightarrow> Reg \<Rightarrow> Reg \<Rightarrow> Instance \<Rightarrow> mutation" where [mutator_defs]:
  "Mul32 dst regA regB i = do { v \<leftarrow> sext (ucast (ucast (regs i regA * regs i regB) :: u32)) 4; setAndSkip dst v i }"

definition DivUnsigned32 :: "Reg \<Rightarrow> Reg \<Rightarrow> Reg \<Rightarrow> Instance \<Rightarrow> mutation" where [mutator_defs]:
  "DivUnsigned32 dst regA regB i = 
     (let lhs = ucast (regs i regA) :: u32; rhs = ucast (regs i regB) :: u32 in
      if rhs = 0 then skip (i\<lparr>regs := (regs i)(dst := 18446744073709551615)\<rparr>)
      else do { v \<leftarrow> sext (ucast (lhs div rhs)) 4; skip (i\<lparr>regs := (regs i)(dst := v)\<rparr>) })"

definition DivSigned32 :: "Reg \<Rightarrow> Reg \<Rightarrow> Reg \<Rightarrow> Instance \<Rightarrow> mutation" where [mutator_defs]:
  "DivSigned32 dst regA regB i = 
     (let lhs = ucast (regs i regA) :: u32; rhs = ucast (regs i regB) :: u32 in
      if rhs = 0 then skip (i\<lparr>regs := (regs i)(dst := 18446744073709551615)\<rparr>)
      else if sint lhs = - (2 ^ 31) \<and> sint rhs = - 1 then skip (i\<lparr>regs := (regs i)(dst := scast lhs)\<rparr>)
      else skip (i\<lparr>regs := (regs i)(dst := scast (word_of_int (go_quot (sint lhs) (sint rhs)) :: u32))\<rparr>))"

definition RemUnsigned32 :: "Reg \<Rightarrow> Reg \<Rightarrow> Reg \<Rightarrow> Instance \<Rightarrow> mutation" where [mutator_defs]:
  "RemUnsigned32 dst regA regB i = 
     (let lhs = ucast (regs i regA) :: u32; rhs = ucast (regs i regB) :: u32 in
      if rhs = 0 then do { v \<leftarrow> sext (ucast (lhs)) 4; skip (i\<lparr>regs := (regs i)(dst := v)\<rparr>) }
      else do { v \<leftarrow> sext (ucast (lhs mod rhs)) 4; skip (i\<lparr>regs := (regs i)(dst := v)\<rparr>) })"

definition RemSigned32 :: "Reg \<Rightarrow> Reg \<Rightarrow> Reg \<Rightarrow> Instance \<Rightarrow> mutation" where [mutator_defs]:
  "RemSigned32 dst regA regB i = 
     (let lhs = ucast (regs i regA) :: u32; rhs = ucast (regs i regB) :: u32 in
      if rhs = 0 then skip (i\<lparr>regs := (regs i)(dst := scast lhs)\<rparr>)
      else if sint lhs = - (2 ^ 31) \<and> sint rhs = - 1 then skip (i\<lparr>regs := (regs i)(dst := 0)\<rparr>)
      else skip (i\<lparr>regs := (regs i)(dst := scast (smod32 lhs rhs))\<rparr>))"

definition ShiftLogicalLeft32 :: "Reg \<Rightarrow> Reg \<Rightarrow> Reg \<Rightarrow> Instance \<Rightarrow> mutation" where [mutator_defs]:
  "ShiftLogicalLeft32 dst regA regB i = do { v \<leftarrow> sext (ucast (shl (ucast (regs i regA) :: u32) (unat ((ucast (regs i regB) :: u32) mod 32)) :: u32)) 4; setAndSkip dst v i }"

definition ShiftLogicalRight32 :: "Reg \<Rightarrow> Reg \<Rightarrow> Reg \<Rightarrow> Instance \<Rightarrow> mutation" where [mutator_defs]:
  "ShiftLogicalRight32 dst regA regB i = do { v \<leftarrow> sext (ucast (shr (ucast (regs i regA) :: u32) (unat ((ucast (regs i regB) :: u32) mod 32)) :: u32)) 4; setAndSkip dst v i }"

definition ShiftArithmeticRight32 :: "Reg \<Rightarrow> Reg \<Rightarrow> Reg \<Rightarrow> Instance \<Rightarrow> mutation" where [mutator_defs]:
  "ShiftArithmeticRight32 dst regA regB i = 
     (let shiftAmount = (ucast (regs i regB) :: u32) mod 32; shiftedValue = sar (ucast (regs i regA) :: u32) (unat shiftAmount)
      in setAndSkip dst (scast shiftedValue) i)"

definition Add64 :: "Reg \<Rightarrow> Reg \<Rightarrow> Reg \<Rightarrow> Instance \<Rightarrow> mutation" where [mutator_defs]:
  "Add64 dst regA regB i = setAndSkip dst (regs i regA + regs i regB) i"

definition Sub64 :: "Reg \<Rightarrow> Reg \<Rightarrow> Reg \<Rightarrow> Instance \<Rightarrow> mutation" where [mutator_defs]:
  "Sub64 dst regA regB i = setAndSkip dst (regs i regA - regs i regB) i"

definition Mul64 :: "Reg \<Rightarrow> Reg \<Rightarrow> Reg \<Rightarrow> Instance \<Rightarrow> mutation" where [mutator_defs]:
  "Mul64 dst regA regB i = setAndSkip dst (regs i regA * regs i regB) i"

definition DivUnsigned64 :: "Reg \<Rightarrow> Reg \<Rightarrow> Reg \<Rightarrow> Instance \<Rightarrow> mutation" where [mutator_defs]:
  "DivUnsigned64 dst regA regB i = 
     (let lhs = regs i regA; rhs = regs i regB in
      if rhs = 0 then skip (i\<lparr>regs := (regs i)(dst := 18446744073709551615)\<rparr>) else skip (i\<lparr>regs := (regs i)(dst := lhs div rhs)\<rparr>))"

definition DivSigned64 :: "Reg \<Rightarrow> Reg \<Rightarrow> Reg \<Rightarrow> Instance \<Rightarrow> mutation" where [mutator_defs]:
  "DivSigned64 dst regA regB i = 
     (let lhs = regs i regA; rhs = regs i regB in
      if rhs = 0 then skip (i\<lparr>regs := (regs i)(dst := 18446744073709551615)\<rparr>)
      else if sint lhs = - (2 ^ 63) \<and> sint rhs = - 1 then skip (i\<lparr>regs := (regs i)(dst := lhs)\<rparr>)
      else skip (i\<lparr>regs := (regs i)(dst := word_of_int (go_quot (sint lhs) (sint rhs)))\<rparr>))"

definition RemUnsigned64 :: "Reg \<Rightarrow> Reg \<Rightarrow> Reg \<Rightarrow> Instance \<Rightarrow> mutation" where [mutator_defs]:
  "RemUnsigned64 dst regA regB i = 
     (let lhs = regs i regA; rhs = regs i regB in
      if rhs = 0 then skip (i\<lparr>regs := (regs i)(dst := lhs)\<rparr>) else skip (i\<lparr>regs := (regs i)(dst := lhs mod rhs)\<rparr>))"

definition RemSigned64 :: "Reg \<Rightarrow> Reg \<Rightarrow> Reg \<Rightarrow> Instance \<Rightarrow> mutation" where [mutator_defs]:
  "RemSigned64 dst regA regB i = 
     (let lhs = regs i regA; rhs = regs i regB in
      if rhs = 0 then skip (i\<lparr>regs := (regs i)(dst := lhs)\<rparr>)
      else if sint lhs = - (2 ^ 31) \<and> sint rhs = - 1 then skip (i\<lparr>regs := (regs i)(dst := 0)\<rparr>)
      else skip (i\<lparr>regs := (regs i)(dst := smod64 lhs rhs)\<rparr>))"

definition ShiftLogicalLeft64 :: "Reg \<Rightarrow> Reg \<Rightarrow> Reg \<Rightarrow> Instance \<Rightarrow> mutation" where [mutator_defs]:
  "ShiftLogicalLeft64 dst regA regB i = 
     (let shiftAmount = regs i regB mod 64; shiftedValue = shl (regs i regA) (unat shiftAmount)
      in setAndSkip dst shiftedValue i)"

definition ShiftLogicalRight64 :: "Reg \<Rightarrow> Reg \<Rightarrow> Reg \<Rightarrow> Instance \<Rightarrow> mutation" where [mutator_defs]:
  "ShiftLogicalRight64 dst regA regB i = setAndSkip dst (shr (regs i regA) (unat (regs i regB mod 64))) i"

definition ShiftArithmeticRight64 :: "Reg \<Rightarrow> Reg \<Rightarrow> Reg \<Rightarrow> Instance \<Rightarrow> mutation" where [mutator_defs]:
  "ShiftArithmeticRight64 dst regA regB i = 
     (let shiftAmount = regs i regB mod 64; shiftedValue = sar (regs i regA) (unat shiftAmount)
      in setAndSkip dst shiftedValue i)"

definition And :: "Reg \<Rightarrow> Reg \<Rightarrow> Reg \<Rightarrow> Instance \<Rightarrow> mutation" where [mutator_defs]:
  "And dst regA regB i = setAndSkip dst (regs i regA AND regs i regB) i"

definition Xor :: "Reg \<Rightarrow> Reg \<Rightarrow> Reg \<Rightarrow> Instance \<Rightarrow> mutation" where [mutator_defs]:
  "Xor dst regA regB i = setAndSkip dst (regs i regA XOR regs i regB) i"

definition Or :: "Reg \<Rightarrow> Reg \<Rightarrow> Reg \<Rightarrow> Instance \<Rightarrow> mutation" where [mutator_defs]:
  "Or dst regA regB i = setAndSkip dst (regs i regA OR regs i regB) i"

text \<open>
  \<^verbatim>\<open>big.Int\<close> products are exact; \<^verbatim>\<open>Rsh\<close> rounds towards minus infinity, and \<^verbatim>\<open>Int64\<close> keeps the
  low 64 bits.
\<close>

definition MulUpperSignedSigned :: "Reg \<Rightarrow> Reg \<Rightarrow> Reg \<Rightarrow> Instance \<Rightarrow> mutation" where [mutator_defs]:
  "MulUpperSignedSigned dst regA regB i = 
     (let mul = sint (regs i regA) * sint (regs i regB) in setAndSkip dst (word_of_int (drop_bit 64 mul)) i)"

definition MulUpperUnsignedUnsigned :: "Reg \<Rightarrow> Reg \<Rightarrow> Reg \<Rightarrow> Instance \<Rightarrow> mutation" where [mutator_defs]:
  "MulUpperUnsignedUnsigned dst regA regB i = 
     (let mul = uint (regs i regA) * uint (regs i regB) in setAndSkip dst (word_of_int (drop_bit 64 mul)) i)"

definition MulUpperSignedUnsigned :: "Reg \<Rightarrow> Reg \<Rightarrow> Reg \<Rightarrow> Instance \<Rightarrow> mutation" where [mutator_defs]:
  "MulUpperSignedUnsigned dst regA regB i = 
     (let mul = sint (regs i regA) * uint (regs i regB) in setAndSkip dst (word_of_int (drop_bit 64 mul)) i)"

definition SetLessThanUnsigned :: "Reg \<Rightarrow> Reg \<Rightarrow> Reg \<Rightarrow> Instance \<Rightarrow> mutation" where [mutator_defs]:
  "SetLessThanUnsigned dst regA regB i = setAndSkip dst (bool2uint64 (regs i regA < regs i regB)) i"

definition SetLessThanSigned :: "Reg \<Rightarrow> Reg \<Rightarrow> Reg \<Rightarrow> Instance \<Rightarrow> mutation" where [mutator_defs]:
  "SetLessThanSigned dst regA regB i = setAndSkip dst (bool2uint64 (sint (ucast (regs i regA) :: u32) < sint (ucast (regs i regB) :: u32))) i"

definition CmovIfZero :: "Reg \<Rightarrow> Reg \<Rightarrow> Reg \<Rightarrow> Instance \<Rightarrow> mutation" where [mutator_defs]:
  "CmovIfZero dst s c i = skip (if regs i c = 0 then i\<lparr>regs := (regs i)(dst := regs i s)\<rparr> else i)"

definition CmovIfNotZero :: "Reg \<Rightarrow> Reg \<Rightarrow> Reg \<Rightarrow> Instance \<Rightarrow> mutation" where [mutator_defs]:
  "CmovIfNotZero dst s c i = skip (if regs i c \<noteq> 0 then i\<lparr>regs := (regs i)(dst := regs i s)\<rparr> else i)"

definition RotateLeft64 :: "Reg \<Rightarrow> Reg \<Rightarrow> Reg \<Rightarrow> Instance \<Rightarrow> mutation" where [mutator_defs]:
  "RotateLeft64 dst regA regB i = setAndSkip dst (bits_RotateLeft (regs i regA) (regs i regB)) i"

definition RotateLeft32 :: "Reg \<Rightarrow> Reg \<Rightarrow> Reg \<Rightarrow> Instance \<Rightarrow> mutation" where [mutator_defs]:
  "RotateLeft32 dst regA regB i = do { v \<leftarrow> sext (ucast (bits_RotateLeft (ucast (regs i regA) :: u32) (regs i regB) :: u32)) 4; setAndSkip dst v i }"

definition RotateRight64 :: "Reg \<Rightarrow> Reg \<Rightarrow> Reg \<Rightarrow> Instance \<Rightarrow> mutation" where [mutator_defs]:
  "RotateRight64 dst regA regB i = setAndSkip dst (bits_RotateLeft (regs i regA) (- regs i regB)) i"

definition RotateRight32 :: "Reg \<Rightarrow> Reg \<Rightarrow> Reg \<Rightarrow> Instance \<Rightarrow> mutation" where [mutator_defs]:
  "RotateRight32 dst regA regB i = do { v \<leftarrow> sext (ucast (bits_RotateLeft (ucast (regs i regA) :: u32) (- regs i regB) :: u32)) 4; setAndSkip dst v i }"

definition AndInverted :: "Reg \<Rightarrow> Reg \<Rightarrow> Reg \<Rightarrow> Instance \<Rightarrow> mutation" where [mutator_defs]:
  "AndInverted dst regA regB i = setAndSkip dst (regs i regA AND NOT (regs i regB)) i"

definition OrInverted :: "Reg \<Rightarrow> Reg \<Rightarrow> Reg \<Rightarrow> Instance \<Rightarrow> mutation" where [mutator_defs]:
  "OrInverted dst regA regB i = setAndSkip dst (regs i regA OR NOT (regs i regB)) i"

definition Xnor :: "Reg \<Rightarrow> Reg \<Rightarrow> Reg \<Rightarrow> Instance \<Rightarrow> mutation" where [mutator_defs]:
  "Xnor dst regA regB i = setAndSkip dst (NOT (regs i regA XOR regs i regB)) i"

definition Max_op :: "Reg \<Rightarrow> Reg \<Rightarrow> Reg \<Rightarrow> Instance \<Rightarrow> mutation" where [mutator_defs]:
  "Max_op dst regA regB i = setAndSkip dst (word_of_int (max (sint (regs i regA)) (sint (regs i regB)))) i"

definition MaxUnsigned :: "Reg \<Rightarrow> Reg \<Rightarrow> Reg \<Rightarrow> Instance \<Rightarrow> mutation" where [mutator_defs]:
  "MaxUnsigned dst regA regB i = setAndSkip dst (max (regs i regA) (regs i regB)) i"

definition Min_op :: "Reg \<Rightarrow> Reg \<Rightarrow> Reg \<Rightarrow> Instance \<Rightarrow> mutation" where [mutator_defs]:
  "Min_op dst regA regB i = setAndSkip dst (word_of_int (min (sint (regs i regA)) (sint (regs i regB)))) i"

definition MinUnsigned :: "Reg \<Rightarrow> Reg \<Rightarrow> Reg \<Rightarrow> Instance \<Rightarrow> mutation" where [mutator_defs]:
  "MinUnsigned dst regA regB i = setAndSkip dst (min (regs i regA) (regs i regB)) i"

end
