(* ===== verification/Pvm_Step.thy ===== *)
theory Pvm_Step
  imports Pvm_Mutations
begin

text \<open>
  One step of the interpreter (\<^verbatim>\<open>internal/polkavm/interpreter/step.go\<close>): the gas charge, the
  decoding of the arguments by the class of the opcode, and the dispatch to the instruction. Each
  inner \<^verbatim>\<open>switch opcode\<close> is a table from opcodes to methods.
\<close>

section \<open>Results\<close>

type_synonym step_result = "(u64 \<times> pvm_error option \<times> Instance) option"

text \<open>\<^verbatim>\<open>return 0, err\<close> for a call that returns an error, and for an error raised in place.\<close>

definition return0 :: "fallible \<Rightarrow> step_result" where
  "return0 r = map_option (Pair 0) r"

definition panicf :: "string \<Rightarrow> Instance \<Rightarrow> step_result" where
  "panicf msg i = Some (0, Some (ErrPanic msg), i)"

definition out_of_bound :: "Instance \<Rightarrow> step_result" where
  "out_of_bound i = panicf ''out of bound code access'' i"

definition unexpected :: "Instance \<Rightarrow> step_result" where
  "unexpected i = panicf ''unexpected opcode'' i"

text \<open>A call of a method without an error result, before \<^verbatim>\<open>return 0, nil\<close>.\<close>

definition void2 :: "('a \<Rightarrow> 'b \<Rightarrow> Instance \<Rightarrow> mutation) \<Rightarrow> 'a \<Rightarrow> 'b \<Rightarrow> Instance \<Rightarrow> fallible" where
  "void2 f x y i = no_error (f x y i)"

definition void3 :: "('a \<Rightarrow> 'b \<Rightarrow> 'c \<Rightarrow> Instance \<Rightarrow> mutation) \<Rightarrow> 'a \<Rightarrow> 'b \<Rightarrow> 'c \<Rightarrow> Instance \<Rightarrow> fallible" where
  "void3 f x y z i = no_error (f x y z i)"

text \<open>A switch with its default branch.\<close>

definition switch :: "(Opcode \<times> 'm) list \<Rightarrow> Opcode \<Rightarrow> Instance \<Rightarrow> ('m \<Rightarrow> fallible) \<Rightarrow> step_result" where
  "switch table opcode i call =
     (case map_of table opcode of None \<Rightarrow> unexpected i | Some f \<Rightarrow> return0 (call f))"

text \<open>
  \<^verbatim>\<open>jam.Unmarshal(i.code[from:to], &value)\<close> with the early return of its error.
\<close>

definition with_imm :: "u64 \<Rightarrow> u64 \<Rightarrow> Instance \<Rightarrow> (u64 \<Rightarrow> step_result) \<Rightarrow> step_result" where
  "with_imm from1 to1 i k =
     do {
       bs \<leftarrow> go_slice (code i) (unat from1) (unat to1);
       r \<leftarrow> unmarshal_int KUint64 bs;
       (case r of Inl err \<Rightarrow> Some (0, Some err, i) | Inr v \<Rightarrow> k v)
     }"

text \<open>\<^verbatim>\<open>uint64(min(4, max(0, int(skip)-n)))\<close>.\<close>

definition imm_length :: "u64 \<Rightarrow> int \<Rightarrow> u64" where
  "imm_length skip1 n = word_of_int (min 4 (max 0 (sint skip1 - n)))"

definition codeLength :: "Instance \<Rightarrow> u64" where
  "codeLength i = len64 (code i)"

section \<open>The inner switches\<close>

definition switch_Imm2 :: "(Opcode \<times> (u64 \<Rightarrow> u64 \<Rightarrow> Instance \<Rightarrow> fallible)) list" where
  "switch_Imm2 =
    [(op_StoreImmU8, StoreImmU8), (op_StoreImmU16, StoreImmU16), (op_StoreImmU32, StoreImmU32),
     (op_StoreImmU64, StoreImmU64)]"

definition switch_RegImm :: "(Opcode \<times> (Reg \<Rightarrow> u64 \<Rightarrow> Instance \<Rightarrow> fallible)) list" where
  "switch_RegImm =
    [(op_JumpIndirect, JumpIndirect), (op_LoadImm, void2 LoadImm), (op_LoadU8, LoadU8),
     (op_LoadI8, LoadI8), (op_LoadU16, LoadU16), (op_LoadI16, LoadI16), (op_LoadU32, LoadU32),
     (op_LoadI32, LoadI32), (op_LoadU64, LoadU64), (op_StoreU8, StoreU8),
     (op_StoreU16, StoreU16), (op_StoreU32, StoreU32), (op_StoreU64, StoreU64)]"

definition switch_RegImm2 :: "(Opcode \<times> (Reg \<Rightarrow> u64 \<Rightarrow> u64 \<Rightarrow> Instance \<Rightarrow> fallible)) list" where
  "switch_RegImm2 =
    [(op_StoreImmIndirectU8, StoreImmIndirectU8), (op_StoreImmIndirectU16, StoreImmIndirectU16),
     (op_StoreImmIndirectU32, StoreImmIndirectU32), (op_StoreImmIndirectU64, StoreImmIndirectU64)]"

definition switch_RegImmOffset :: "(Opcode \<times> (Reg \<Rightarrow> u64 \<Rightarrow> u64 \<Rightarrow> Instance \<Rightarrow> fallible)) list" where
  "switch_RegImmOffset =
    [(op_LoadImmAndJump, LoadImmAndJump), (op_BranchEqImm, BranchEqImm),
     (op_BranchNotEqImm, BranchNotEqImm), (op_BranchLessUnsignedImm, BranchLessUnsignedImm),
     (op_BranchLessOrEqualUnsignedImm, BranchLessOrEqualUnsignedImm),
     (op_BranchGreaterOrEqualUnsignedImm, BranchGreaterOrEqualUnsignedImm),
     (op_BranchGreaterUnsignedImm, BranchGreaterUnsignedImm),
     (op_BranchLessSignedImm, BranchLessSignedImm),
     (op_BranchLessOrEqualSignedImm, BranchLessOrEqualSignedImm),
     (op_BranchGreaterOrEqualSignedImm, BranchGreaterOrEqualSignedImm),
     (op_BranchGreaterSignedImm, BranchGreaterSignedImm)]"

definition switch_RegReg :: "(Opcode \<times> (Reg \<Rightarrow> Reg \<Rightarrow> Instance \<Rightarrow> fallible)) list" where
  "switch_RegReg =
    [(op_MoveReg, void2 MoveReg), (op_Sbrk, Sbrk), (op_CountSetBits64, void2 CountSetBits64),
     (op_CountSetBits32, void2 CountSetBits32), (op_LeadingZeroBits64, void2 LeadingZeroBits64),
     (op_LeadingZeroBits32, void2 LeadingZeroBits32),
     (op_TrailingZeroBits64, void2 TrailingZeroBits64),
     (op_TrailingZeroBits32, void2 TrailingZeroBits32), (op_SignExtend8, void2 SignExtend8),
     (op_SignExtend16, void2 SignExtend16), (op_ZeroExtend16, void2 ZeroExtend16),
     (op_ReverseBytes, void2 ReverseBytes)]"

definition switch_Reg2Imm :: "(Opcode \<times> (Reg \<Rightarrow> Reg \<Rightarrow> u64 \<Rightarrow> Instance \<Rightarrow> fallible)) list" where
  "switch_Reg2Imm =
    [(op_StoreIndirectU8, StoreIndirectU8), (op_StoreIndirectU16, StoreIndirectU16),
     (op_StoreIndirectU32, StoreIndirectU32), (op_StoreIndirectU64, StoreIndirectU64),
     (op_LoadIndirectU8, LoadIndirectU8), (op_LoadIndirectI8, LoadIndirectI8),
     (op_LoadIndirectU16, LoadIndirectU16), (op_LoadIndirectI16, LoadIndirectI16),
     (op_LoadIndirectU32, LoadIndirectU32), (op_LoadIndirectI32, LoadIndirectI32),
     (op_LoadIndirectU64, LoadIndirectU64), (op_AddImm32, void3 AddImm32),
     (op_AndImm, void3 AndImm), (op_XorImm, void3 XorImm), (op_OrImm, void3 OrImm),
     (op_MulImm32, void3 MulImm32), (op_SetLessThanUnsignedImm, void3 SetLessThanUnsignedImm),
     (op_SetLessThanSignedImm, void3 SetLessThanSignedImm),
     (op_ShiftLogicalLeftImm32, void3 ShiftLogicalLeftImm32),
     (op_ShiftLogicalRightImm32, void3 ShiftLogicalRightImm32),
     (op_ShiftArithmeticRightImm32, void3 ShiftArithmeticRightImm32),
     (op_NegateAndAddImm32, void3 NegateAndAddImm32),
     (op_SetGreaterThanUnsignedImm, void3 SetGreaterThanUnsignedImm),
     (op_SetGreaterThanSignedImm, void3 SetGreaterThanSignedImm),
     (op_ShiftLogicalLeftImmAlt32, void3 ShiftLogicalLeftImmAlt32),
     (op_ShiftArithmeticRightImmAlt32, void3 ShiftLogicalRightImmAlt32),
     (op_ShiftLogicalRightImmAlt32, void3 ShiftArithmeticRightImmAlt32),
     (op_CmovIfZeroImm, void3 CmovIfZeroImm), (op_CmovIfNotZeroImm, void3 CmovIfNotZeroImm),
     (op_AddImm64, void3 AddImm64), (op_MulImm64, void3 MulImm64),
     (op_ShiftLogicalLeftImm64, void3 ShiftLogicalLeftImm64),
     (op_ShiftLogicalRightImm64, void3 ShiftLogicalRightImm64),
     (op_ShiftArithmeticRightImm64, void3 ShiftArithmeticRightImm64),
     (op_NegateAndAddImm64, void3 NegateAndAddImm64),
     (op_ShiftLogicalLeftImmAlt64, void3 ShiftLogicalLeftImmAlt64),
     (op_ShiftLogicalRightImmAlt64, void3 ShiftLogicalRightImmAlt64),
     (op_ShiftArithmeticRightImmAlt64, void3 ShiftArithmeticRightImmAlt64),
     (op_RotR64Imm, void3 RotateRight64Imm), (op_RotR64ImmAlt, void3 RotateRight64ImmAlt),
     (op_RotR32Imm, void3 RotateRight32Imm), (op_RotR32ImmAlt, void3 RotateRight32ImmAlt)]"

definition switch_Reg2Offset :: "(Opcode \<times> (Reg \<Rightarrow> Reg \<Rightarrow> u64 \<Rightarrow> Instance \<Rightarrow> fallible)) list" where
  "switch_Reg2Offset =
    [(op_BranchEq, BranchEq), (op_BranchNotEq, BranchNotEq),
     (op_BranchLessUnsigned, BranchLessUnsigned), (op_BranchLessSigned, BranchLessSigned),
     (op_BranchGreaterOrEqualUnsigned, BranchGreaterOrEqualUnsigned),
     (op_BranchGreaterOrEqualSigned, BranchGreaterOrEqualSigned)]"

definition switch_Reg3 :: "(Opcode \<times> (Reg \<Rightarrow> Reg \<Rightarrow> Reg \<Rightarrow> Instance \<Rightarrow> fallible)) list" where
  "switch_Reg3 =
    [(op_Add32, void3 Add32), (op_Sub32, void3 Sub32), (op_Mul32, void3 Mul32),
     (op_DivUnsigned32, void3 DivUnsigned32), (op_DivSigned32, void3 DivSigned32),
     (op_RemUnsigned32, void3 RemUnsigned32), (op_RemSigned32, void3 RemSigned32),
     (op_ShiftLogicalLeft32, void3 ShiftLogicalLeft32),
     (op_ShiftLogicalRight32, void3 ShiftLogicalRight32),
     (op_ShiftArithmeticRight32, void3 ShiftArithmeticRight32), (op_Add64, void3 Add64),
     (op_Sub64, void3 Sub64), (op_Mul64, void3 Mul64), (op_DivUnsigned64, void3 DivUnsigned64),
     (op_DivSigned64, void3 DivSigned64), (op_RemUnsigned64, void3 RemUnsigned64),
     (op_RemSigned64, void3 RemSigned64), (op_ShiftLogicalLeft64, void3 ShiftLogicalLeft64),
     (op_ShiftLogicalRight64, void3 ShiftLogicalRight64),
     (op_ShiftArithmeticRight64, void3 ShiftArithmeticRight64), (op_And, void3 And),
     (op_Xor, void3 Xor), (op_Or, void3 Or),
     (op_MulUpperSignedSigned, void3 MulUpperSignedSigned),
     (op_MulUpperUnsignedUnsigned, void3 MulUpperUnsignedUnsigned),
     (op_MulUpperSignedUnsigned, void3 MulUpperSignedUnsigned),
     (op_SetLessThanUnsigned, void3 SetLessThanUnsigned),
     (op_SetLessThanSigned, void3 SetLessThanSigned), (op_CmovIfZero, void3 CmovIfZero),
     (op_CmovIfNotZero, void3 CmovIfNotZero), (op_RotL64, void3 RotateLeft64),
     (op_RotL32, void3 RotateLeft32), (op_RotR64, void3 RotateRight64),
     (op_RotR32, void3 RotateRight32), (op_AndInv, void3 AndInverted),
     (op_OrInv, void3 OrInverted), (op_Xnor, void3 Xnor), (op_Max, void3 Max_op),
     (op_MaxU, void3 MaxUnsigned), (op_Min, void3 Min_op), (op_MinU, void3 MinUnsigned)]"

section \<open>One handler per class of instructions\<close>

definition step_None :: "Opcode \<Rightarrow> Instance \<Rightarrow> step_result" where
  "step_None opcode i =
     (if opcode = op_Trap then return0 (Trap i)
      else if opcode = op_Fallthrough then return0 (no_error (Fallthrough i))
      else unexpected i)"

definition step_Imm :: "Opcode \<Rightarrow> u64 \<Rightarrow> Instance \<Rightarrow> step_result" where
  "step_Imm opcode skip1 i =
     (let ic = instructionCounter i; lenX = min 4 skip1 in
      if codeLength i < ic + 1 + lenX then out_of_bound i
      else with_imm (ic + 1) (ic + 1 + lenX) i (\<lambda>valueX. do {
        valueX \<leftarrow> sext valueX lenX;
        if opcode = op_Ecalli then Some (valueX, Some ErrHostCall, i) else unexpected i
      }))"

definition step_RegImmExt :: "Opcode \<Rightarrow> u64 \<Rightarrow> Instance \<Rightarrow> step_result" where
  "step_RegImmExt opcode skip1 i =
     (let ic = instructionCounter i in
      if codeLength i < ic + 10 then out_of_bound i
      else do {
        b \<leftarrow> go_index (code i) (unat (ic + 1));
        with_imm (ic + 2) (ic + 10) i (\<lambda>valueX.
          if opcode = op_LoadImm64 then return0 (no_error (LoadImm64 (to_Reg (b mod 16)) valueX i))
          else unexpected i)
      })"

definition step_Imm2 :: "Opcode \<Rightarrow> u64 \<Rightarrow> Instance \<Rightarrow> step_result" where
  "step_Imm2 opcode skip1 i =
     (let ic = instructionCounter i in
      if codeLength i < ic + 2 then out_of_bound i
      else do {
        b \<leftarrow> go_index (code i) (unat (ic + 1));
        let lenX = ucast (min 4 (b mod 8));
            lenY = imm_length skip1 (sint lenX + 1)
        in if codeLength i < ic + 2 + lenX + lenY then out_of_bound i
        else with_imm (ic + 2) (ic + 2 + lenX) i (\<lambda>valueX. do {
          valueX \<leftarrow> sext valueX lenX;
          with_imm (ic + 2 + lenX) (ic + 2 + lenX + lenY) i (\<lambda>valueY. do {
            valueY \<leftarrow> sext valueY lenY;
            switch switch_Imm2 opcode i (\<lambda>f. f valueX valueY i)
          })
        })
      })"

definition step_Offset :: "Opcode \<Rightarrow> u64 \<Rightarrow> Instance \<Rightarrow> step_result" where
  "step_Offset opcode skip1 i =
     (let ic = instructionCounter i; lenX = min 4 skip1 in
      if codeLength i < ic + 1 + lenX then out_of_bound i
      else with_imm (ic + 1) (ic + 1 + lenX) i (\<lambda>valueX. do {
        valueX \<leftarrow> sext valueX lenX;
        if opcode = op_Jump then return0 (Jump (ic + valueX) i) else unexpected i
      }))"

definition step_RegImm :: "Opcode \<Rightarrow> u64 \<Rightarrow> Instance \<Rightarrow> step_result" where
  "step_RegImm opcode skip1 i =
     (let ic = instructionCounter i; lenX = imm_length skip1 1 in
      if codeLength i < ic + 2 + lenX then out_of_bound i
      else do {
        b \<leftarrow> go_index (code i) (unat (ic + 1));
        with_imm (ic + 2) (ic + 2 + lenX) i (\<lambda>valueX. do {
          valueX \<leftarrow> sext valueX lenX;
          switch switch_RegImm opcode i (\<lambda>f. f (to_Reg (b mod 16)) valueX i)
        })
      })"

definition step_RegImm2 :: "Opcode \<Rightarrow> u64 \<Rightarrow> Instance \<Rightarrow> step_result" where
  "step_RegImm2 opcode skip1 i =
     (let ic = instructionCounter i in
      if codeLength i < ic + 2 then out_of_bound i
      else do {
        b \<leftarrow> go_index (code i) (unat (ic + 1));
        let lenX = ucast (min 4 (b div 16 mod 8));
            lenY = imm_length skip1 (sint lenX + 1)
        in if codeLength i < ic + 2 + lenX + lenY then out_of_bound i
        else with_imm (ic + 2) (ic + 2 + lenX) i (\<lambda>valueX. do {
          valueX \<leftarrow> sext valueX lenX;
          with_imm (ic + 2 + lenX) (ic + 2 + lenX + lenY) i (\<lambda>valueY. do {
            valueY \<leftarrow> sext valueY lenY;
            switch switch_RegImm2 opcode i (\<lambda>f. f (to_Reg (b mod 16)) valueX valueY i)
          })
        })
      })"

definition step_RegImmOffset :: "Opcode \<Rightarrow> u64 \<Rightarrow> Instance \<Rightarrow> step_result" where
  "step_RegImmOffset opcode skip1 i =
     (let ic = instructionCounter i in
      if codeLength i < ic + 2 then out_of_bound i
      else do {
        b \<leftarrow> go_index (code i) (unat (ic + 1));
        let lenX = ucast (min 4 (b div 16 mod 8));
            lenY = imm_length skip1 (sint lenX + 1)
        in if codeLength i < ic + 2 + lenX + lenY then out_of_bound i
        else with_imm (ic + 2) (ic + 2 + lenX) i (\<lambda>valueX. do {
          valueX \<leftarrow> sext valueX lenX;
          with_imm (ic + 2 + lenX) (ic + 2 + lenX + lenY) i (\<lambda>valueY. do {
            valueY \<leftarrow> sext valueY lenY;
            switch switch_RegImmOffset opcode i (\<lambda>f. f (to_Reg (b mod 16)) valueX (ic + valueY) i)
          })
        })
      })"

definition step_RegReg :: "Opcode \<Rightarrow> u64 \<Rightarrow> Instance \<Rightarrow> step_result" where
  "step_RegReg opcode skip1 i =
     (let ic = instructionCounter i in
      if codeLength i < ic + 1 then out_of_bound i
      else do {
        b \<leftarrow> go_index (code i) (unat (ic + 1));
        switch switch_RegReg opcode i (\<lambda>f. f (to_Reg (b mod 16)) (to_Reg (b div 16)) i)
      })"

definition step_Reg2Imm :: "Opcode \<Rightarrow> u64 \<Rightarrow> Instance \<Rightarrow> step_result" where
  "step_Reg2Imm opcode skip1 i =
     (let ic = instructionCounter i; lenX = imm_length skip1 1 in
      if codeLength i < ic + 2 + lenX then out_of_bound i
      else do {
        b \<leftarrow> go_index (code i) (unat (ic + 1));
        with_imm (ic + 2) (ic + 2 + lenX) i (\<lambda>valueX. do {
          valueX \<leftarrow> sext valueX lenX;
          switch switch_Reg2Imm opcode i (\<lambda>f. f (to_Reg (b mod 16)) (to_Reg (b div 16)) valueX i)
        })
      })"

definition step_Reg2Offset :: "Opcode \<Rightarrow> u64 \<Rightarrow> Instance \<Rightarrow> step_result" where
  "step_Reg2Offset opcode skip1 i =
     (let ic = instructionCounter i; lenX = imm_length skip1 1 in
      if codeLength i < ic + 2 + lenX then out_of_bound i
      else do {
        b \<leftarrow> go_index (code i) (unat (ic + 1));
        with_imm (ic + 2) (ic + 2 + lenX) i (\<lambda>valueX. do {
          valueX \<leftarrow> sext valueX lenX;
          switch switch_Reg2Offset opcode i (\<lambda>f. f (to_Reg (b mod 16)) (to_Reg (b div 16)) (ic + valueX) i)
        })
      })"

text \<open>Unlike every other immediate, the first one of this class is not sign-extended.\<close>

definition step_Reg2Imm2 :: "Opcode \<Rightarrow> u64 \<Rightarrow> Instance \<Rightarrow> step_result" where
  "step_Reg2Imm2 opcode skip1 i =
     (let ic = instructionCounter i in
      if codeLength i < ic + 3 then out_of_bound i
      else do {
        b \<leftarrow> go_index (code i) (unat (ic + 1));
        b2 \<leftarrow> go_index (code i) (unat (ic + 2));
        let lenX = ucast (min 4 (b2 mod 8));
            lenY = imm_length skip1 (sint lenX + 2)
        in if codeLength i < ic + 3 + lenX + lenY then out_of_bound i
        else with_imm (ic + 3) (ic + 3 + lenX) i (\<lambda>valueX.
          with_imm (ic + 3 + lenX) (ic + 3 + lenX + lenY) i (\<lambda>valueY. do {
            valueY \<leftarrow> sext valueY lenY;
            if opcode = op_LoadImmAndJumpIndirect
            then return0 (LoadImmAndJumpIndirect (to_Reg (b mod 16)) (to_Reg (b div 16)) valueX valueY i)
            else unexpected i
          }))
      })"

definition step_Reg3 :: "Opcode \<Rightarrow> u64 \<Rightarrow> Instance \<Rightarrow> step_result" where
  "step_Reg3 opcode skip1 i =
     (let ic = instructionCounter i in
      if codeLength i < ic + 2 then out_of_bound i
      else do {
        b \<leftarrow> go_index (code i) (unat (ic + 1));
        b2 \<leftarrow> go_index (code i) (unat (ic + 2));
        switch switch_Reg3 opcode i (\<lambda>f. f (to_Reg b2) (to_Reg (b mod 16)) (to_Reg (b div 16)) i)
      })"

section \<open>The step\<close>

definition step_switch :: "InstructionType \<Rightarrow> Opcode \<Rightarrow> u64 \<Rightarrow> Instance \<Rightarrow> step_result" where
  "step_switch t opcode skip1 i =
     (case t of
        InstrNone \<Rightarrow> step_None opcode i
      | InstrImm \<Rightarrow> step_Imm opcode skip1 i
      | InstrRegImmExt \<Rightarrow> step_RegImmExt opcode skip1 i
      | InstrImm2 \<Rightarrow> step_Imm2 opcode skip1 i
      | InstrOffset \<Rightarrow> step_Offset opcode skip1 i
      | InstrRegImm \<Rightarrow> step_RegImm opcode skip1 i
      | InstrRegImm2 \<Rightarrow> step_RegImm2 opcode skip1 i
      | InstrRegImmOffset \<Rightarrow> step_RegImmOffset opcode skip1 i
      | InstrRegReg \<Rightarrow> step_RegReg opcode skip1 i
      | InstrReg2Imm \<Rightarrow> step_Reg2Imm opcode skip1 i
      | InstrReg2Offset \<Rightarrow> step_Reg2Offset opcode skip1 i
      | InstrReg2Imm2 \<Rightarrow> step_Reg2Imm2 opcode skip1 i
      | InstrReg3 \<Rightarrow> step_Reg3 opcode skip1 i)"

definition step :: "Instance \<Rightarrow> step_result" where
  "step i =
     do {
       skip1 \<leftarrow> Skip (instructionCounter i) (bitmask i);
       opcode \<leftarrow> go_index (code i) (unat (instructionCounter i));
       (case deductGas (GasCosts opcode) i of
          (Some err, i) \<Rightarrow> Some (0, Some err, i)
        | (None, i) \<Rightarrow> step_switch (InstructionForType opcode) opcode skip1 i)
     }"

end
