(* ===== verification/Pvm_Invariants.thy ===== *)
theory Pvm_Invariants
  imports Pvm_Step
begin

section \<open>Well-formed instances\<close>

text \<open>
  What \<^verbatim>\<open>Instantiate\<close> establishes: code and mask have the same length and end with the appended
  trap, and every block start is an index of the code.
\<close>

definition wf_program :: "Instance \<Rightarrow> bool" where
  "wf_program i \<longleftrightarrow> code i \<noteq> [] \<and> length (bitmask i) = length (code i) \<and> length (code i) < 2 ^ 63 \<and>
     last (code i) = 0 \<and> last (bitmask i) \<and> (\<forall>b \<in> basicBlockInstructions i. unat b < length (code i))"

definition wf_instance :: "Instance \<Rightarrow> bool" where
  "wf_instance i \<longleftrightarrow> wf_program i \<and> unat (instructionCounter i) < length (code i)"

definition same_program :: "Instance \<Rightarrow> Instance \<Rightarrow> bool" where
  "same_program i i' \<longleftrightarrow> code i' = code i \<and> jumpTable i' = jumpTable i \<and> bitmask i' = bitmask i \<and>
     basicBlockInstructions i' = basicBlockInstructions i"

text \<open>
  What an instruction may do to the memory: segments keep their place and access mode, only the heap
  changes its size, and a segment that is not writeable keeps its contents (the heap is writeable).
\<close>

definition memory_evolves :: "Memory \<Rightarrow> Memory \<Rightarrow> bool" where
  "memory_evolves m m' \<longleftrightarrow> (\<forall>name.
     seg_address (get_segment m' name) = seg_address (get_segment m name) \<and>
     seg_access (get_segment m' name) = seg_access (get_segment m name) \<and>
     (name \<noteq> Rw \<longrightarrow> length (seg_data (get_segment m' name)) = length (seg_data (get_segment m name))) \<and>
     (name \<noteq> Rw \<and> seg_access (get_segment m name) \<noteq> ReadWrite \<longrightarrow> get_segment m' name = get_segment m name))"

definition evolves :: "Instance \<Rightarrow> Instance \<Rightarrow> bool" where
  "evolves i i' \<longleftrightarrow> same_program i i' \<and> gasRemaining i' = gasRemaining i \<and>
     memory_evolves (memory i) (memory i') \<and>
     (wf_program i \<and> unat (instructionCounter i) + 1 < length (code i) \<longrightarrow>
        unat (instructionCounter i') < length (code i))"

definition steady :: "Instance \<Rightarrow> mutation \<Rightarrow> bool" where
  "steady i r \<longleftrightarrow> (\<forall>i'. r = Some i' \<longrightarrow> evolves i i')"

definition steady_fallible :: "Instance \<Rightarrow> fallible \<Rightarrow> bool" where
  "steady_fallible i r \<longleftrightarrow> (\<forall>e i'. r = Some (e, i') \<longrightarrow> evolves i i' \<and> e \<noteq> Some ErrHostCall)"

definition steady_step :: "Instance \<Rightarrow> step_result \<Rightarrow> bool" where
  "steady_step i r \<longleftrightarrow>
     (\<forall>h e i'. r = Some (h, e, i') \<longrightarrow> evolves i i' \<and> (e = Some ErrHostCall \<longrightarrow> i' = i))"

text \<open>An error of the memory or of the codec: never the request of a host call.\<close>

definition plain_error :: "'a pvm_result \<Rightarrow> bool" where
  "plain_error r \<longleftrightarrow> r \<noteq> raise ErrHostCall"

named_theorems steady_simps \<open>decomposition of instructions into steady operations\<close>

section \<open>The primitive operations\<close>

lemma memory_evolves_refl [simp]: "memory_evolves m m"
  by (simp add: memory_evolves_def)

lemma evolves_refl [simp]: "evolves i i"
  by (simp add: evolves_def same_program_def)

lemma wf_program_update [simp]:
  "wf_program (i\<lparr>regs := r\<rparr>) = wf_program i" "wf_program (i\<lparr>memory := m\<rparr>) = wf_program i"
  "wf_program (i\<lparr>gasRemaining := g\<rparr>) = wf_program i" "wf_program (i\<lparr>instructionCounter := c\<rparr>) = wf_program i"
  by (simp_all add: wf_program_def)

lemma evolves_regs [simp]: "evolves (i\<lparr>regs := r\<rparr>) i' = evolves i i'"
  by (simp add: evolves_def same_program_def)

lemma evolves_memory: "memory_evolves (memory i) m \<Longrightarrow> evolves (i\<lparr>memory := m\<rparr>) i' \<Longrightarrow> memory i' = m \<Longrightarrow> evolves i i'"
  by (simp add: evolves_def same_program_def)

lemma takeWhile_last:
  assumes "bs \<noteq> []" "last bs"
  shows "length (takeWhile Not bs) < length bs"
proof (rule ccontr)
  assume "\<not> ?thesis"
  then have "takeWhile Not bs = bs"
    by (metis length_takeWhile_le linorder_neqE_nat not_less takeWhile_eq_take take_all_iff less_irrefl le_antisym)
  then show False using assms by (metis last_in_set set_takeWhileD)
qed

lemma Skip_in_range:
  assumes "wf_program i" "unat c + 1 < length (code i)"
  obtains s where "Skip c (bitmask i) = Some s" "unat (c + (1 + s)) < length (code i)"
proof -
  have len: "length (bitmask i) = length (code i)" "length (code i) < 2 ^ 63" "last (bitmask i)"
    using assms(1) by (simp_all add: wf_program_def)
  have c: "unat (c + 1) = unat c + 1"
    using assms(2) len(2) by (subst unat_add_small) simp_all
  define bs where "bs = drop (unat c + 1) (bitmask i)"
  define k where "k = length (takeWhile Not bs)"
  have bs: "bs \<noteq> []" "last bs" and lbs: "length bs = length (code i) - (unat c + 1)"
    using assms(2) len by (simp_all add: last_drop bs_def)
  have k: "k < length bs" using takeWhile_last[OF bs] by (simp add: k_def)
  define s where "s = min k BitmaskMax"
  have s: "unat c + 1 + s < length (code i)" and s24: "s \<le> 24"
    using k lbs by (simp_all add: s_def BitmaskMax_def)
  have sk: "Skip_loop 0 bs = of_nat s"
    using Skip_loop_spec[of 0 bs] k unfolding Let_def k_def[symmetric] s_def by (auto simp: min_def)
  have "unat (of_nat s :: u64) = s" using s24 by simp
  then have u1: "unat (1 + of_nat s :: u64) = 1 + s"
    using s24 by (subst unat_add_small) simp_all
  have "unat (c + (1 + of_nat s)) = unat c + 1 + s"
    using s len(2) u1 by (subst unat_add_small) simp_all
  moreover have "Skip c (bitmask i) = Some (of_nat s)"
    using assms(2) len(1) sk by (simp add: Skip_def go_slice_from_def c bs_def)
  ultimately show thesis using that s by simp
qed

lemma steady_skip [steady_simps]: "steady i (skip i)"
proof -
  have "evolves i i'" if sk: "skip i = Some i'" for i'
  proof -
    obtain s where s: "Skip (instructionCounter i) (bitmask i) = Some s"
      "i' = i\<lparr>instructionCounter := instructionCounter i + (1 + s)\<rparr>"
      using sk by (cases "Skip (instructionCounter i) (bitmask i)") (auto simp: skip_def)
    then show ?thesis
      using Skip_in_range[of i "instructionCounter i"] by (auto simp: evolves_def same_program_def)
  qed
  then show ?thesis by (simp add: steady_def)
qed

lemma steady_skip_regs [steady_simps]: "steady i (skip (i\<lparr>regs := r\<rparr>))"
  using steady_skip[of "i\<lparr>regs := r\<rparr>"] by (simp add: steady_def)

lemma skip_memory: "skip i = Some i' \<Longrightarrow> memory i' = memory i"
  by (cases "Skip (instructionCounter i) (bitmask i)") (auto simp: skip_def)

lemma steady_skip_memory:
  "memory_evolves (memory i) m \<Longrightarrow> steady i (skip (i\<lparr>memory := m\<rparr>))"
  using steady_skip[of "i\<lparr>memory := m\<rparr>"]
  by (auto simp: steady_def intro!: evolves_memory[of i m] dest: skip_memory)

lemma steady_setAndSkip [steady_simps]: "steady i (setAndSkip dst v i)"
  by (simp add: setAndSkip_def steady_simps)

lemma steady_bind [steady_simps]: "(\<And>v. steady i (f v)) \<Longrightarrow> steady i (Option.bind x f)"
  by (cases x) (auto simp: steady_def)

lemma steady_if [steady_simps]:
  "steady i (if b then r else s) \<longleftrightarrow> (b \<longrightarrow> steady i r) \<and> (\<not> b \<longrightarrow> steady i s)"
  by simp

lemma steady_no_error [steady_simps]: "steady_fallible i (no_error r) = steady i r"
  by (cases r) (auto simp: steady_def steady_fallible_def no_error_def)

lemma steady_None [steady_simps]: "steady i None" "steady_fallible i None"
  by (simp_all add: steady_def steady_fallible_def)

lemma steady_Some [steady_simps]: "steady_fallible i (Some (e, i)) \<longleftrightarrow> e \<noteq> Some ErrHostCall"
  by (simp add: steady_fallible_def)

lemma plain_error_simps [steady_simps]:
  "plain_error (ret x)" "plain_error None" "plain_error (raise e) \<longleftrightarrow> e \<noteq> ErrHostCall"
  by (simp_all add: plain_error_def)

lemma plain_error_bind [steady_simps]:
  "plain_error r \<Longrightarrow> (\<And>x. plain_error (f x)) \<Longrightarrow> plain_error (res_bind r f)"
  by (auto simp: plain_error_def res_bind_def split: option.splits sum.splits)

lemma plain_error_jam_lift [steady_simps]: "plain_error (jam_lift r)"
  by (auto simp: jam_lift_def plain_error_def split: option.split sum.split)

lemma plain_error_memory [steady_simps]:
  "plain_error (Memory_Read m a n)" "plain_error (Memory_Write m a d)"
  by (auto simp: Memory_Read_def Memory_Write_def Let_def plain_error_def page_fault_def
      split: option.splits if_splits)

lemma plain_error_int [steady_simps]: "plain_error (unmarshal_int k b)" "plain_error (marshal_int k v)"
  unfolding unmarshal_int_def marshal_int_def
  by (intro plain_error_bind plain_error_jam_lift) (simp split: jval.split add: steady_simps, rule plain_error_jam_lift)

lemma plain_error_load [steady_simps]: "plain_error (load a n k i)"
  unfolding load_def by (intro plain_error_bind steady_simps)

lemma steady_fallible_bind [steady_simps]: "(\<And>v. steady_fallible i (f v)) \<Longrightarrow> steady_fallible i (Option.bind x f)"
  by (cases x) (auto simp: steady_fallible_def)

lemma steady_fallible_if [steady_simps]:
  "steady_fallible i (if b then r else s) \<longleftrightarrow> (b \<longrightarrow> steady_fallible i r) \<and> (\<not> b \<longrightarrow> steady_fallible i s)"
  by simp

lemma steady_try_call [steady_simps]:
  "plain_error r \<Longrightarrow> (\<And>v. r = ret v \<Longrightarrow> steady i (k v)) \<Longrightarrow> steady_fallible i (try_call r i k)"
  by (auto simp: try_call_def steady_simps split: option.split sum.split)


lemma marshal_int_eq:
  "marshal_int KUint8 v = ret (serializeTrivialNatural v 1)"
  "marshal_int KUint16 v = ret (serializeTrivialNatural v 2)"
  "marshal_int KUint32 v = ret (serializeTrivialNatural v 4)"
  "marshal_int KUint64 v = ret (serializeTrivialNatural v 8)"
  by (simp_all add: marshal_int_def jam_lift_def Marshal_def marshal_switch_def encodeFixedWidth_def
      encodeFixedWidth_value_def)

lemma Memory_Write_evolves:
  assumes "Memory_Write m a d = ret m'" "length d < 2 ^ 64"
  shows "memory_evolves m m'"
  using Memory_Write_same_layout[OF assms] Memory_Write_protects[OF assms]
  by (simp add: memory_evolves_def same_layout_def)

lemma steady_store [steady_simps]:
  assumes "k \<in> {KUint8, KUint16, KUint32, KUint64}"
  shows "steady_fallible i (store a k v i)"
proof -
  obtain n where n: "marshal_int k v = ret (serializeTrivialNatural v n)" "n \<le> 8"
    using assms marshal_int_eq[of v] by force
  show ?thesis unfolding store_def
  proof (rule steady_try_call)
    show "plain_error (res_bind (marshal_int k v) (Memory_Write (memory i) a))"
      by (simp add: steady_simps)
    fix m assume "res_bind (marshal_int k v) (Memory_Write (memory i) a) = ret m"
    then show "steady i (skip (i\<lparr>memory := m\<rparr>))"
      using n by (intro steady_skip_memory Memory_Write_evolves[of _ a "serializeTrivialNatural v n"]) simp_all
  qed
qed

lemma evolves_jump: "c \<in> basicBlockInstructions i \<Longrightarrow> evolves i (i\<lparr>instructionCounter := c\<rparr>)"
  by (simp add: evolves_def same_program_def wf_program_def)

lemma evolves_then_jump:
  "evolves i i' \<Longrightarrow> c \<in> basicBlockInstructions i' \<Longrightarrow> evolves i (i'\<lparr>instructionCounter := c\<rparr>)"
  by (simp add: evolves_def same_program_def wf_program_def)

lemma steady_branch [steady_simps]: "steady_fallible i (branch b t i)"
  using steady_skip[of i] evolves_jump[of t i]
  by (cases "go_index (code i) (unat t)")
    (auto simp: branch_def steady_fallible_def steady_def no_error_def)

lemma steady_djump [steady_simps]: "steady_fallible i (djump a i)"
  by (auto simp: djump_def Let_def steady_fallible_def evolves_jump split: bind_split_asm if_splits)

lemma Sbrk_plain_error: "Memory_Sbrk m n \<noteq> Inl ErrHostCall"
  by (simp add: Memory_Sbrk_def Let_def)

lemma Sbrk_evolves:
  assumes "Memory_Sbrk m n = Inr (p, m')"
  shows "memory_evolves m m'"
proof -
  have "m' = m \<or> (\<exists>d. m' = set_segment m Rw ((get_segment m Rw)\<lparr>seg_data := d\<rparr>))"
    using assms by (auto simp: Memory_Sbrk_def Let_def split: if_splits)
  then show ?thesis
    by (auto simp: memory_evolves_def simp del: set_segment.simps get_segment.simps)
qed

lemma steady_Sbrk [steady_simps]: "steady_fallible i (Sbrk dst s i)"
proof -
  have "steady i (setAndSkip dst p (i\<lparr>memory := m\<rparr>))" if "memory_evolves (memory i) m" for p m
  proof -
    have "setAndSkip dst p (i\<lparr>memory := m\<rparr>) = skip (i\<lparr>regs := (regs i)(dst := p), memory := m\<rparr>)"
      by (cases i) (simp add: setAndSkip_def)
    then show ?thesis
      using steady_skip_memory[of "i\<lparr>regs := (regs i)(dst := p)\<rparr>" m] that
      by (simp add: steady_def)
  qed
  then show ?thesis
    by (auto simp: Sbrk_def steady_simps Sbrk_plain_error dest: Sbrk_evolves split: sum.split)
qed

lemma steady_LoadImmAndJump [steady_simps]: "steady_fallible i (LoadImmAndJump ra v t i)"
proof -
  have "evolves i i'' \<and> e \<noteq> Some ErrHostCall" if l: "LoadImm ra v i = Some i'" and j: "Jump t i' = Some (e, i'')" for i' e i''
  proof -
    have e: "evolves i i'" using l steady_setAndSkip[of i ra v] by (simp add: LoadImm_def steady_def)
    have "(i'' = i' \<or> i'' = i'\<lparr>instructionCounter := t\<rparr> \<and> t \<in> basicBlockInstructions i') \<and> e \<noteq> Some ErrHostCall"
      using j by (cases "go_index (code i') (unat t)") (auto simp: Jump_def branch_def split: if_splits)
    with e show ?thesis using evolves_then_jump by blast
  qed
  then show ?thesis
    by (cases "LoadImm ra v i") (auto simp: LoadImmAndJump_def steady_fallible_def)
qed

lemma steady_LoadImmAndJumpIndirect [steady_simps]: "steady_fallible i (LoadImmAndJumpIndirect ra b v o1 i)"
  using steady_djump[of "i\<lparr>regs := (regs i)(ra := v)\<rparr>"]
  by (simp add: LoadImmAndJumpIndirect_def Let_def steady_fallible_def)

section \<open>Every instruction is steady\<close>

lemmas switch_defs = switch_Imm2_def switch_RegImm_def switch_RegImm2_def switch_RegImmOffset_def
  switch_RegReg_def switch_Reg2Imm_def switch_Reg2Offset_def switch_Reg3_def

lemma steady_switch_Imm2: "f \<in> snd ` set switch_Imm2 \<Longrightarrow> steady_fallible i (f x y i)"
  by (auto simp: switch_Imm2_def mutator_defs steady_simps)


lemma steady_switch_RegImm: "f \<in> snd ` set switch_RegImm \<Longrightarrow> steady_fallible i (f x y i)"
  by (auto simp: switch_RegImm_def void2_def mutator_defs steady_simps)


lemma steady_switch_RegImm2: "f \<in> snd ` set switch_RegImm2 \<Longrightarrow> steady_fallible i (f x y z i)"
  by (auto simp: switch_RegImm2_def mutator_defs steady_simps)

lemma steady_switch_RegImmOffset: "f \<in> snd ` set switch_RegImmOffset \<Longrightarrow> steady_fallible i (f x y z i)"
  unfolding switch_RegImmOffset_def
  by (auto simp: mutator_defs steady_simps simp del: LoadImmAndJump_def)

lemma steady_switch_RegReg: "f \<in> snd ` set switch_RegReg \<Longrightarrow> steady_fallible i (f x y i)"
  by (auto simp: switch_RegReg_def void2_def mutator_defs steady_simps simp del: Sbrk_def)

lemma steady_switch_Reg2Imm: "f \<in> snd ` set switch_Reg2Imm \<Longrightarrow> steady_fallible i (f x y z i)"
  by (auto simp: switch_Reg2Imm_def void3_def mutator_defs steady_simps)

lemma steady_switch_Reg2Offset: "f \<in> snd ` set switch_Reg2Offset \<Longrightarrow> steady_fallible i (f x y z i)"
  by (auto simp: switch_Reg2Offset_def mutator_defs steady_simps)

lemma steady_switch_Reg3: "f \<in> snd ` set switch_Reg3 \<Longrightarrow> steady_fallible i (f x y z i)"
  by (auto simp: switch_Reg3_def void3_def mutator_defs steady_simps Let_def)


section \<open>Every step is steady\<close>

lemma steady_step_simps [steady_simps]:
  "steady_step i None"
  "steady_step i (Some (h, e, i))"
  "steady_step i (out_of_bound i)"
  "steady_step i (unexpected i)"
  "steady_fallible i r \<Longrightarrow> steady_step i (return0 r)"
  "steady_step i (if b then s else t) \<longleftrightarrow> (b \<longrightarrow> steady_step i s) \<and> (\<not> b \<longrightarrow> steady_step i t)"
  "(\<And>v. steady_step i (f v)) \<Longrightarrow> steady_step i (Option.bind x f)"
  by (auto simp: steady_step_def steady_fallible_def out_of_bound_def unexpected_def panicf_def return0_def
      bind_eq_Some_conv)

lemma steady_with_imm [steady_simps]: "(\<And>v. steady_step i (k v)) \<Longrightarrow> steady_step i (with_imm a b i k)"
  by (auto simp: with_imm_def steady_simps split: sum.split)

lemma steady_switch:
  "(\<And>f. f \<in> snd ` set table \<Longrightarrow> steady_fallible i (call f)) \<Longrightarrow> steady_step i (switch table opcode i call)"
  by (force simp: switch_def steady_simps split: option.split dest: map_of_SomeD)

lemma steady_switches [steady_simps]:
  "steady_step i (switch switch_Imm2 opcode i (\<lambda>f. f u v i))"
  "steady_step i (switch switch_RegImm opcode i (\<lambda>f. f x u i))"
  "steady_step i (switch switch_RegImm2 opcode i (\<lambda>f. f x u v i))"
  "steady_step i (switch switch_RegImmOffset opcode i (\<lambda>f. f x u v i))"
  "steady_step i (switch switch_RegReg opcode i (\<lambda>f. f x y i))"
  "steady_step i (switch switch_Reg2Imm opcode i (\<lambda>f. f x y u i))"
  "steady_step i (switch switch_Reg2Offset opcode i (\<lambda>f. f x y u i))"
  "steady_step i (switch switch_Reg3 opcode i (\<lambda>f. f x y z i))"
  by (rule steady_switch; intro steady_switch_Imm2 steady_switch_RegImm steady_switch_RegImm2
      steady_switch_RegImmOffset steady_switch_RegReg steady_switch_Reg2Imm steady_switch_Reg2Offset
      steady_switch_Reg3; assumption)+

lemmas step_class_defs = step_None_def step_Imm_def step_RegImmExt_def step_Imm2_def step_Offset_def
  step_RegImm_def step_RegImm2_def step_RegImmOffset_def step_RegReg_def step_Reg2Imm_def
  step_Reg2Offset_def step_Reg2Imm2_def step_Reg3_def

lemma steady_step_switch: "steady_step i (step_switch t opcode s i)"
  by (cases t) (simp_all add: step_switch_def step_class_defs Let_def steady_simps Trap_def Fallthrough_def LoadImm64_def Jump_def)


lemma steady_stepD:
  assumes "steady_step i r" "r = Some (h, e, i')"
  shows "evolves i i'" "e = Some ErrHostCall \<Longrightarrow> i' = i"
  using assms by (simp_all add: steady_step_def)

lemma step_cases:
  assumes "step i = Some (h, e, i')"
  obtains (out_of_gas) "e = Some ErrOutOfGas" "i' = i"
  | (executed) opcode s where "go_index (code i) (unat (instructionCounter i)) = Some opcode"
      "sint (GasCosts opcode) \<le> sint (gasRemaining i)"
      "step_switch (InstructionForType opcode) opcode s (i\<lparr>gasRemaining := gasRemaining i - GasCosts opcode\<rparr>) = Some (h, e, i')"
proof -
  obtain s opcode where s: "Skip (instructionCounter i) (bitmask i) = Some s"
    and o: "go_index (code i) (unat (instructionCounter i)) = Some opcode"
    using assms by (auto simp: step_def bind_eq_Some_conv)
  with assms have r: "(case deductGas (GasCosts opcode) i of
          (Some err, i) \<Rightarrow> Some (0, Some err, i)
        | (None, i) \<Rightarrow> step_switch (InstructionForType opcode) opcode s i) = Some (h, e, i')"
    by (simp add: step_def)
  show thesis
  proof (cases "sint (gasRemaining i) < sint (GasCosts opcode)")
    case True
    with r show thesis by (intro out_of_gas) (simp_all add: deductGas_def)
  next
    case False
    with r o show thesis by (intro executed) (simp_all add: deductGas_def)
  qed
qed

lemma sint_minus_1:
  assumes "1 \<le> sint (g :: i64)"
  shows "sint (g - 1) = sint g - 1"
proof -
  have "sint g < 2 ^ 63" using sint_lt[of g] by simp
  then have "signed_take_bit 63 (sint g - 1) = sint g - 1"
    using assms by (intro signed_take_bit_int_eq_self) simp_all
  then show ?thesis by (simp add: sint_word_ariths)
qed

text \<open>A step never adds gas, takes at most one unit, and takes exactly one when it goes on.\<close>

lemma step_gas:
  assumes "step i = Some (h, e, i')"
  shows "gasRemaining i' = gasRemaining i \<and> e \<noteq> None \<or>
    1 \<le> sint (gasRemaining i) \<and> sint (gasRemaining i') = sint (gasRemaining i) - 1"
  using assms
proof (cases rule: step_cases)
  case (executed opcode s)
  then have ev: "gasRemaining i' = gasRemaining i - GasCosts opcode"
    using steady_step_switch[of "i\<lparr>gasRemaining := gasRemaining i - GasCosts opcode\<rparr>"]
    by (simp add: steady_step_def evolves_def)
  show ?thesis
  proof (cases opcode rule: GasCosts_cases)
    case 1
    then show ?thesis using executed(2) ev sint_minus_1[of "gasRemaining i"] by simp
  next
    case 2
    then show ?thesis using executed(3) ev
      by (auto simp: step_switch_def step_None_def unexpected_def panicf_def)
  qed
qed simp

lemma step_evolves:
  assumes "step i = Some (h, e, i')"
  shows "same_program i i'" "memory_evolves (memory i) (memory i')"
  using assms
  by (cases rule: step_cases; use steady_step_switch in \<open>force simp: steady_step_def evolves_def same_program_def\<close>)+


lemma same_program_wf: "same_program i i' \<Longrightarrow> wf_program i' = wf_program i"
  by (simp add: same_program_def wf_program_def)

lemma InstructionForType_Trap: "InstructionForType 0 = InstrNone"
  by (simp add: InstructionForType_def init_types_def instr_lists)

text \<open>The counter stays inside the code, also when the step ends with an error.\<close>

lemma step_wf:
  assumes wf: "wf_instance i" and st: "step i = Some (h, e, i')"
  shows "wf_instance i'" and "e = Some ErrHostCall \<Longrightarrow> unat (instructionCounter i') + 1 < length (code i')"
proof -
  have p: "wf_program i'" "code i' = code i"
    using wf same_program_wf[OF step_evolves(1)[OF st]] step_evolves(1)[OF st]
    by (simp_all add: wf_instance_def same_program_def)
  have "unat (instructionCounter i') < length (code i) \<and>
      (e = Some ErrHostCall \<longrightarrow> unat (instructionCounter i') + 1 < length (code i))"
    using st
  proof (cases rule: step_cases)
    case out_of_gas
    then show ?thesis using wf by (simp add: wf_instance_def)
  next
    case (executed opcode s)
    let ?i = "i\<lparr>gasRemaining := gasRemaining i - GasCosts opcode\<rparr>"
    note ev = steady_stepD[OF steady_step_switch executed(3)]
    show ?thesis
    proof (cases "unat (instructionCounter i) + 1 < length (code i)")
      case True
      moreover have "unat (instructionCounter i') < length (code i)"
        using ev(1) wf True by (simp add: evolves_def wf_instance_def)
      moreover have "e = Some ErrHostCall \<Longrightarrow> instructionCounter i' = instructionCounter i"
        using ev(2) by (cases i) simp
      ultimately show ?thesis by simp
    next
      case False
      then have "unat (instructionCounter i) = length (code i) - 1"
        using wf unfolding wf_instance_def by linarith
      then have "opcode = 0"
        using executed(1) wf by (auto simp: go_facts wf_instance_def wf_program_def last_conv_nth)
      then have "e = Some (ErrPanic ''explicit trap'')" "i' = ?i"
        using executed(3) by (simp_all add: step_switch_def InstructionForType_Trap step_None_def Trap_def return0_def)
      then show ?thesis using wf by (simp add: wf_instance_def)
    qed
  qed
  then show "wf_instance i'" and "e = Some ErrHostCall \<Longrightarrow> unat (instructionCounter i') + 1 < length (code i')"
    using p by (simp_all add: wf_instance_def)
qed

section \<open>Instantiation\<close>

lemma Skip_bound:
  assumes "n < length k" "length k < 2 ^ 63"
  obtains s where "Skip (of_nat n) k = Some s" "unat (of_nat n + 1 + s :: u64) \<le> length k"
proof -
  define bs where "bs = drop (n + 1) k"
  have n1: "unat (of_nat n + 1 :: u64) = n + 1"
    using assms by (subst unat_add_small) simp_all
  define t where "t = length (takeWhile Not bs)"
  define s where "s = (if t < length bs \<and> t \<le> BitmaskMax then t else if BitmaskMax + 1 < length bs then BitmaskMax else 0)"
  have s: "Skip_loop 0 bs = of_nat s" "s \<le> length bs" "s \<le> 24"
    using Skip_loop_spec[of 0 bs] by (simp_all add: Let_def t_def[symmetric] s_def BitmaskMax_def)
  have "unat (of_nat s :: u64) = s" using s(3) by simp
  then have "unat (of_nat n + 1 + of_nat s :: u64) = n + 1 + s"
    using assms s n1 by (subst unat_add_small) simp_all
  moreover have "Skip (of_nat n) k = Some (of_nat s)"
    using assms n1 s by (simp add: Skip_def go_slice_from_def bs_def)
  ultimately show thesis using that s(2) assms by (simp add: bs_def)
qed

lemma block_starts_bound:
  assumes "length c = length k" "length k < 2 ^ 63" "n + length bs = length k" "\<forall>b \<in> blocks. unat b \<le> length k"
  shows "\<exists>r. block_starts c k n bs blocks = Some r \<and> (\<forall>b \<in> r. unat b \<le> length k)"
  using assms(3,4)
proof (induction bs arbitrary: n blocks)
  case (Cons b bs)
  then have n: "n < length k" by simp
  obtain s where s: "Skip (of_nat n) k = Some s" "unat (of_nat n + 1 + s :: u64) \<le> length k"
    using Skip_bound[OF n assms(2)] .
  have o: "go_index c n = Some (c ! n)" using n assms(1) by (simp add: go_index_def)
  show ?case using Cons s by (simp add: o)
qed simp


lemma decode_bytes_length:
  assumes "decode_bytes n buf = ret (b, rest)"
  shows "length b = unat n" "unat n < 2 ^ 32"
proof -
  have "\<not> MaxUint32 < n"
    using assms by (auto simp: decode_bytes_def DecodeFixedLength_def jam_lift_def decodeBytesFixedLength_def)
  then show "unat n < 2 ^ 32" by (simp add: MaxUint32_def word_less_nat_alt not_less)
  show "length b = unat n"
    using assms by (auto simp: decode_bytes_def DecodeFixedLength_def jam_lift_def decodeBytesFixedLength_def
        res_bind_ret_iff br_Read_def buffer_Read_def word_neq_0_conv[symmetric] unat_eq_0 split: if_splits option.splits sum.splits)
qed

lemma Deblob_lengths:
  assumes "Deblob p = ret (c, k, j)"
  shows "length k = length c" "length c < 2 ^ 32"
proof -
  obtain n buf rest bits where "decode_bytes n buf = ret (c, rest)" "go_slice bits 0 (unat n) = Some k"
    using assms by (auto simp: Deblob_def res_bind_ret_iff split: if_splits option.splits)
  then show "length k = length c" "length c < 2 ^ 32"
    using decode_bytes_length[of n buf c rest] by (simp_all add: go_facts)
qed

lemma Instantiate_wf:
  assumes "Instantiate p off g r m = ret i"
  shows "wf_program i"
proof -
  obtain c k j blocks where d: "Deblob p = ret (c, k, j)" and b: "block_starts c k 0 k {0} = Some blocks"
    and i: "i = \<lparr>memory = m, regs = r, instructionCounter = off, gasRemaining = g,
            code = c @ [0], jumpTable = j, bitmask = k @ [True], basicBlockInstructions = blocks\<rparr>"
    using assms by (auto simp: Instantiate_def res_bind_ret_iff split: option.splits)
  note len = Deblob_lengths[OF d]
  have "\<forall>b \<in> blocks. unat b \<le> length k"
    using block_starts_bound[of c k 0 k "{0}"] len b by simp
  then show ?thesis using len by (auto simp: i wf_program_def)
qed

lemma Instantiate_total: "Deblob p = ret (c, k, j) \<Longrightarrow> \<exists>i. Instantiate p off g r m = ret i"
  using Deblob_lengths[of p c k j] block_starts_bound[of c k 0 k "{0}"] by (auto simp: Instantiate_def)

end
