(* ===== verification/Pvm_Invocation.thy ===== *)
theory Pvm_Invocation
  imports Pvm_Invariants
begin

text \<open>
  The invocation loops (\<^verbatim>\<open>internal/polkavm/interpreter/invocations.go\<close>): \<^verbatim>\<open>Invoke\<close> runs steps until
  an error, \<^verbatim>\<open>InvokeHostCall\<close> serves host calls in between, and \<^verbatim>\<open>InvokeWholeProgram\<close> sets up a
  program and reads its result.

  Both loops are \<^verbatim>\<open>for {}\<close> in the source. The outer \<open>None\<close> of their models means that the loop runs
  forever, the inner one a run-time panic.
\<close>

section \<open>The loops\<close>

partial_function (option) Invoke :: "Instance \<Rightarrow> (u64 \<times> pvm_error \<times> Instance) option option" where
  "Invoke i =
     (case step i of
        None \<Rightarrow> Some None
      | Some (hostCall, Some err, i') \<Rightarrow> Some (Some (hostCall, err, i'))
      | Some (hostCall, None, i') \<Rightarrow> Invoke i')"

text \<open>A host function: what it returns, with its error; \<open>None\<close> is a run-time panic inside it.\<close>

type_synonym 'x HostCall =
  "u64 \<Rightarrow> Gas \<Rightarrow> Registers \<Rightarrow> Memory \<Rightarrow> 'x \<Rightarrow> (Gas \<times> Registers \<times> Memory \<times> 'x \<times> pvm_error option) option"

partial_function (option) InvokeHostCall ::
  "'x HostCall \<Rightarrow> Instance \<Rightarrow> 'x \<Rightarrow> ('x \<times> pvm_error option \<times> Instance) option option" where
  "InvokeHostCall hostCall i x =
     do {
       r \<leftarrow> Invoke i;
       (case r of
          None \<Rightarrow> Some None
        | Some (hostCallIndex, err, i) \<Rightarrow>
            if err = ErrHostCall then
              (case hostCall hostCallIndex (gasRemaining i) (regs i) (memory i) x of
                 None \<Rightarrow> Some None
               | Some (g, rs, m, x, Some err) \<Rightarrow>
                   Some (Some (x, Some err, i\<lparr>gasRemaining := g, regs := rs, memory := m\<rparr>))
               | Some (g, rs, m, x, None) \<Rightarrow>
                   (case skip (i\<lparr>gasRemaining := g, regs := rs, memory := m\<rparr>) of
                      None \<Rightarrow> Some None
                    | Some i \<Rightarrow> InvokeHostCall hostCall i x))
            else Some (Some (x, None, i)))
     }"

definition Results :: "Instance \<Rightarrow> u64 \<times> Gas \<times> Registers \<times> Memory" where
  "Results i = (instructionCounter i, gasRemaining i, regs i, memory i)"

text \<open>
  The message of an \<^verbatim>\<open>ErrPanicf(err.Error())\<close> is left out. On every error path the original
  context is returned, with no gas and no result. What the context refers to, the maps that a
  host function updates in place, is the second component of the loop's context: it is not
  restored.
\<close>

definition InvokeWholeProgram ::
  "bytes \<Rightarrow> u64 \<Rightarrow> u64 \<Rightarrow> bytes \<Rightarrow> ('x \<times> 'h) HostCall \<Rightarrow> 'x \<Rightarrow> 'h \<Rightarrow>
    (Gas \<times> bytes \<times> 'x \<times> 'h \<times> pvm_error option) option option" where
  "InvokeWholeProgram p entryPoint initialGas args hostFunc x h =
     (case ParseBlob p of
        None \<Rightarrow> Some None
      | Some (Inl err) \<Rightarrow> Some (Some (0, [], x, h, Some (ErrPanic [])))
      | Some (Inr program) \<Rightarrow>
          (case InitializeStandardProgram program args of
             Inl err \<Rightarrow> Some (Some (0, [], x, h, Some (ErrPanic [])))
           | Inr (ram, rs) \<Rightarrow>
               (case Instantiate (CodeAndJumpTable program) entryPoint initialGas rs ram of
                  None \<Rightarrow> Some None
                | Some (Inl err) \<Rightarrow> Some (Some (0, [], x, h, Some (ErrPanic [])))
                | Some (Inr i) \<Rightarrow>
                    do {
                      r \<leftarrow> InvokeHostCall hostFunc i (x, h);
                      (case r of
                         None \<Rightarrow> Some None
                       | Some ((x1, h1), Some err, i) \<Rightarrow> Some (Some (0, [], x, h1, Some err))
                       | Some ((x1, h1), None, i) \<Rightarrow>
                           (case Results i of
                              (ic, g, rs, memory1) \<Rightarrow>
                                if \<not> make_ok 1 (rs A0) then Some None
                                else
                                  (case Memory_Read memory1 (rs A1) (unat (rs A0)) of
                                     None \<Rightarrow> Some None
                                   | Some (Inl err) \<Rightarrow> Some (Some (0, [], x, h1, Some err))
                                   | Some (Inr res) \<Rightarrow> Some (Some (g, res, x1, h1, None)))))
                    })))"

section \<open>Loops that a measure bounds\<close>

text \<open>
  A loop over a state: one pass crashes, leaves with a result, or goes on. \<open>reaches\<close> is the
  transition relation of the passes that go on.
\<close>

inductive reaches :: "('s \<Rightarrow> ('r + 's) option) \<Rightarrow> 's \<Rightarrow> 's \<Rightarrow> bool" for body where
  reaches_refl: "reaches body s s"
| reaches_step: "body s = Some (Inr t) \<Longrightarrow> reaches body t u \<Longrightarrow> reaches body s u"

lemma reaches_invariant:
  "reaches body s t \<Longrightarrow> P s \<Longrightarrow> (\<And>s t. P s \<Longrightarrow> body s = Some (Inr t) \<Longrightarrow> P t) \<Longrightarrow> P t"
  by (induction rule: reaches.induct) auto

locale bounded_loop =
  fixes body :: "'s \<Rightarrow> ('r + 's) option"
    and run :: "'s \<Rightarrow> 'r option option"
    and meas :: "'s \<Rightarrow> nat"
  assumes run_unfold: "run s =
      (case body s of None \<Rightarrow> Some None | Some (Inl r) \<Rightarrow> Some (Some r) | Some (Inr t) \<Rightarrow> run t)"
    and decreases: "body s = Some (Inr t) \<Longrightarrow> meas t < meas s"
begin

lemma run_returns: "\<exists>r. run s = Some r"
proof (induction s rule: measure_induct_rule[of meas])
  case (less s)
  show ?case
  proof (cases "\<exists>t. body s = Some (Inr t)")
    case True
    then show ?thesis using less decreases run_unfold[of s] by auto
  next
    case False
    then show ?thesis using run_unfold[of s] by (auto split: option.split sum.split)
  qed
qed

lemma run_reaches: "run s = Some (Some r) \<Longrightarrow> \<exists>t. reaches body s t \<and> body t = Some (Inl r)"
proof (induction s rule: measure_induct_rule[of meas])
  case (less s)
  show ?case
  proof (cases "\<exists>t. body s = Some (Inr t)")
    case True
    then obtain t where t: "body s = Some (Inr t)" by blast
    then obtain u where "reaches body t u" "body u = Some (Inl r)"
      using less.IH[of t] less.prems decreases run_unfold[of s] by auto
    then show ?thesis using t reaches_step by metis
  next
    case False
    then have "body s = Some (Inl r)"
      using less.prems run_unfold[of s] by (auto split: option.splits sum.splits)
    then show ?thesis using reaches_refl by metis
  qed
qed

lemma reaches_run: "reaches body s t \<Longrightarrow> run t = run s"
  by (induction rule: reaches.induct) (simp_all add: run_unfold)

lemma run_iff_reaches: "run s = Some (Some r) \<longleftrightarrow> (\<exists>t. reaches body s t \<and> body t = Some (Inl r))"
  using run_reaches reaches_run run_unfold by (metis option.case(2) sum.case(1))

lemma run_steps_bounded: "reaches body s t \<Longrightarrow> meas t \<le> meas s"
  by (induction rule: reaches.induct) (auto dest: decreases)

end

section \<open>The loop of steps\<close>

definition Invoke_body :: "Instance \<Rightarrow> (u64 \<times> pvm_error \<times> Instance + Instance) option" where
  "Invoke_body i =
     (case step i of
        None \<Rightarrow> None
      | Some (hostCall, Some err, i') \<Rightarrow> Some (Inl (hostCall, err, i'))
      | Some (hostCall, None, i') \<Rightarrow> Some (Inr i'))"

lemma Invoke_body_simps:
  "Invoke_body i = Some (Inr i') \<longleftrightarrow> (\<exists>h. step i = Some (h, None, i'))"
  "Invoke_body i = Some (Inl (h, err, i')) \<longleftrightarrow> step i = Some (h, Some err, i')"
  by (auto simp: Invoke_body_def split: option.splits prod.splits)

interpretation steps: bounded_loop Invoke_body Invoke "\<lambda>i. nat (sint (gasRemaining i))"
proof
  show "Invoke i = (case Invoke_body i of None \<Rightarrow> Some None | Some (Inl r) \<Rightarrow> Some (Some r)
      | Some (Inr t) \<Rightarrow> Invoke t)" for i
    by (subst Invoke.simps) (simp add: Invoke_body_def split: option.split prod.split)
  show "nat (sint (gasRemaining i')) < nat (sint (gasRemaining i))" if "Invoke_body i = Some (Inr i')" for i i'
    using that step_gas[of i _ None i'] by (auto simp: Invoke_body_simps)
qed


lemma step_host_call:
  assumes "step i = Some (h, Some ErrHostCall, i')"
  shows "1 \<le> sint (gasRemaining i)" "sint (gasRemaining i') = sint (gasRemaining i) - 1"
proof -
  have "1 \<le> sint (gasRemaining i) \<and> sint (gasRemaining i') = sint (gasRemaining i) - 1"
    using assms
  proof (cases rule: step_cases)
    case (executed opcode s)
    show ?thesis
    proof (cases opcode rule: GasCosts_cases)
      case 1
      then have "gasRemaining i' = gasRemaining i - 1"
        using steady_stepD(1)[OF steady_step_switch executed(3)] by (simp add: evolves_def)
      then show ?thesis using executed(2) 1 sint_minus_1[of "gasRemaining i"] by simp
    next
      case 2
      then show ?thesis using executed(3)
        by (auto simp: step_switch_def step_None_def unexpected_def panicf_def)
    qed
  qed simp
  then show "1 \<le> sint (gasRemaining i)" "sint (gasRemaining i') = sint (gasRemaining i) - 1" by simp_all
qed

lemma reaches_gas: "reaches Invoke_body i t \<Longrightarrow> sint (gasRemaining t) \<le> sint (gasRemaining i)"
proof (induction rule: reaches.induct)
  case (reaches_step s t u)
  then show ?case using step_gas[of s _ None t] by (auto simp: Invoke_body_simps)
qed simp

lemma Invoke_last_step:
  assumes "Invoke i = Some (Some (h, err, i'))"
  obtains t where "reaches Invoke_body i t" "step t = Some (h, Some err, i')"
  using steps.run_reaches[OF assms] by (auto simp: Invoke_body_simps)

lemma Invoke_host_call_gas:
  assumes "Invoke i = Some (Some (h, ErrHostCall, i'))"
  shows "0 \<le> sint (gasRemaining i')" "sint (gasRemaining i') < sint (gasRemaining i)"
proof -
  obtain t where t: "reaches Invoke_body i t" "step t = Some (h, Some ErrHostCall, i')"
    by (rule Invoke_last_step[OF assms])
  show "0 \<le> sint (gasRemaining i')" "sint (gasRemaining i') < sint (gasRemaining i)"
    using step_host_call[OF t(2)] reaches_gas[OF t(1)] by linarith+
qed

section \<open>The loop of host calls\<close>

definition host_body ::
  "'x HostCall \<Rightarrow> Instance \<times> 'x \<Rightarrow> (('x \<times> pvm_error option \<times> Instance) + (Instance \<times> 'x)) option" where
  "host_body hostCall s =
     (case s of (i, x) \<Rightarrow>
        (case Invoke i of
           Some (Some (hostCallIndex, err, i)) \<Rightarrow>
             if err = ErrHostCall then
               (case hostCall hostCallIndex (gasRemaining i) (regs i) (memory i) x of
                  None \<Rightarrow> None
                | Some (g, rs, m, x, Some err) \<Rightarrow> Some (Inl (x, Some err, i\<lparr>gasRemaining := g, regs := rs, memory := m\<rparr>))
                | Some (g, rs, m, x, None) \<Rightarrow>
                    map_option (\<lambda>i. Inr (i, x)) (skip (i\<lparr>gasRemaining := g, regs := rs, memory := m\<rparr>)))
             else Some (Inl (x, None, i))
         | _ \<Rightarrow> None))"

text \<open>What the loop needs of a host function to end: a call that succeeds does not hand out gas.\<close>

locale gas_host =
  fixes hostCall :: "'x HostCall"
  assumes host_gas: "\<lbrakk>hostCall n g rs m x = Some (g', rs', m', x', None); 0 \<le> sint g\<rbrakk> \<Longrightarrow> sint g' \<le> sint g"
begin

lemma host_body_unfold:
  "(case s of (i, x) \<Rightarrow> InvokeHostCall hostCall i x) =
   (case host_body hostCall s of None \<Rightarrow> Some None | Some (Inl r) \<Rightarrow> Some (Some r)
    | Some (Inr t) \<Rightarrow> (case t of (i, x) \<Rightarrow> InvokeHostCall hostCall i x))"
proof (cases s)
  case (Pair i x)
  obtain r where "Invoke i = Some r" using steps.run_returns by blast
  then show ?thesis unfolding Pair prod.case
    by (subst InvokeHostCall.simps) (auto simp: host_body_def split: option.split prod.split)
qed

lemma host_body_gas:
  assumes "host_body hostCall (i, x) = Some (Inr (i', x'))"
  shows "nat (sint (gasRemaining i')) < nat (sint (gasRemaining i))"
proof -
  obtain h i1 g rs m where inv: "Invoke i = Some (Some (h, ErrHostCall, i1))"
    and hc: "hostCall h (gasRemaining i1) (regs i1) (memory i1) x = Some (g, rs, m, x', None)"
    and sk: "skip (i1\<lparr>gasRemaining := g, regs := rs, memory := m\<rparr>) = Some i'"
    using assms by (auto simp: host_body_def split: option.splits prod.splits if_splits)
  have "gasRemaining i' = g"
    using sk steady_skip[of "i1\<lparr>gasRemaining := g, regs := rs, memory := m\<rparr>"]
    by (simp add: steady_def evolves_def)
  then show ?thesis
    using host_gas[OF hc] Invoke_host_call_gas[OF inv] by simp
qed

end

sublocale gas_host \<subseteq> calls: bounded_loop "host_body hostCall"
  "\<lambda>(i, x). InvokeHostCall hostCall i x" "\<lambda>(i, x). nat (sint (gasRemaining i))"
  by unfold_locales (rule host_body_unfold, use host_body_gas in \<open>auto split: prod.split\<close>)

context gas_host
begin

lemma InvokeHostCall_returns: "\<exists>r. InvokeHostCall hostCall i x = Some r"
  using calls.run_returns [of "(i, x)"] by simp

end

section \<open>Whole runs\<close>

lemma memory_evolves_trans: "memory_evolves a b \<Longrightarrow> memory_evolves b c \<Longrightarrow> memory_evolves a c"
  unfolding memory_evolves_def by metis

lemma same_program_trans: "same_program a b \<Longrightarrow> same_program b c \<Longrightarrow> same_program a c"
  by (simp add: same_program_def)

lemma reaches_evolves:
  assumes "reaches Invoke_body i t" "wf_instance i"
  shows "wf_instance t" "same_program i t" "memory_evolves (memory i) (memory t)"
proof -
  let ?P = "\<lambda>t. wf_instance t \<and> same_program i t \<and> memory_evolves (memory i) (memory t)"
  have "?P t"
  proof (rule reaches_invariant[OF assms(1)])
    show "?P i" using assms(2) by (simp add: same_program_def)
    fix s u assume s: "?P s" "Invoke_body s = Some (Inr u)"
    then obtain h where h: "step s = Some (h, None, u)" by (auto simp: Invoke_body_simps)
    show "?P u"
      using s(1) step_wf(1)[OF _ h] step_evolves[OF h] memory_evolves_trans same_program_trans by blast
  qed
  then show "wf_instance t" "same_program i t" "memory_evolves (memory i) (memory t)" by simp_all
qed

section \<open>Example machines\<close>

text \<open>Small machines on which the properties below are exercised.\<close>

definition demo_memory :: Memory where
  "demo_memory = InitializeCustomMemory 65536 131072 196608 262144 4 8 4 4"

definition demo_instance :: "bytes \<Rightarrow> bool list \<Rightarrow> Gas \<Rightarrow> Instance" where
  "demo_instance c k g = \<lparr>memory = demo_memory, regs = (\<lambda>_. 0), instructionCounter = 0, gasRemaining = g,
     code = c @ [0], jumpTable = [], bitmask = k @ [True], basicBlockInstructions = {0}\<rparr>"

lemma demo_add: "\<exists>i'. step (demo_instance [51, 7, 5] [True, False, False] 5) = Some (0, None, i')"
proof -
  have "map_option (\<lambda>(h, e, i). (h, e)) (step (demo_instance [51, 7, 5] [True, False, False] 5)) = Some (0, None)"
    by code_simp
  then show ?thesis by auto
qed

lemma GasCosts_Trap: "GasCosts 0 = 1"
  using GasCosts_cases[of 0 "GasCosts 0 = 1"] by blast

lemma demo_trap:
  assumes "1 \<le> sint g"
  shows "Invoke (demo_instance [] [] g) = Some (Some (0, ErrPanic ''explicit trap'', demo_instance [] [] (g - 1)))"
proof -
  let ?i = "demo_instance [] [] g"
  have "Skip (instructionCounter ?i) (bitmask ?i) = Some 0"
    by (simp add: demo_instance_def Skip_def go_slice_from_def)
  moreover have "go_index (code ?i) (unat (instructionCounter ?i)) = Some 0"
    by (simp add: demo_instance_def go_index_def)
  moreover have "deductGas 1 ?i = (None, demo_instance [] [] (g - 1))"
    using assms by (simp add: deductGas_def demo_instance_def)
  ultimately have "step ?i = Some (0, Some (ErrPanic ''explicit trap''), demo_instance [] [] (g - 1))"
    by (simp add: step_def GasCosts_Trap step_switch_def InstructionForType_Trap step_None_def Trap_def return0_def)
  then show ?thesis by (subst Invoke.simps) simp
qed

section \<open>Properties\<close>

text \<open>
  C2: \<^bold>\<open>every invocation ends.\<close> From any state at all, the loop of \<^verbatim>\<open>Invoke\<close> is left after finitely many
  steps: each step that goes on costs one unit of gas.
\<close>
theorem Invoke_terminates: "\<exists>r. Invoke i = Some r"
  by (rule steps.run_returns)


text \<open>
  C28: \<^bold>\<open>gas is metered.\<close> A step that goes on takes exactly one unit, no step adds gas, and the counter
  does not become negative.
\<close>
theorem step_gas_metering:
  assumes "step i = Some (h, e, i')"
  shows "(e = None \<longrightarrow> sint (gasRemaining i') = sint (gasRemaining i) - 1) \<and>
    sint (gasRemaining i') \<le> sint (gasRemaining i) \<and>
    (0 \<le> sint (gasRemaining i) \<longrightarrow> 0 \<le> sint (gasRemaining i'))"
  using step_gas[OF assms] by auto

theorem step_gas_metering_witness:
  "\<exists>i'. step (demo_instance [51, 7, 5] [True, False, False] 5) = Some (0, None, i') \<and>
     sint (gasRemaining i') = sint (gasRemaining (demo_instance [51, 7, 5] [True, False, False] 5)) - 1"
proof -
  obtain i' where st: "step (demo_instance [51, 7, 5] [True, False, False] 5) = Some (0, None, i')"
    using demo_add by blast
  show ?thesis using step_gas_metering[OF st] st by blast
qed

text \<open>
  C3: \<^bold>\<open>a run keeps the machine well-formed and the program and protected memory intact.\<close> From a
  well-formed instance, the instruction counter of the final state is inside the code; code, mask, jump
  table and block starts are those of the start; no segment moves or changes its access, and a segment
  other than the heap that is not writeable keeps its contents.
\<close>
theorem Invoke_preserves_machine:
  assumes "wf_instance i" "Invoke i = Some (Some (h, err, i'))"
  shows "wf_instance i' \<and> same_program i i' \<and> memory_evolves (memory i) (memory i')"
proof -
  obtain t where t: "reaches Invoke_body i t" "step t = Some (h, Some err, i')"
    by (rule Invoke_last_step[OF assms(2)])
  show ?thesis
    using reaches_evolves[OF t(1) assms(1)] step_wf(1)[OF _ t(2)] step_evolves[OF t(2)]
      memory_evolves_trans same_program_trans by blast
qed

theorem Invoke_preserves_machine_witness:
  "wf_instance (demo_instance [] [] 5) \<and>
   (\<exists>i'. Invoke (demo_instance [] [] 5) = Some (Some (0, ErrPanic ''explicit trap'', i')) \<and> wf_instance i')"
proof -
  have wf: "wf_instance (demo_instance [] [] 5)"
    by (simp add: demo_instance_def wf_instance_def wf_program_def)
  have run: "Invoke (demo_instance [] [] 5) = Some (Some (0, ErrPanic ''explicit trap'', demo_instance [] [] (5 - 1)))"
    by (rule demo_trap) simp
  show ?thesis using Invoke_preserves_machine[OF wf run] wf run by blast
qed

text \<open>
  C32: \<^bold>\<open>instantiation establishes the invariant.\<close> Whatever the blob, an instance that \<^verbatim>\<open>Instantiate\<close>
  returns has a well-formed program, and instantiation cannot crash once the blob has been decoded.
\<close>
theorem Instantiate_well_formed:
  "(Instantiate p off g rs m = ret i \<longrightarrow> wf_program i) \<and>
   (Deblob p = ret (c, k, j) \<longrightarrow> (\<exists>i. Instantiate p off g rs m = ret i))"
  using Instantiate_wf Instantiate_total by blast

theorem Instantiate_well_formed_witness:
  "\<exists>i. Instantiate (code_blob [] 0 [0] [True]) 0 5 (\<lambda>_. 0) demo_memory = ret i \<and> wf_program i"
proof -
  have d: "Deblob (code_blob [] 0 [0] [True]) = ret ([0], [True], [])"
    by (rule Deblob_blob) simp_all
  show ?thesis
    using Instantiate_well_formed[of "code_blob [] 0 [0] [True]" 0 5 "\<lambda>_. 0" demo_memory] d by blast
qed

text \<open>
  \<^bold>\<open>The host-call loop swallows every error of the machine.\<close> When the run ends by a trap, a page
  fault or exhausted gas, \<^verbatim>\<open>InvokeHostCall\<close> returns no error: its caller takes the run for a halt.
\<close>
theorem InvokeHostCall_drops_error:
  assumes "Invoke i = Some (Some (h, err, i'))" "err \<noteq> ErrHostCall"
  shows "InvokeHostCall hostCall i x = Some (Some (x, None, i'))"
  using assms by (subst InvokeHostCall.simps) simp

theorem InvokeHostCall_drops_error_witness:
  "InvokeHostCall (\<lambda>n g rs m x. None) (demo_instance [] [] 5) () = Some (Some ((), None, demo_instance [] [] (5 - 1)))"
  by (rule InvokeHostCall_drops_error[OF demo_trap]) simp_all

text \<open>
  \<^bold>\<open>a three-register opcode in the last octet of the code crashes the interpreter.\<close> The guard asks for
  one octet after the opcode where two are read: the second is behind the appended trap.
\<close>
theorem step_Reg3_at_end_crashes:
  assumes "wf_instance i" "unat (instructionCounter i) + 2 = length (code i)"
    and "InstructionForType (code i ! unat (instructionCounter i)) = InstrReg3" "1 \<le> sint (gasRemaining i)"
  shows "step i = None"
proof -
  let ?ic = "instructionCounter i"
  let ?op = "code i ! unat ?ic"
  have len: "length (code i) < 2 ^ 63" and wp: "wf_program i"
    using assms(1) by (simp_all add: wf_instance_def wf_program_def)
  obtain s where s: "Skip ?ic (bitmask i) = Some s"
    using Skip_in_range[OF wp, of ?ic] assms(2) by auto
  have cost: "GasCosts ?op = 1"
    using assms(3) by (cases ?op rule: GasCosts_cases) auto
  have ic2: "unat (?ic + 2) = unat ?ic + 2"
    using assms(2) len by (subst unat_add_small) simp_all
  have "codeLength i = ?ic + 2"
    using assms(2) len ic2 by (simp add: codeLength_def word_unat_eq_iff)
  moreover have "go_index (code i) (unat (?ic + 2)) = None"
    using assms(2) ic2 by (simp add: go_facts)
  ultimately have "step_Reg3 ?op s (i\<lparr>gasRemaining := gasRemaining i - 1\<rparr>) = None"
    by (cases "go_index (code i) (unat (?ic + 1))") (simp_all add: step_Reg3_def Let_def codeLength_def)
  then show ?thesis
    using s assms(2-4) cost by (simp add: step_def go_index_def deductGas_def step_switch_def)
qed

theorem step_Reg3_at_end_crashes_witness:
  "wf_instance (demo_instance [190] [True] 5) \<and> step (demo_instance [190] [True] 5) = None"
proof -
  have wf: "wf_instance (demo_instance [190] [True] 5)"
    by (simp add: demo_instance_def wf_instance_def wf_program_def)
  have ty: "InstructionForType 190 = InstrReg3"
    by (simp add: InstructionForType_def init_types_def instr_lists)
  show ?thesis
    using step_Reg3_at_end_crashes[OF wf] wf by (simp add: demo_instance_def ty)
qed

text \<open>
  \<^bold>\<open>A taken branch out of the code crashes the interpreter.\<close> The message of the panic reads the opcode at
  the target, so that a target behind the code is an index out of range instead of a panic of the machine.
\<close>
theorem branch_out_of_code_crashes:
  assumes "wf_program i" "length (code i) \<le> unat target"
  shows "branch True target i = None"
proof -
  have "target \<notin> basicBlockInstructions i"
    using assms by (auto simp: wf_program_def)
  then show ?thesis using assms(2) by (simp add: branch_def go_index_def)
qed

theorem branch_out_of_code_crashes_witness:
  "branch True 18446744073709551615 (demo_instance [40, 255] [True, False] 5) = None"
  by (rule branch_out_of_code_crashes) (simp_all add: demo_instance_def wf_program_def)

text \<open>
  \<^bold>\<open>Indirect jumps.\<close> \<^verbatim>\<open>djump\<close> never crashes. It halts at the return address, panics at zero, at an odd
  address, behind the table and at an entry that is not a block start, and goes to the entry otherwise.
\<close>
theorem djump_behaviour:
  "djump a i =
     (let n = unat a mod 2 ^ 32 in
      if n = 2 ^ 32 - 2 ^ 16 then Some (Some ErrHalt, i)
      else if n = 0 \<or> n mod 2 = 1 \<or> 2 * length (jumpTable i) < n
        then Some (Some (ErrPanic ''indirect jump to address invalid''), i)
      else if jumpTable i ! (n div 2 - 1) \<in> basicBlockInstructions i
        then Some (None, i\<lparr>instructionCounter := jumpTable i ! (n div 2 - 1)\<rparr>)
      else Some (Some (ErrPanic ''indirect jump to address is non block-termination instruction''), i))"
proof -
  define w where "w = (ucast a :: u32)"
  define n where "n = unat a mod 2 ^ 32"
  have wn: "unat w = n" by (simp add: w_def n_def unsigned_ucast_eq take_bit_eq_mod)
  have h: "w = ucast AddressReturnToHost \<longleftrightarrow> n = 2 ^ 32 - 2 ^ 16"
    by (simp add: word_unat_eq_iff wn layout_constants unsigned_ucast_eq take_bit_eq_mod)
  have z: "w = 0 \<longleftrightarrow> n = 0" by (simp add: word_unat_eq_iff wn)
  have o: "w mod 2 \<noteq> 0 \<longleftrightarrow> odd n"
    by (simp add: word_unat_eq_iff unat_mod wn odd_iff_mod_2_eq_one)
  have d: "unat (w div 2 - 1) = n div 2 - 1" if "n \<noteq> 0" "even n"
  proof -
    have "1 \<le> unat (w div 2)" using that wn by (auto simp: unat_div)
    then show ?thesis by (subst unat_sub) (simp_all add: word_le_nat_alt unat_div wn)
  qed
  show ?thesis
    unfolding djump_def Let_def w_def[symmetric] n_def[symmetric] DynamicAddressAlignment_def
    using h z o d wn by (auto simp: go_index_def odd_iff_mod_2_eq_one)
qed

end
