(* ===== verification/Pvm_Alu.thy ===== *)
theory Pvm_Alu
  imports Pvm_Invocation
begin

text \<open>
  The arithmetic of the virtual machine against its specification. The reference definitions
  are the formulas of the comments in \<^verbatim>\<open>internal/polkavm/interpreter/mutations.go\<close>, over
  unbounded integers; the instructions of \<open>Pvm_Mutations\<close> compute on machine words. Both
  tables of arithmetic instructions, on three registers and on two registers and an immediate,
  are compared line by line.
\<close>

section \<open>Reference arithmetic\<close>

text \<open>
  \<open>X n\<close> extends the sign of a number of \<open>n\<close> octets to a register; \<open>Z n\<close> reads such a
  number as a signed one, and \<open>Z_inv n\<close> is its inverse; \<open>smod\<close> is the signed remainder (eq. A.32).
  A register value is its unsigned integer throughout.
\<close>

definition X :: "nat \<Rightarrow> int \<Rightarrow> int" where
  "X n x = x + x div 2 ^ (8 * n - 1) * (2 ^ 64 - 2 ^ (8 * n))"

definition Z :: "nat \<Rightarrow> int \<Rightarrow> int" where
  "Z n a = (if a < 2 ^ (8 * n - 1) then a else a - 2 ^ (8 * n))"

definition Z_inv :: "nat \<Rightarrow> int \<Rightarrow> int" where
  "Z_inv n a = (2 ^ (8 * n) + a) mod 2 ^ (8 * n)"

definition smod :: "int \<Rightarrow> int \<Rightarrow> int" where
  "smod a b = (if b = 0 then a else sgn a * (\<bar>a\<bar> mod \<bar>b\<bar>))"

text \<open>
  The quotient of the signed divisions, rounded towards zero.
\<close>

definition quotient :: "int \<Rightarrow> int \<Rightarrow> int" where
  "quotient a b = sgn a * sgn b * (\<bar>a\<bar> div \<bar>b\<bar>)"

text \<open>
  A number given by its bits, for the formulas that are stated bit by bit.
\<close>

definition of_bits :: "nat \<Rightarrow> (nat \<Rightarrow> bool) \<Rightarrow> int" where
  "of_bits n p = horner_sum of_bool 2 (map p [0..<n])"

definition rotated_left :: "nat \<Rightarrow> int \<Rightarrow> int \<Rightarrow> int" where
  "rotated_left n a k = of_bits n (\<lambda>j. bit a (nat ((int j - k) mod int n)))"

definition rotated_right :: "nat \<Rightarrow> int \<Rightarrow> int \<Rightarrow> int" where
  "rotated_right n a k = of_bits n (\<lambda>i. bit a (nat ((int i + k) mod int n)))"

text \<open>
  One line per instruction on three registers, the formula of the comment above its method:
  the new value of the destination from its old value and the two operands.
\<close>

definition reference_Reg3 :: "(Opcode \<times> (int \<Rightarrow> int \<Rightarrow> int \<Rightarrow> int)) list" where
  "reference_Reg3 =
    [(op_Add32, \<lambda>d a b. X 4 ((a + b) mod 2 ^ 32)),
     (op_Sub32, \<lambda>d a b. X 4 ((a + 2 ^ 32 - b mod 2 ^ 32) mod 2 ^ 32)),
     (op_Mul32, \<lambda>d a b. X 4 ((a * b) mod 2 ^ 32)),
     (op_DivUnsigned32, \<lambda>d a b. if b mod 2 ^ 32 = 0 then 2 ^ 64 - 1
        else X 4 ((a mod 2 ^ 32) div (b mod 2 ^ 32))),
     (op_DivSigned32, \<lambda>d a b. let a = Z 4 (a mod 2 ^ 32); b = Z 4 (b mod 2 ^ 32) in
        if b = 0 then 2 ^ 64 - 1 else if a = - (2 ^ 31) \<and> b = - 1 then Z_inv 8 a
        else Z_inv 8 (quotient a b)),
     (op_RemUnsigned32, \<lambda>d a b. if b mod 2 ^ 32 = 0 then X 4 (a mod 2 ^ 32)
        else X 4 ((a mod 2 ^ 32) mod (b mod 2 ^ 32))),
     (op_RemSigned32, \<lambda>d a b. let a = Z 4 (a mod 2 ^ 32); b = Z 4 (b mod 2 ^ 32) in
        if b = 0 then Z_inv 8 a else if a = - (2 ^ 31) \<and> b = - 1 then 0 else Z_inv 8 (smod a b)),
     (op_ShiftLogicalLeft32, \<lambda>d a b. X 4 ((a * 2 ^ nat (b mod 32)) mod 2 ^ 32)),
     (op_ShiftLogicalRight32, \<lambda>d a b. X 4 ((a mod 2 ^ 32) div 2 ^ nat (b mod 32))),
     (op_ShiftArithmeticRight32, \<lambda>d a b. Z_inv 8 (Z 4 (a mod 2 ^ 32) div 2 ^ nat (b mod 32))),
     (op_Add64, \<lambda>d a b. (a + b) mod 2 ^ 64),
     (op_Sub64, \<lambda>d a b. (a + 2 ^ 64 - b) mod 2 ^ 64),
     (op_Mul64, \<lambda>d a b. (a * b) mod 2 ^ 64),
     (op_DivUnsigned64, \<lambda>d a b. if b = 0 then 2 ^ 64 - 1 else a div b),
     (op_DivSigned64, \<lambda>d a b. if b = 0 then 2 ^ 64 - 1
        else if Z 8 a = - (2 ^ 63) \<and> Z 8 b = - 1 then a else Z_inv 8 (quotient (Z 8 a) (Z 8 b))),
     (op_RemUnsigned64, \<lambda>d a b. if b = 0 then a else a mod b),
     (op_RemSigned64, \<lambda>d a b. if b = 0 then a
        else if Z 8 a = - (2 ^ 63) \<and> Z 8 b = - 1 then 0 else Z_inv 8 (smod (Z 8 a) (Z 8 b))),
     (op_ShiftLogicalLeft64, \<lambda>d a b. (a * 2 ^ nat (b mod 64)) mod 2 ^ 64),
     (op_ShiftLogicalRight64, \<lambda>d a b. a div 2 ^ nat (b mod 64)),
     (op_ShiftArithmeticRight64, \<lambda>d a b. Z_inv 8 (Z 8 a div 2 ^ nat (b mod 64))),
     (op_And, \<lambda>d a b. of_bits 64 (\<lambda>i. bit a i \<and> bit b i)),
     (op_Xor, \<lambda>d a b. of_bits 64 (\<lambda>i. bit a i \<noteq> bit b i)),
     (op_Or, \<lambda>d a b. of_bits 64 (\<lambda>i. bit a i \<or> bit b i)),
     (op_MulUpperSignedSigned, \<lambda>d a b. Z_inv 8 ((Z 8 a * Z 8 b) div 2 ^ 64)),
     (op_MulUpperUnsignedUnsigned, \<lambda>d a b. (a * b) div 2 ^ 64),
     (op_MulUpperSignedUnsigned, \<lambda>d a b. Z_inv 8 ((Z 8 a * b) div 2 ^ 64)),
     (op_SetLessThanUnsigned, \<lambda>d a b. of_bool (a < b)),
     (op_SetLessThanSigned, \<lambda>d a b. of_bool (Z 8 a < Z 8 b)),
     (op_CmovIfZero, \<lambda>d a b. if b = 0 then a else d),
     (op_CmovIfNotZero, \<lambda>d a b. if b \<noteq> 0 then a else d),
     (op_RotL64, \<lambda>d a b. rotated_left 64 a b),
     (op_RotL32, \<lambda>d a b. X 4 (rotated_left 32 a b)),
     (op_RotR64, \<lambda>d a b. rotated_right 64 a b),
     (op_RotR32, \<lambda>d a b. X 4 (rotated_right 32 a b)),
     (op_AndInv, \<lambda>d a b. of_bits 64 (\<lambda>i. bit a i \<and> \<not> bit b i)),
     (op_OrInv, \<lambda>d a b. of_bits 64 (\<lambda>i. bit a i \<or> \<not> bit b i)),
     (op_Xnor, \<lambda>d a b. of_bits 64 (\<lambda>i. \<not> (bit a i \<noteq> bit b i))),
     (op_Max, \<lambda>d a b. Z_inv 8 (max (Z 8 a) (Z 8 b))),
     (op_MaxU, \<lambda>d a b. max a b),
     (op_Min, \<lambda>d a b. Z_inv 8 (min (Z 8 a) (Z 8 b))),
     (op_MinU, \<lambda>d a b. min a b)]"

text \<open>
  The operands at which the code does not compute the formula.
\<close>

definition deviates :: "Opcode \<Rightarrow> int \<Rightarrow> int \<Rightarrow> bool" where
  "deviates op a b \<longleftrightarrow>
     op = op_SetLessThanSigned \<or>
     op = op_RemSigned32 \<and> a mod 2 ^ 32 = 2 ^ 31 \<or>
     op = op_RemSigned64 \<and> a = 2 ^ 63"

text \<open>
  An instruction does what a formula says, everywhere but at those operands.
\<close>

definition agrees ::
  "Opcode \<Rightarrow> (Reg \<Rightarrow> Reg \<Rightarrow> Reg \<Rightarrow> Instance \<Rightarrow> fallible) \<Rightarrow> (int \<Rightarrow> int \<Rightarrow> int \<Rightarrow> int) \<Rightarrow> bool" where
  "agrees op f r \<longleftrightarrow> (\<forall>dst a b i. deviates op (uint (regs i a)) (uint (regs i b)) \<or>
     f dst a b i = no_error (setAndSkip dst
       (word_of_int (r (uint (regs i dst)) (uint (regs i a)) (uint (regs i b)))) i))"

text \<open>
  The same for two registers and an immediate: the old value of the destination, the
  operand and the immediate. The constants of opcodes 145 and 146 are named the wrong way
  round in the code and dispatched the wrong way round too; the table has the numbers.
\<close>

definition reference_Reg2Imm :: "(Opcode \<times> (int \<Rightarrow> int \<Rightarrow> int \<Rightarrow> int)) list" where
  "reference_Reg2Imm =
    [(op_AddImm32, \<lambda>a b v. X 4 ((b + v) mod 2 ^ 32)),
     (op_AndImm, \<lambda>a b v. of_bits 64 (\<lambda>i. bit b i \<and> bit v i)),
     (op_XorImm, \<lambda>a b v. of_bits 64 (\<lambda>i. bit b i \<noteq> bit v i)),
     (op_OrImm, \<lambda>a b v. of_bits 64 (\<lambda>i. bit b i \<or> bit v i)),
     (op_MulImm32, \<lambda>a b v. X 4 ((b * v) mod 2 ^ 32)),
     (op_SetLessThanUnsignedImm, \<lambda>a b v. of_bool (b < v)),
     (op_SetLessThanSignedImm, \<lambda>a b v. of_bool (Z 8 b < Z 8 v)),
     (op_ShiftLogicalLeftImm32, \<lambda>a b v. X 4 ((b * 2 ^ nat (v mod 32)) mod 2 ^ 32)),
     (op_ShiftLogicalRightImm32, \<lambda>a b v. X 4 ((b mod 2 ^ 32) div 2 ^ nat (v mod 32))),
     (op_ShiftArithmeticRightImm32, \<lambda>a b v. Z_inv 8 (Z 4 (b mod 2 ^ 32) div 2 ^ nat (v mod 32))),
     (op_NegateAndAddImm32, \<lambda>a b v. X 4 ((v + 2 ^ 32 - b) mod 2 ^ 32)),
     (op_SetGreaterThanUnsignedImm, \<lambda>a b v. of_bool (v < b)),
     (op_SetGreaterThanSignedImm, \<lambda>a b v. of_bool (Z 8 v < Z 8 b)),
     (op_ShiftLogicalLeftImmAlt32, \<lambda>a b v. X 4 ((v * 2 ^ nat (b mod 32)) mod 2 ^ 32)),
     (145, \<lambda>a b v. X 4 ((v mod 2 ^ 32) div 2 ^ nat (b mod 32))),
     (146, \<lambda>a b v. Z_inv 8 (Z 4 (v mod 2 ^ 32) div 2 ^ nat (b mod 32))),
     (op_CmovIfZeroImm, \<lambda>a b v. if b = 0 then v else a),
     (op_CmovIfNotZeroImm, \<lambda>a b v. if b \<noteq> 0 then v else a),
     (op_AddImm64, \<lambda>a b v. (b + v) mod 2 ^ 64),
     (op_MulImm64, \<lambda>a b v. (b * v) mod 2 ^ 64),
     (op_ShiftLogicalLeftImm64, \<lambda>a b v. X 8 ((b * 2 ^ nat (v mod 64)) mod 2 ^ 64)),
     (op_ShiftLogicalRightImm64, \<lambda>a b v. X 8 (b div 2 ^ nat (v mod 64))),
     (op_ShiftArithmeticRightImm64, \<lambda>a b v. Z_inv 8 (Z 8 b div 2 ^ nat (v mod 64))),
     (op_NegateAndAddImm64, \<lambda>a b v. (v + 2 ^ 64 - b) mod 2 ^ 64),
     (op_ShiftLogicalLeftImmAlt64, \<lambda>a b v. (v * 2 ^ nat (b mod 64)) mod 2 ^ 64),
     (op_ShiftLogicalRightImmAlt64, \<lambda>a b v. v div 2 ^ nat (b mod 64)),
     (op_ShiftArithmeticRightImmAlt64, \<lambda>a b v. Z_inv 8 (Z 8 v div 2 ^ nat (b mod 64))),
     (op_RotR64Imm, \<lambda>a b v. rotated_right 64 b v),
     (op_RotR64ImmAlt, \<lambda>a b v. rotated_right 64 v b),
     (op_RotR32Imm, \<lambda>a b v. X 4 (rotated_right 32 b v)),
     (op_RotR32ImmAlt, \<lambda>a b v. X 4 (rotated_right 32 v b))]"

definition deviates_imm :: "Opcode \<Rightarrow> int \<Rightarrow> int \<Rightarrow> bool" where
  "deviates_imm op b v \<longleftrightarrow>
     op \<in> {op_ShiftLogicalLeftImm32, op_ShiftLogicalRightImm32, op_ShiftArithmeticRightImm32} \<and> 32 \<le> v \<or>
     op \<in> {op_ShiftLogicalLeftImmAlt32, 145, 146} \<and> 32 \<le> b \<or>
     op \<in> {op_ShiftLogicalLeftImm64, op_ShiftLogicalRightImm64, op_ShiftArithmeticRightImm64} \<and> 64 \<le> v \<or>
     op \<in> {op_ShiftLogicalLeftImmAlt64, op_ShiftLogicalRightImmAlt64} \<and> 64 \<le> b \<or>
     op = op_ShiftArithmeticRightImmAlt64"

definition agrees_imm ::
  "Opcode \<Rightarrow> (Reg \<Rightarrow> Reg \<Rightarrow> u64 \<Rightarrow> Instance \<Rightarrow> fallible) \<Rightarrow> (int \<Rightarrow> int \<Rightarrow> int \<Rightarrow> int) \<Rightarrow> bool" where
  "agrees_imm op f r \<longleftrightarrow> (\<forall>dst b v i. deviates_imm op (uint (regs i b)) (uint v) \<or>
     f dst b v i = no_error (setAndSkip dst
       (word_of_int (r (uint (regs i dst)) (uint (regs i b)) (uint v))) i))"

text \<open>
  A machine with two given argument registers.
\<close>

definition with_args :: "u64 \<Rightarrow> u64 \<Rightarrow> Instance \<Rightarrow> Instance" where
  "with_args a b i = i\<lparr>regs := (regs i)(A0 := a, A1 := b)\<rparr>"

section \<open>Words and integers\<close>

lemma bit_of_bits [simp]: "bit (of_bits n p) k \<longleftrightarrow> k < n \<and> p k"
  by (auto simp: of_bits_def bit_horner_sum_bit_iff)

lemma uint_mod32: "uint (x :: u64) mod 4294967296 = uint (ucast x :: u32)"
  by (simp add: unsigned_ucast_eq take_bit_eq_mod)

lemma shift_mod:
  fixes x m :: int
  assumes "0 \<le> x" "x < 2 * m"
  shows "(x + m) mod (2 * m) - m = (if x < m then x else x - 2 * m)"
proof (cases "x < m")
  case True
  then show ?thesis using assms by (simp add: mod_pos_pos_trivial)
next
  case False
  have "(x + m) mod (2 * m) = (x - m + 2 * m) mod (2 * m)" by (simp add: algebra_simps)
  then have "(x + m) mod (2 * m) = (x - m) mod (2 * m)" by (simp only: mod_add_self2)
  then show ?thesis using assms False by (simp add: mod_pos_pos_trivial)
qed

lemma signed_take_bit_shift:
  "signed_take_bit 31 (x :: int) = (x + 2147483648) mod 4294967296 - 2147483648"
  "signed_take_bit 63 (x :: int) = (x + 9223372036854775808) mod 18446744073709551616 - 9223372036854775808"
  by (simp_all add: signed_take_bit_eq_take_bit_shift take_bit_eq_mod)

lemma sint_Z:
  "sint (w :: u32) = Z 4 (uint w)" "sint (v :: u64) = Z 8 (uint v)"
  using shift_mod [of "uint w" 2147483648] shift_mod [of "uint v" 9223372036854775808]
    uint_lt2p [of w] uint_lt2p [of v]
  by (simp_all add: Z_def sint_uint signed_take_bit_shift)

lemma word_of_int_mod64 [simp]: "word_of_int (x mod 18446744073709551616) = (word_of_int x :: u64)"
  by (simp add: word_of_int_eq_iff take_bit_eq_mod)

lemma word_of_int_mod32 [simp]: "word_of_int (x mod 4294967296) = (word_of_int x :: u32)"
  by (simp add: word_of_int_eq_iff take_bit_eq_mod)

lemma scast_word_of_int: "scast (w :: u32) = (word_of_int (sint w) :: u64)"
  by (rule bit_word_eqI) (simp add: bit_signed_iff bit_word_of_int_iff bit_sint_iff min.commute)

lemma X_4: "word_of_int (X 4 (uint (w :: u32))) = (scast w :: u64)"
proof -
  let ?u = "uint w"
  have u: "0 \<le> ?u" "?u < 4294967296" using uint_lt2p [of w] by simp_all
  have "X 4 ?u mod 2 ^ 64 = Z 4 ?u mod 2 ^ 64"
  proof (cases "?u < 2147483648")
    case True
    then show ?thesis using u by (simp add: X_def Z_def)
  next
    case False
    then have "?u div 2147483648 = 1" using u by (simp add: div_pos_geq)
    then have "X 4 ?u = Z 4 ?u + 2 ^ 64" using False by (simp add: X_def Z_def)
    then show ?thesis by simp
  qed
  then show ?thesis
    by (simp add: scast_word_of_int sint_Z word_of_int_eq_iff take_bit_eq_mod)
qed

lemma Z_inv_8 [simp]: "word_of_int (Z_inv 8 x) = (word_of_int x :: u64)"
  by (simp add: Z_inv_def)

lemma X_4_word_of_int: "word_of_int (X 4 (x mod 4294967296)) = (scast (word_of_int x :: u32) :: u64)"
proof -
  have "x mod 4294967296 = uint (word_of_int x :: u32)" by (simp add: uint_word_of_int)
  then show ?thesis by (simp only: X_4)
qed

lemma sext_4: "sext (ucast (w :: u32)) 4 = Some (scast w)"
proof -
  have "ucast (ucast w :: u64) = w" by (rule bit_word_eqI) (simp add: bit_ucast_iff)
  then show ?thesis by (simp add: sext_def)
qed

lemma ucast_32: "(ucast (x :: u64) :: u32) = word_of_int (uint x)"
  by (rule bit_word_eqI) (auto simp: bit_ucast_iff bit_word_of_int_iff bit_uint_iff)

lemma word_of_int_mod64_32 [simp]: "word_of_int (x mod 18446744073709551616) = (word_of_int x :: u32)"
  by (simp add: word_of_int_eq_iff take_bit_eq_mod mod_mod_cancel)

lemma uint_ring:
  "uint (x + y :: u64) = (uint x + uint y) mod 18446744073709551616"
  "uint (x * y :: u64) = (uint x * uint y) mod 18446744073709551616"
  "uint (x - y :: u64) = (uint x - uint y) mod 18446744073709551616"
  by (simp_all add: uint_word_ariths)

lemma ucast_ring:
  "(ucast (x + y :: u64) :: u32) = ucast x + ucast y"
  "(ucast (x * y :: u64) :: u32) = ucast x * ucast y"
  "(ucast (x - y :: u64) :: u32) = ucast x - ucast y"
  unfolding ucast_32 uint_ring word_of_int_mod64_32 by simp_all

lemma word_overflow: "(4294967296 :: u32) = 0" "(18446744073709551616 :: u64) = 0"
  by simp_all

section \<open>Three registers\<close>

lemma agrees_ring:
  "agrees op (void3 Add32) (\<lambda>d a b. X 4 ((a + b) mod 2 ^ 32))"
  "agrees op (void3 Sub32) (\<lambda>d a b. X 4 ((a + 2 ^ 32 - b mod 2 ^ 32) mod 2 ^ 32))"
  "agrees op (void3 Mul32) (\<lambda>d a b. X 4 ((a * b) mod 2 ^ 32))"
  "agrees op (void3 Add64) (\<lambda>d a b. (a + b) mod 2 ^ 64)"
  "agrees op (void3 Sub64) (\<lambda>d a b. (a + 2 ^ 64 - b) mod 2 ^ 64)"
  "agrees op (void3 Mul64) (\<lambda>d a b. (a * b) mod 2 ^ 64)"
  by (simp_all add: agrees_def void3_def mutator_defs sext_4 X_4_word_of_int ucast_ring word_overflow)

lemma word_of_bits:
  fixes a b :: u64
  shows "word_of_int (of_bits 64 (\<lambda>i. bit (uint a) i \<and> bit (uint b) i)) = a AND b"
    "word_of_int (of_bits 64 (\<lambda>i. bit (uint a) i = (\<not> bit (uint b) i))) = a XOR b"
    "word_of_int (of_bits 64 (\<lambda>i. bit (uint a) i \<or> bit (uint b) i)) = a OR b"
    "word_of_int (of_bits 64 (\<lambda>i. bit (uint a) i \<and> \<not> bit (uint b) i)) = a AND NOT b"
    "word_of_int (of_bits 64 (\<lambda>i. bit (uint a) i \<or> \<not> bit (uint b) i)) = a OR NOT b"
    "word_of_int (of_bits 64 (\<lambda>i. bit (uint a) i = bit (uint b) i)) = NOT (a XOR b)"
  by (rule bit_word_eqI; auto simp: bit_simps bit_word_of_int_iff)+

lemma agrees_bitwise:
  "agrees op (void3 And) (\<lambda>d a b. of_bits 64 (\<lambda>i. bit a i \<and> bit b i))"
  "agrees op (void3 Xor) (\<lambda>d a b. of_bits 64 (\<lambda>i. bit a i \<noteq> bit b i))"
  "agrees op (void3 Or) (\<lambda>d a b. of_bits 64 (\<lambda>i. bit a i \<or> bit b i))"
  "agrees op (void3 AndInverted) (\<lambda>d a b. of_bits 64 (\<lambda>i. bit a i \<and> \<not> bit b i))"
  "agrees op (void3 OrInverted) (\<lambda>d a b. of_bits 64 (\<lambda>i. bit a i \<or> \<not> bit b i))"
  "agrees op (void3 Xnor) (\<lambda>d a b. of_bits 64 (\<lambda>i. \<not> (bit a i \<noteq> bit b i)))"
  by (simp_all add: agrees_def void3_def mutator_defs word_of_bits)

lemma agrees_compare:
  "agrees op (void3 SetLessThanUnsigned) (\<lambda>d a b. of_bool (a < b))"
  "agrees op (void3 CmovIfZero) (\<lambda>d a b. if b = 0 then a else d)"
  "agrees op (void3 CmovIfNotZero) (\<lambda>d a b. if b \<noteq> 0 then a else d)"
  "agrees op (void3 Max_op) (\<lambda>d a b. Z_inv 8 (max (Z 8 a) (Z 8 b)))"
  "agrees op (void3 MaxUnsigned) (\<lambda>d a b. max a b)"
  "agrees op (void3 Min_op) (\<lambda>d a b. Z_inv 8 (min (Z 8 a) (Z 8 b)))"
  "agrees op (void3 MinUnsigned) (\<lambda>d a b. min a b)"
  by (auto simp: agrees_def void3_def mutator_defs bool2uint64_def word_less_def word_le_def sint_Z
      setAndSkip_def max_def min_def uint_0_iff)

lemma nat_uint_mod:
  "nat (uint (b :: u64) mod 64) = unat (b mod 64)"
  "nat (uint (b :: u64) mod 32) = unat ((ucast b :: u32) mod 32)"
proof -
  show "nat (uint b mod 64) = unat (b mod 64)"
    by (simp add: unat_mod_distrib nat_mod_distrib)
  have "uint b mod 32 = uint b mod 4294967296 mod 32" by (simp add: mod_mod_cancel)
  also have "\<dots> = uint (ucast b :: u32) mod 32" by (simp only: uint_mod32)
  finally show "nat (uint b mod 32) = unat ((ucast b :: u32) mod 32)"
    by (simp add: unat_mod_distrib nat_mod_distrib)
qed

lemma uint_shift:
  "uint (w :: 'a::len word) div 2 ^ n = uint (shr w n)" 
  "sint w div 2 ^ n = sint (sar w n)"
  using uint_lt2p [of w]
  by (simp_all add: unsigned_drop_bit_eq sint_signed_drop_bit_eq take_bit_int_eq_self flip: drop_bit_eq_div)

lemma agrees_shift:
  "agrees op (void3 ShiftLogicalLeft32) (\<lambda>d a b. X 4 ((a * 2 ^ nat (b mod 32)) mod 2 ^ 32))"
  "agrees op (void3 ShiftLogicalRight32) (\<lambda>d a b. X 4 ((a mod 2 ^ 32) div 2 ^ nat (b mod 32)))"
  "agrees op (void3 ShiftArithmeticRight32) (\<lambda>d a b. Z_inv 8 (Z 4 (a mod 2 ^ 32) div 2 ^ nat (b mod 32)))"
  "agrees op (void3 ShiftLogicalLeft64) (\<lambda>d a b. (a * 2 ^ nat (b mod 64)) mod 2 ^ 64)"
  "agrees op (void3 ShiftLogicalRight64) (\<lambda>d a b. a div 2 ^ nat (b mod 64))"
  "agrees op (void3 ShiftArithmeticRight64) (\<lambda>d a b. Z_inv 8 (Z 8 a div 2 ^ nat (b mod 64)))"
  by (simp_all add: agrees_def void3_def mutator_defs sext_4 nat_uint_mod uint_mod32 X_4_word_of_int
      X_4 uint_shift push_bit_eq_mult sint_Z [symmetric])

lemma agrees_upper:
  "agrees op (void3 MulUpperSignedSigned) (\<lambda>d a b. Z_inv 8 ((Z 8 a * Z 8 b) div 2 ^ 64))"
  "agrees op (void3 MulUpperUnsignedUnsigned) (\<lambda>d a b. (a * b) div 2 ^ 64)"
  "agrees op (void3 MulUpperSignedUnsigned) (\<lambda>d a b. Z_inv 8 ((Z 8 a * b) div 2 ^ 64))"
  by (simp_all add: agrees_def void3_def mutator_defs drop_bit_eq_div sint_Z)

lemma uint_div_mod:
  "uint (a :: 'a::len word) div uint b = uint (a div b)" "uint a mod uint b = uint (a mod b)"
  by (simp_all add: uint_div_distrib uint_mod_distrib)

lemma agrees_unsigned_division:
  "agrees op (void3 DivUnsigned32) (\<lambda>d a b. if b mod 2 ^ 32 = 0 then 2 ^ 64 - 1
     else X 4 ((a mod 2 ^ 32) div (b mod 2 ^ 32)))"
  "agrees op (void3 RemUnsigned32) (\<lambda>d a b. if b mod 2 ^ 32 = 0 then X 4 (a mod 2 ^ 32)
     else X 4 ((a mod 2 ^ 32) mod (b mod 2 ^ 32)))"
  "agrees op (void3 DivUnsigned64) (\<lambda>d a b. if b = 0 then 2 ^ 64 - 1 else a div b)"
  "agrees op (void3 RemUnsigned64) (\<lambda>d a b. if b = 0 then a else a mod b)"
  by (simp_all add: agrees_def void3_def mutator_defs sext_4 uint_mod32 uint_0_iff X_4 uint_div_mod
      setAndSkip_def Let_def)

lemma sint_range32: "- 2147483648 \<le> sint (w :: u32)" "sint w < 2147483648"
  using sint_range_size [of w] by (simp_all add: word_size)

lemma sint_range64: "- 9223372036854775808 \<le> sint (w :: u64)" "sint w < 9223372036854775808"
  using sint_range_size [of w] by (simp_all add: word_size)

lemma sint_word_of_int32: "- 2147483648 \<le> x \<Longrightarrow> x < 2147483648 \<Longrightarrow> sint (word_of_int x :: u32) = x"
  by (simp add: signed_of_int signed_take_bit_shift mod_pos_pos_trivial)

lemma sint_word_of_int64:
  "- 9223372036854775808 \<le> x \<Longrightarrow> x < 9223372036854775808 \<Longrightarrow> sint (word_of_int x :: u64) = x"
  by (simp add: signed_of_int signed_take_bit_shift mod_pos_pos_trivial)

lemma scast_word_of_int32:
  "- 2147483648 \<le> x \<Longrightarrow> x < 2147483648 \<Longrightarrow> (scast (word_of_int x :: u32) :: u64) = word_of_int x"
  by (simp only: scast_word_of_int sint_word_of_int32)

lemma go_quot_range:
  assumes "- m \<le> a" "a < m" "- m \<le> b" "b < m" "0 < m" "\<not> (a = - m \<and> b = - 1)"
  shows "- m \<le> go_quot a b" "go_quot a b < m"
proof -
  have q: "\<bar>a\<bar> div \<bar>b\<bar> \<le> \<bar>a\<bar>" "0 \<le> \<bar>a\<bar> div \<bar>b\<bar>" 
    using zdiv_mono2 [of "\<bar>a\<bar>" 1 "\<bar>b\<bar>"] by (cases "b = 0"; simp add: pos_imp_zdiv_nonneg_iff)+
  then show "- m \<le> go_quot a b" using assms
    by (auto simp: go_quot_def sgn_if)
  show "go_quot a b < m"
  proof (cases "a = - m \<and> b < 0")
    case True
    then have "\<bar>a\<bar> div \<bar>b\<bar> < \<bar>a\<bar>" using assms by (intro int_div_less_self) auto
    then show ?thesis using assms True by (simp add: go_quot_def sgn_if)
  next
    case False
    then show ?thesis using q assms by (auto simp: go_quot_def sgn_if)
  qed
qed

lemma quotient_go: "quotient = go_quot"
  by (intro ext) (simp add: quotient_def go_quot_def)

lemma agrees_signed_quotient:
  "agrees op (void3 DivSigned32) (\<lambda>d a b. let a = Z 4 (a mod 2 ^ 32); b = Z 4 (b mod 2 ^ 32) in
     if b = 0 then 2 ^ 64 - 1 else if a = - (2 ^ 31) \<and> b = - 1 then Z_inv 8 a
     else Z_inv 8 (quotient a b))"
  "agrees op (void3 DivSigned64) (\<lambda>d a b. if b = 0 then 2 ^ 64 - 1
     else if Z 8 a = - (2 ^ 63) \<and> Z 8 b = - 1 then a else Z_inv 8 (quotient (Z 8 a) (Z 8 b)))"
proof -
  have *: "(scast (word_of_int (go_quot (sint a) (sint b)) :: u32) :: u64) = word_of_int (go_quot (sint a) (sint b))"
    if "\<not> (sint (a :: u32) = - 2147483648 \<and> sint (b :: u32) = - 1)" for a b
    using that sint_range32 [of a] sint_range32 [of b] go_quot_range [of 2147483648 "sint a" "sint b"]
    by (intro scast_word_of_int32) simp_all
  show "agrees op (void3 DivSigned32) (\<lambda>d a b. let a = Z 4 (a mod 2 ^ 32); b = Z 4 (b mod 2 ^ 32) in
     if b = 0 then 2 ^ 64 - 1 else if a = - (2 ^ 31) \<and> b = - 1 then Z_inv 8 a
     else Z_inv 8 (quotient a b))"
    using * by (auto simp add: agrees_def void3_def mutator_defs uint_mod32 setAndSkip_def Let_def 
      sint_Z [symmetric] signed_eq_0_iff quotient_go scast_word_of_int simp del: of_int_sint)
  show "agrees op (void3 DivSigned64) (\<lambda>d a b. if b = 0 then 2 ^ 64 - 1
     else if Z 8 a = - (2 ^ 63) \<and> Z 8 b = - 1 then a else Z_inv 8 (quotient (Z 8 a) (Z 8 b)))"
    by (auto simp: agrees_def void3_def mutator_defs uint_0_iff setAndSkip_def Let_def 
      sint_Z [symmetric] quotient_go)
qed

lemma div_negative: "- m \<le> x \<Longrightarrow> x < 0 \<Longrightarrow> x div m = - 1" for x m :: int
  using div_add_self2 [of m x] by (simp add: div_pos_pos_trivial)

lemma sint_eqI: "sint v = sint w \<Longrightarrow> v = w"
  by (drule injD [OF inj_signed])

lemma sar_sign:
  "sar (v :: u32) 31 = (if sint v < 0 then - 1 else 0)"
  "sar (w :: u64) 63 = (if sint w < 0 then - 1 else 0)"
  using sint_range32 [of v] sint_range64 [of w]
  by (auto intro!: sint_eqI simp: uint_shift(2) [symmetric] div_pos_pos_trivial div_negative)

lemma abs_eq:
  "abs32 v = (if sint v < 0 then - v else v)" "abs64 w = (if sint w < 0 then - w else w)"
  by (simp_all add: abs32_def abs64_def sar_sign Let_def minus_eq_not_plus_1 [symmetric])

lemma sint_uminus:
  "sint (- v :: u32) = (if sint v = - 2147483648 then - 2147483648 else - sint v)"
  "sint (- w :: u64) = (if sint w = - 9223372036854775808 then - 9223372036854775808 else - sint w)"
proof -
  have "- v = word_of_int (- sint v)" "- w = word_of_int (- sint w)" by simp_all
  then show
    "sint (- v :: u32) = (if sint v = - 2147483648 then - 2147483648 else - sint v)"
    "sint (- w :: u64) = (if sint w = - 9223372036854775808 then - 9223372036854775808 else - sint w)"
    using sint_range32 [of v] sint_range64 [of w]
    by (auto simp: signed_of_int signed_take_bit_shift mod_pos_pos_trivial simp del: word_of_int_minus of_int_minus of_int_sint)
qed

lemma abs_sint:
  "\<bar>sint (abs32 v)\<bar> = \<bar>sint v\<bar>" "\<bar>sint (abs64 w)\<bar> = \<bar>sint w\<bar>"
  "sint v \<noteq> - 2147483648 \<Longrightarrow> sint (abs32 v) = \<bar>sint v\<bar>"
  "sint w \<noteq> - 9223372036854775808 \<Longrightarrow> sint (abs64 w) = \<bar>sint w\<bar>"
  by (auto simp: abs_eq sint_uminus)

lemma go_rem_nonneg: "0 \<le> a \<Longrightarrow> go_rem a b = a mod \<bar>b\<bar>"
  by (simp add: go_rem_def sgn_if)

lemma smod_sign: "b \<noteq> 0 \<Longrightarrow> smod a b = (if a < 0 then - (\<bar>a\<bar> mod \<bar>b\<bar>) else \<bar>a\<bar> mod \<bar>b\<bar>)"
  by (simp add: smod_def sgn_if)

lemma go_rem_cong: "\<bar>b\<bar> = \<bar>b'\<bar> \<Longrightarrow> go_rem a b = go_rem a b'"
  by (simp add: go_rem_def)

lemma smod_eq:
  "sint v \<noteq> - 2147483648 \<Longrightarrow> smod32 v v' = word_of_int (smod (sint v) (sint v'))"
  "sint w \<noteq> - 9223372036854775808 \<Longrightarrow> smod64 w w' = word_of_int (smod (sint w) (sint w'))"
proof -
  assume "sint v \<noteq> - 2147483648"
  then show "smod32 v v' = word_of_int (smod (sint v) (sint v'))"
    by (cases "v' = 0") (simp_all add: smod32_def smod_sign signed_eq_0_iff abs_sint(3) go_rem_nonneg
        go_rem_cong [OF abs_sint(1)], simp add: smod_def)
next
  assume "sint w \<noteq> - 9223372036854775808"
  then show "smod64 w w' = word_of_int (smod (sint w) (sint w'))"
    by (cases "w' = 0") (simp_all add: smod64_def smod_sign signed_eq_0_iff abs_sint(4) go_rem_nonneg
        go_rem_cong [OF abs_sint(2)], simp add: smod_def)
qed

lemma sint_min:
  "uint (v :: u32) \<noteq> 2 ^ 31 \<Longrightarrow> sint v \<noteq> - 2147483648"
  "uint (w :: u64) \<noteq> 2 ^ 63 \<Longrightarrow> sint w \<noteq> - 9223372036854775808"
proof -
  have "uint v \<noteq> - 2147483648" "uint w \<noteq> - 9223372036854775808"
    using uint_ge_0 [of v] uint_ge_0 [of w] by linarith+
  then show "uint v \<noteq> 2 ^ 31 \<Longrightarrow> sint v \<noteq> - 2147483648"
    "uint w \<noteq> 2 ^ 63 \<Longrightarrow> sint w \<noteq> - 9223372036854775808"
    by (auto simp: sint_Z Z_def split: if_splits)
qed

lemma smod_range: "- m \<le> a \<Longrightarrow> a < m \<Longrightarrow> - m \<le> smod a b" "- m \<le> a \<Longrightarrow> a < m \<Longrightarrow> smod a b < m"
proof -
  define r where "r = \<bar>a\<bar> mod \<bar>b\<bar>"
  have "smod a b = (if b = 0 then a else sgn a * r)" "b \<noteq> 0 \<longrightarrow> 0 \<le> r \<and> r \<le> \<bar>a\<bar>"
    by (simp_all add: smod_def r_def zmod_le_nonneg_dividend)
  then show "- m \<le> a \<Longrightarrow> a < m \<Longrightarrow> - m \<le> smod a b" "- m \<le> a \<Longrightarrow> a < m \<Longrightarrow> smod a b < m"
    by (auto simp: sgn_if)
qed

lemma scast_smod:
  "(scast (word_of_int (smod (sint (v :: u32)) b) :: u32) :: u64) = word_of_int (smod (sint v) b)"
  by (intro scast_word_of_int32 smod_range sint_range32)

lemma agrees_signed_remainder:
  "agrees op_RemSigned32 (void3 RemSigned32) (\<lambda>d a b. let a = Z 4 (a mod 2 ^ 32); b = Z 4 (b mod 2 ^ 32) in
     if b = 0 then Z_inv 8 a else if a = - (2 ^ 31) \<and> b = - 1 then 0 else Z_inv 8 (smod a b))"
  "agrees op_RemSigned64 (void3 RemSigned64) (\<lambda>d a b. if b = 0 then a
     else if Z 8 a = - (2 ^ 63) \<and> Z 8 b = - 1 then 0 else Z_inv 8 (smod (Z 8 a) (Z 8 b)))"
proof -
  show "agrees op_RemSigned32 (void3 RemSigned32) (\<lambda>d a b. let a = Z 4 (a mod 2 ^ 32); b = Z 4 (b mod 2 ^ 32) in
     if b = 0 then Z_inv 8 a else if a = - (2 ^ 31) \<and> b = - 1 then 0 else Z_inv 8 (smod a b))"
    unfolding agrees_def disj_imp by (auto simp: deviates_def void3_def mutator_defs uint_mod32
      setAndSkip_def Let_def sint_Z [symmetric] signed_eq_0_iff smod_eq(1) [OF sint_min(1)] scast_smod)
  have minus_1: "smod a (- 1) = 0" for a by (simp add: smod_def)
  show "agrees op_RemSigned64 (void3 RemSigned64) (\<lambda>d a b. if b = 0 then a
     else if Z 8 a = - (2 ^ 63) \<and> Z 8 b = - 1 then 0 else Z_inv 8 (smod (Z 8 a) (Z 8 b)))"
    unfolding agrees_def disj_imp
    by (auto simp: deviates_def void3_def mutator_defs uint_0_iff minus_1 setAndSkip_def Let_def
      sint_Z [symmetric] signed_eq_0_iff smod_eq(2) [OF sint_min(2)])
qed

lemma rotate_index:
  assumes "j < n"
  shows "nat ((int j - k) mod int n) =
    (let s = nat (k mod int n) in if s \<le> j then j - s else j + n - s)"
proof -
  define s where "s = k mod int n"
  have s: "0 \<le> s" "s < int n" using assms by (simp_all add: s_def)
  have "(int j - k) mod int n = (int j - s) mod int n" by (simp add: mod_diff_right_eq s_def)
  also have "\<dots> = (if s \<le> int j then int j - s else int j + int n - s)"
  proof (cases "s \<le> int j")
    case True
    then show ?thesis using s assms by (simp add: mod_pos_pos_trivial)
  next
    case False
    have "(int j - s) mod int n = (int j - s + int n) mod int n" by simp
    also have "\<dots> = int j - s + int n" using s assms False by (simp only: mod_pos_pos_trivial)
    finally show ?thesis using False by simp
  qed
  finally show ?thesis using s by (simp add: Let_def s_def [symmetric]) arith
qed

lemma bit_RotateLeft:
  "bit (bits_RotateLeft (x :: 'a::len word) k) j \<longleftrightarrow>
     j < LENGTH('a) \<and> bit x (nat ((int j - uint k) mod int LENGTH('a)))"
proof (cases "j < LENGTH('a)")
  case True
  have s: "nat (uint k mod int LENGTH('a)) = unat k mod LENGTH('a)"
    by (simp add: nat_mod_distrib)
  have "unat k mod LENGTH('a) < LENGTH('a)" by simp
  then show ?thesis using True
    by (auto simp: rotate_index s bits_RotateLeft_def Let_def bit_simps algebra_simps dest: bit_imp_le_length)
next
  case False
  then show ?thesis using bit_imp_le_length by blast
qed

lemma rotate_left_words:
  "rotated_left 64 (uint a) (uint k) = uint (bits_RotateLeft (a :: u64) k)"
  "rotated_left 32 (uint a) (uint k) = uint (bits_RotateLeft (ucast (a :: u64) :: u32) k)"
  by (rule bit_eqI; auto simp: rotated_left_def bit_RotateLeft bit_uint_iff bit_ucast_iff)+

lemma minus_index:
  "(int j - uint (- k :: u64)) mod 64 = (int j + uint k) mod 64"
  "(int j - uint (- k :: u64)) mod 32 = (int j + uint k) mod 32"
proof -
  have u: "uint (- k) = (- uint k) mod 18446744073709551616" by (simp add: uint_word_ariths)
  have "uint (- k) mod 64 = (- uint k) mod 64" "uint (- k) mod 32 = (- uint k) mod 32"
    unfolding u by (simp_all add: mod_mod_cancel)
  then show "(int j - uint (- k)) mod 64 = (int j + uint k) mod 64"
    "(int j - uint (- k)) mod 32 = (int j + uint k) mod 32"
    by (metis mod_diff_right_eq diff_minus_eq_add)+
qed

lemma rotate_right_words:
  "rotated_right 64 (uint a) (uint k) = uint (bits_RotateLeft (a :: u64) (- k))"
  "rotated_right 32 (uint a) (uint k) = uint (bits_RotateLeft (ucast (a :: u64) :: u32) (- k))"
  by (rule bit_eqI; auto simp: rotated_right_def bit_RotateLeft bit_uint_iff bit_ucast_iff minus_index)+

lemma agrees_rotate:
  "agrees op (void3 RotateLeft64) (\<lambda>d a b. rotated_left 64 a b)"
  "agrees op (void3 RotateLeft32) (\<lambda>d a b. X 4 (rotated_left 32 a b))"
  "agrees op (void3 RotateRight64) (\<lambda>d a b. rotated_right 64 a b)"
  "agrees op (void3 RotateRight32) (\<lambda>d a b. X 4 (rotated_right 32 a b))"
  by (simp_all add: agrees_def void3_def mutator_defs sext_4 X_4 rotate_left_words rotate_right_words)

lemma map_of_related:
  assumes "list_all2 (\<lambda>(k, f) (k', r). k = k' \<and> P k f r) fs rs" "map_of fs k = Some f" "map_of rs k = Some r"
  shows "P k f r"
  using assms by (induction rule: list_all2_induct) (auto split: if_splits)

lemma switch_Reg3_agrees: "list_all2 (\<lambda>(op, f) (op', r). op = op' \<and> agrees op f r) switch_Reg3 reference_Reg3"
proof -
  have "agrees op_SetLessThanSigned f r" for f r by (simp add: agrees_def deviates_def)
  then show ?thesis
    unfolding switch_Reg3_def reference_Reg3_def list_all2_Cons list_all2_Nil prod.case
    by (intro conjI TrueI refl agrees_ring agrees_bitwise agrees_compare agrees_shift agrees_upper
      agrees_unsigned_division agrees_signed_quotient agrees_signed_remainder agrees_rotate)
qed

section \<open>Two registers and an immediate\<close>

lemma imm_ring:
  "agrees_imm op (void3 AddImm32) (\<lambda>a b v. X 4 ((b + v) mod 2 ^ 32))"
  "agrees_imm op (void3 MulImm32) (\<lambda>a b v. X 4 ((b * v) mod 2 ^ 32))"
  "agrees_imm op (void3 NegateAndAddImm32) (\<lambda>a b v. X 4 ((v + 2 ^ 32 - b) mod 2 ^ 32))"
  "agrees_imm op (void3 AddImm64) (\<lambda>a b v. (b + v) mod 2 ^ 64)"
  "agrees_imm op (void3 MulImm64) (\<lambda>a b v. (b * v) mod 2 ^ 64)"
  "agrees_imm op (void3 NegateAndAddImm64) (\<lambda>a b v. (v + 2 ^ 64 - b) mod 2 ^ 64)"
  by (simp_all add: agrees_imm_def void3_def mutator_defs sext_4 X_4_word_of_int ucast_ring word_overflow)

lemma imm_bitwise:
  "agrees_imm op (void3 AndImm) (\<lambda>a b v. of_bits 64 (\<lambda>i. bit b i \<and> bit v i))"
  "agrees_imm op (void3 XorImm) (\<lambda>a b v. of_bits 64 (\<lambda>i. bit b i \<noteq> bit v i))"
  "agrees_imm op (void3 OrImm) (\<lambda>a b v. of_bits 64 (\<lambda>i. bit b i \<or> bit v i))"
  by (simp_all add: agrees_imm_def void3_def mutator_defs word_of_bits)

lemma imm_compare:
  "agrees_imm op (void3 SetLessThanUnsignedImm) (\<lambda>a b v. of_bool (b < v))"
  "agrees_imm op (void3 SetLessThanSignedImm) (\<lambda>a b v. of_bool (Z 8 b < Z 8 v))"
  "agrees_imm op (void3 SetGreaterThanUnsignedImm) (\<lambda>a b v. of_bool (v < b))"
  "agrees_imm op (void3 SetGreaterThanSignedImm) (\<lambda>a b v. of_bool (Z 8 v < Z 8 b))"
  "agrees_imm op (void3 CmovIfZeroImm) (\<lambda>a b v. if b = 0 then v else a)"
  "agrees_imm op (void3 CmovIfNotZeroImm) (\<lambda>a b v. if b \<noteq> 0 then v else a)"
  by (auto simp: agrees_imm_def void3_def mutator_defs bool2uint64_def word_less_def sint_Z
      setAndSkip_def uint_0_iff)

lemma X_8: "word_of_int (X 8 x) = (word_of_int x :: u64)"
  by (simp add: X_def)

lemma sext_8: "sext v 8 = Some v"
  by (simp add: sext_def)

lemma nat_uint_small:
  "uint (v :: u64) < 32 \<Longrightarrow> nat (uint v mod 32) = unat v"
  "uint (v :: u64) < 64 \<Longrightarrow> nat (uint v mod 64) = unat v"
  "uint (v :: u64) < 32 \<Longrightarrow> unat (ucast v :: u32) = unat v"
proof -
  assume "uint v < 32"
  then have "uint (ucast v :: u32) = uint v"
    using uint_mod32 [of v] by (simp add: mod_pos_pos_trivial)
  then show "unat (ucast v :: u32) = unat v" by (simp only: unat_eq_nat_uint)
qed (simp_all add: mod_pos_pos_trivial)

lemma ucast_power: "(ucast (2 ^ n :: u64) :: u32) = 2 ^ n"
  by (rule bit_word_eqI) (auto simp: bit_ucast_iff bit_exp_iff)

lemma rotate_ucast:
  "bits_RotateLeft (w :: u32) (- ucast (ucast k :: u32)) = bits_RotateLeft w (- k)"
proof -
  have u: "uint (ucast (ucast k :: u32) :: u64) = uint k mod 4294967296"
    by (simp add: uint_mod32 unsigned_ucast_eq unsigned_take_bit_eq)
  have "(int j + uint k mod 4294967296) mod 32 = (int j + uint k) mod 32" for j
    using mod_add_right_eq [of "int j" "uint k mod 4294967296" 32] mod_add_right_eq [of "int j" "uint k" 32]
    by (simp add: mod_mod_cancel)
  then show ?thesis by (intro bit_word_eqI) (simp add: bit_RotateLeft minus_index u)
qed

lemma imm_shift:
  "agrees_imm op_ShiftLogicalLeftImm32 (void3 ShiftLogicalLeftImm32)
     (\<lambda>a b v. X 4 ((b * 2 ^ nat (v mod 32)) mod 2 ^ 32))"
  "agrees_imm op_ShiftLogicalRightImm32 (void3 ShiftLogicalRightImm32)
     (\<lambda>a b v. X 4 ((b mod 2 ^ 32) div 2 ^ nat (v mod 32)))"
  "agrees_imm op_ShiftArithmeticRightImm32 (void3 ShiftArithmeticRightImm32)
     (\<lambda>a b v. Z_inv 8 (Z 4 (b mod 2 ^ 32) div 2 ^ nat (v mod 32)))"
  "agrees_imm op_ShiftLogicalLeftImm64 (void3 ShiftLogicalLeftImm64)
     (\<lambda>a b v. X 8 ((b * 2 ^ nat (v mod 64)) mod 2 ^ 64))"
  "agrees_imm op_ShiftLogicalRightImm64 (void3 ShiftLogicalRightImm64)
     (\<lambda>a b v. X 8 (b div 2 ^ nat (v mod 64)))"
  "agrees_imm op_ShiftArithmeticRightImm64 (void3 ShiftArithmeticRightImm64)
     (\<lambda>a b v. Z_inv 8 (Z 8 b div 2 ^ nat (v mod 64)))"
  unfolding agrees_imm_def disj_imp
  by (simp_all add: deviates_imm_def void3_def mutator_defs sext_4 sext_8 nat_uint_small uint_mod32
      X_4_word_of_int X_4 X_8 uint_shift push_bit_eq_mult sint_Z [symmetric])

lemma imm_shift_alt:
  "agrees_imm op_ShiftLogicalLeftImmAlt32 (void3 ShiftLogicalLeftImmAlt32)
     (\<lambda>a b v. X 4 ((v * 2 ^ nat (b mod 32)) mod 2 ^ 32))"
  "agrees_imm 145 (void3 ShiftLogicalRightImmAlt32)
     (\<lambda>a b v. X 4 ((v mod 2 ^ 32) div 2 ^ nat (b mod 32)))"
  "agrees_imm 146 (void3 ShiftArithmeticRightImmAlt32)
     (\<lambda>a b v. Z_inv 8 (Z 4 (v mod 2 ^ 32) div 2 ^ nat (b mod 32)))"
  "agrees_imm op_ShiftLogicalLeftImmAlt64 (void3 ShiftLogicalLeftImmAlt64)
     (\<lambda>a b v. (v * 2 ^ nat (b mod 64)) mod 2 ^ 64)"
  "agrees_imm op_ShiftLogicalRightImmAlt64 (void3 ShiftLogicalRightImmAlt64)
     (\<lambda>a b v. v div 2 ^ nat (b mod 64))"
  unfolding agrees_imm_def disj_imp
  by (simp_all add: deviates_imm_def void3_def mutator_defs sext_4 sext_8 nat_uint_small uint_mod32
      X_4_word_of_int X_4 X_8 uint_shift push_bit_eq_mult sint_Z [symmetric] ucast_ring ucast_power)

lemma imm_rotate:
  "agrees_imm op (void3 RotateRight64Imm) (\<lambda>a b v. rotated_right 64 b v)"
  "agrees_imm op (void3 RotateRight64ImmAlt) (\<lambda>a b v. rotated_right 64 v b)"
  "agrees_imm op (void3 RotateRight32Imm) (\<lambda>a b v. X 4 (rotated_right 32 b v))"
  "agrees_imm op (void3 RotateRight32ImmAlt) (\<lambda>a b v. X 4 (rotated_right 32 v b))"
  by (simp_all add: agrees_imm_def void3_def mutator_defs sext_4 X_4 rotate_right_words rotate_ucast)

lemma switch_Reg2Imm_agrees:
  "list_all2 (\<lambda>(op, f) (op', r). op = op' \<and> agrees_imm op f r) (drop 11 switch_Reg2Imm) reference_Reg2Imm"
proof -
  have alt: "agrees_imm op_ShiftArithmeticRightImmAlt64 f r" for f r
    by (simp add: agrees_imm_def deviates_imm_def)
  have "drop 11 switch_Reg2Imm = tl (tl (tl (tl (tl (tl (tl (tl (tl (tl (tl switch_Reg2Imm))))))))))"
    by (simp add: tl_drop drop_Suc numeral_eq_Suc)
  then show ?thesis
    unfolding switch_Reg2Imm_def reference_Reg2Imm_def
    by (simp only: list.sel list_all2_Cons list_all2_Nil prod.case)
      (intro conjI TrueI refl alt imm_ring imm_bitwise imm_compare imm_shift imm_shift_alt imm_rotate)
qed

lemma map_of_drop: "k \<notin> fst ` set (take n xs) \<Longrightarrow> map_of (drop n xs) k = map_of xs k"
  by (induction xs arbitrary: n) (auto simp: drop_Cons take_Cons split: nat.splits)

lemma reference_Reg2Imm_keys: "map_of reference_Reg2Imm op = Some r \<Longrightarrow> 131 \<le> op"
  by (auto simp: reference_Reg2Imm_def split: if_splits)

lemma load_store_keys: "op \<in> fst ` set (take 11 switch_Reg2Imm) \<Longrightarrow> op < 131"
  by (auto simp: switch_Reg2Imm_def)

section \<open>Sign extension of immediates\<close>

lemma X_signed_take_bit:
  assumes "0 < n"
  shows "word_of_int (X n (x mod 2 ^ (8 * n))) = (word_of_int (signed_take_bit (8 * n - 1) x) :: u64)"
proof -
  define m :: int where "m = 2 ^ (8 * n - 1)"
  define u where "u = x mod (2 * m)"
  have m: "2 ^ (8 * n) = 2 * m" "0 < m"
    using assms by (simp_all add: m_def power_Suc [symmetric] del: power_Suc)
  then have u: "0 \<le> u" "u < 2 * m" by (simp_all add: u_def)
  have "signed_take_bit (8 * n - 1) x = (x + m) mod (2 * m) - m"
    using assms m(1) by (simp add: signed_take_bit_eq_take_bit_shift take_bit_eq_mod m_def)
  also have "(x + m) mod (2 * m) = (u + m) mod (2 * m)" by (simp add: u_def mod_add_left_eq)
  finally have s: "signed_take_bit (8 * n - 1) x = (if u < m then u else u - 2 * m)"
    using shift_mod [OF u] by simp
  have X: "X n u = u + u div m * (2 ^ 64 - 2 * m)" unfolding X_def m(1) m_def ..
  have "X n u = signed_take_bit (8 * n - 1) x + (if u < m then 0 else 2 ^ 64)"
  proof (cases "u < m")
    case True
    then show ?thesis using u s by (simp add: X)
  next
    case False
    then have "u div m = 1" using u by (simp add: div_pos_geq)
    then show ?thesis using False s by (simp add: X)
  qed
  then show ?thesis by (simp add: m u_def)
qed

lemma bit_sign_extended:
  "bit (word_of_int (signed_take_bit m (uint (x :: u64))) :: u64) k \<longleftrightarrow> k < 64 \<and> bit x (min k m)"
  by (auto simp: bit_word_of_int_iff bit_signed_take_bit_iff bit_uint_iff min.commute dest: bit_imp_le_length)

lemma bit_scast64: "bit (scast (w :: 'a::len word) :: u64) k \<longleftrightarrow> k < 64 \<and> bit w (min k (LENGTH('a) - 1))"
  by (simp add: bit_signed_iff min.commute)

lemma scast_ucast_signed:
  "(scast (ucast (x :: u64) :: u8) :: u64) = word_of_int (signed_take_bit 7 (uint x))"
  "(scast (ucast (x :: u64) :: u16) :: u64) = word_of_int (signed_take_bit 15 (uint x))"
  "(scast (sar (ucast (shl (x :: u64) 8) :: u32) 8) :: u64) = word_of_int (signed_take_bit 23 (uint x))"
  "(scast (ucast (x :: u64) :: u32) :: u64) = word_of_int (signed_take_bit 31 (uint x))"
  by (rule bit_word_eqI; auto simp: bit_sign_extended bit_scast64 bit_ucast_iff
        bit_signed_drop_bit_iff bit_push_bit_iff min_def)+

section \<open>Numbers in memory\<close>

lemma unmarshal_serialized:
  assumes "(k, l) \<in> {(KUint8, 1), (KUint16, 2), (KUint32, 4), (KUint64, 8)}" "unat v < 2 ^ (8 * l)"
  shows "marshal_int k v = ret (serializeTrivialNatural v l)"
    and "unmarshal_int k (serializeTrivialNatural v l) = ret v"
proof -
  show m: "marshal_int k v = ret (serializeTrivialNatural v l)" using assms(1) by (auto simp: marshal_int_eq)
  have "encodable (TPrim k) (VUint v)" using assms by auto
  then obtain bs where bs: "marshal 1 (TPrim k) (VUint v) = ret bs"
    "unmarshal 1 (TPrim k) (bs @ []) = ret (VUint v, [])"
    using prefix_codec.encode_decode [OF codec_prim [of 0 k]] by (metis One_nat_def)
  have "bs = serializeTrivialNatural v l" using m bs(1)
    by (simp add: marshal_int_def Marshal_def jam_lift_def)
  moreover have "serializeTrivialNatural v l \<noteq> []"
    using assms(1) length_serializeTrivialNatural [of v l] by force
  ultimately show "unmarshal_int k (serializeTrivialNatural v l) = ret v"
    using bs(2) by (simp add: unmarshal_int_def Unmarshal_def jam_lift_def)
qed

section \<open>Properties\<close>



text \<open>
  C26: \<^bold>\<open>the arithmetic instructions with an immediate compute the specified function.\<close> The
  same for two registers and an immediate, loads and stores aside; exempt are shifts by a
  whole register width or more, which the code does not reduce, and
  \<^verbatim>\<open>ShiftArithmeticRightImmAlt64\<close>.
\<close>

theorem immediate_instructions_match_reference:
  assumes "map_of switch_Reg2Imm op = Some f" "map_of reference_Reg2Imm op = Some r"
    and "\<not> deviates_imm op (uint (regs i b)) (uint v)"
  shows "f dst b v i = no_error (setAndSkip dst
    (word_of_int (r (uint (regs i dst)) (uint (regs i b)) (uint v))) i)"
proof -
  have "op \<notin> fst ` set (take 11 switch_Reg2Imm)"
    using reference_Reg2Imm_keys [OF assms(2)] load_store_keys by fastforce
  then have "map_of (drop 11 switch_Reg2Imm) op = Some f"
    using assms(1) map_of_drop by metis
  then show ?thesis
    using map_of_related [OF switch_Reg2Imm_agrees _ assms(2)] assms(3) by (auto simp: agrees_imm_def)
qed

theorem immediate_instructions_match_reference_witness:
  "map_of switch_Reg2Imm 145 = Some (void3 ShiftLogicalRightImmAlt32) \<and>
   (let i = (demo_instance [] [] 5)\<lparr>regs := (\<lambda>_. 0)(A0 := 4)\<rparr> in
    void3 ShiftLogicalRightImmAlt32 T0 A0 4294967280 i = no_error (setAndSkip T0 268435455 i))"
proof -
  let ?i = "(demo_instance [] [] 5)\<lparr>regs := (\<lambda>_. 0)(A0 := 4)\<rparr>"
  define r :: "int \<Rightarrow> int \<Rightarrow> int \<Rightarrow> int" where
    "r = (\<lambda>a b v. X 4 ((v mod 2 ^ 32) div 2 ^ nat (b mod 32)))"
  have f: "map_of switch_Reg2Imm 145 = Some (void3 ShiftLogicalRightImmAlt32)" by (simp add: switch_Reg2Imm_def)
  have "map_of reference_Reg2Imm 145 = Some r" by (simp add: reference_Reg2Imm_def r_def)
  moreover have "\<not> deviates_imm 145 4 4294967280" by (simp add: deviates_imm_def)
  moreover have "r 0 4 4294967280 = 268435455" unfolding r_def by code_simp
  ultimately have "void3 ShiftLogicalRightImmAlt32 T0 A0 4294967280 ?i = no_error (setAndSkip T0 268435455 ?i)"
    using immediate_instructions_match_reference [OF f, of r ?i A0 4294967280 T0]
    by (simp add: demo_instance_def)
  then show ?thesis using f by (simp add: Let_def)
qed

text \<open>
  \<^verbatim>\<open>sext\<close> is the specified extension of the lowest octets of an immediate, for every
  length an instruction can encode; an absent immediate is zero.
\<close>

theorem sext_sign_extends:
  "sext v 0 = Some 0 \<and>
   sext v 1 = Some (word_of_int (X 1 (uint v mod 2 ^ 8))) \<and>
   sext v 2 = Some (word_of_int (X 2 (uint v mod 2 ^ 16))) \<and>
   sext v 3 = Some (word_of_int (X 3 (uint v mod 2 ^ 24))) \<and>
   sext v 4 = Some (word_of_int (X 4 (uint v mod 2 ^ 32))) \<and>
   sext v 8 = Some (word_of_int (X 8 (uint v mod 2 ^ 64)))"
  using X_signed_take_bit [of 1 "uint v"] X_signed_take_bit [of 2 "uint v"] X_signed_take_bit [of 3 "uint v"]
    X_signed_take_bit [of 4 "uint v"]
  by (simp add: sext_def scast_ucast_signed X_8)

text \<open>
  \<^bold>\<open>A stored number is loaded again.\<close> After a successful \<^verbatim>\<open>store\<close> of a number of one,
  two, four or eight octets, a \<^verbatim>\<open>load\<close> of that width from the same address gives the number
  back, and no register has changed.
\<close>

theorem store_load_roundtrip:
  assumes "(k, l) \<in> {(KUint8, 1), (KUint16, 2), (KUint32, 4), (KUint64, 8)}" "unat v < 2 ^ (8 * l)"
    and "store a k v i = Some (None, j)"
  shows "load a l k j = ret v \<and> regs j = regs i"
proof -
  obtain m where m: "Memory_Write (memory i) a (serializeTrivialNatural v l) = ret m"
    "skip (i\<lparr>memory := m\<rparr>) = Some j"
    using assms(3) unmarshal_serialized(1) [OF assms(1,2)]
    by (auto simp: store_def try_call_def no_error_def split: option.splits sum.splits)
  have "l < 2 ^ 64" using assms(1) by auto
  then have "Memory_Read m a l = ret (serializeTrivialNatural v l)"
    using ram.rd_wr_same [OF m(1)] by simp
  moreover have "memory j = m" "regs j = regs i"
    using m(2) by (auto simp: skip_def split: bind_splits)
  ultimately show ?thesis using unmarshal_serialized(2) [OF assms(1,2)] by (simp add: load_def)
qed

theorem store_load_roundtrip_witness:
  "\<exists>j. store 131073 KUint32 3735928559 (demo_instance [] [] 5) = Some (None, j) \<and>
     load 131073 4 KUint32 j = ret 3735928559 \<and> regs j = regs (demo_instance [] [] 5)"
proof -
  have "map_option fst (store 131073 KUint32 3735928559 (demo_instance [] [] 5)) = Some None"
    by code_simp
  then obtain j where "store 131073 KUint32 3735928559 (demo_instance [] [] 5) = Some (None, j)" by auto
  then show ?thesis using store_load_roundtrip [of KUint32 4 3735928559] by simp
qed

text \<open>
  Where the instructions depart from the formulas of their own comments. The signed
  comparison looks at 32 bits only, the remainder of the least number has the wrong sign, a
  shift by 64 is not a shift by \<open>64 mod 64\<close>, and an arithmetic shift of a 64-bit immediate
  keeps 32 bits of it.
\<close>

theorem arithmetic_deviations:
  "(let j = with_args (2 ^ 31) 0 i in SetLessThanSigned T0 A0 A1 j = setAndSkip T0 1 j \<and> \<not> Z 8 (2 ^ 31) < Z 8 0) \<and>
   (let j = with_args (2 ^ 63) 3 i in RemSigned64 T0 A0 A1 j = setAndSkip T0 2 j \<and> smod (Z 8 (2 ^ 63)) (Z 8 3) = - 2) \<and>
   (let j = with_args (2 ^ 31) 3 i in RemSigned32 T0 A0 A1 j = setAndSkip T0 2 j \<and> smod (Z 4 (2 ^ 31)) (Z 4 3) = - 2) \<and>
   (let j = with_args 5 0 i in ShiftLogicalLeftImm64 T0 A0 64 j = setAndSkip T0 0 j \<and>
      (5 * 2 ^ nat (64 mod 64)) mod 2 ^ 64 = (5 :: int)) \<and>
   (let j = with_args 0 0 i in ShiftArithmeticRightImmAlt64 T0 A0 (2 ^ 31) j = setAndSkip T0 (- (2 ^ 31)) j \<and>
      Z_inv 8 (Z 8 (2 ^ 31) div 2 ^ nat (0 mod 64)) = 2 ^ 31)"
proof -
  have lt: "sint (ucast (2147483648 :: u64) :: u32) < 0" by code_simp
  have rem64: "smod64 9223372036854775808 3 = 2" "sint (9223372036854775808 :: u64) \<noteq> - 2147483648" by code_simp+
  have rem32: "scast (smod32 (ucast (2147483648 :: u64)) (ucast (3 :: u64))) = (2 :: u64)"
     "sint (ucast (3 :: u64) :: u32) \<noteq> - 1" "ucast (3 :: u64) \<noteq> (0 :: u32)" by code_simp+
  have shl: "push_bit 64 (5 :: u64) = 0" by code_simp
  have sar: "(scast (ucast (2147483648 :: u64) :: u32) :: u64) = - 2147483648" by code_simp
  have ref: "\<not> Z 8 (2 ^ 31) < Z 8 0" "smod (Z 8 (2 ^ 63)) (Z 8 3) = - 2" "smod (Z 4 (2 ^ 31)) (Z 4 3) = - 2"
    "Z_inv 8 (Z 8 (2 ^ 31) div 2 ^ nat (0 mod 64)) = 2 ^ 31" by code_simp+
  show ?thesis
    using lt rem64 rem32 shl sar ref
    by (simp add: Let_def with_args_def mutator_defs bool2uint64_def sext_8 setAndSkip_def)
qed

end
