(* ===== verification/Service_Accounts.thy ===== *)
theory Service_Accounts
  imports Prelude "HOL-Library.AList"
begin

text \<open>
  Service accounts (\<^verbatim>\<open>internal/service/service.go\<close>) and the choice of their indices
  (\<^verbatim>\<open>internal/service/util.go\<close>), on a heap of the maps they refer to.
\<close>

section \<open>Go maps\<close>

text \<open>
  A Go map is a reference: two variables that hold it see each other's updates, and a nil map
  reads as an empty one but cannot be assigned to. A reference is a number, \<open>None\<close> the nil map,
  and a family of maps of one type gives the entries at each number. \<open>go_assign\<close> to the nil map
  is the run-time panic, \<open>None\<close>. The entries have distinct keys; their order, which Go leaves
  open, is never observed.
\<close>

type_synonym ref = "nat option"
type_synonym ('k, 'v) maps = "nat \<Rightarrow> ('k \<times> 'v) list"

definition go_map :: "('k, 'v) maps \<Rightarrow> ref \<Rightarrow> ('k \<times> 'v) list" where
  "go_map f r = (case r of None \<Rightarrow> [] | Some a \<Rightarrow> f a)"

definition go_assign :: "('k, 'v) maps \<Rightarrow> ref \<Rightarrow> 'k \<Rightarrow> 'v \<Rightarrow> ('k, 'v) maps option" where
  "go_assign f r k v = (case r of None \<Rightarrow> None | Some a \<Rightarrow> Some (f(a := AList.update k v (f a))))"

definition go_delete :: "('k, 'v) maps \<Rightarrow> ref \<Rightarrow> 'k \<Rightarrow> ('k, 'v) maps" where
  "go_delete f r k = (case r of None \<Rightarrow> f | Some a \<Rightarrow> f(a := AList.delete k (f a)))"

text \<open>What the users of a family of maps rely on.\<close>

locale shared_maps =
  fixes get :: "'h \<Rightarrow> ref \<Rightarrow> 'k \<Rightarrow> 'v option"
    and put :: "'h \<Rightarrow> ref \<Rightarrow> 'k \<Rightarrow> 'v \<Rightarrow> 'h option"
    and del :: "'h \<Rightarrow> ref \<Rightarrow> 'k \<Rightarrow> 'h"
  assumes get_put: "put f r k v = Some f' \<Longrightarrow> get f' r' = (if r' = r then (get f r)(k \<mapsto> v) else get f r')"
    and get_del: "get (del f r k) r' = (if r' = r then (get f r)(k := None) else get f r')"
    and put_nil: "put f r k v = None \<longleftrightarrow> r = None"
begin

lemma put_then_get: "put f r k v = Some f' \<Longrightarrow> get f' r k = Some v"
  by (simp add: get_put)

lemma other_map_kept: "put f r k v = Some f' \<Longrightarrow> r' \<noteq> r \<Longrightarrow> get f' r' = get f r'"
  by (simp add: get_put)

lemma put_defined: "r \<noteq> None \<Longrightarrow> \<exists>f'. put f r k v = Some f'"
  using put_nil [of f r k v] by (cases "put f r k v") auto

end

interpretation gomap: shared_maps "\<lambda>f r. map_of (go_map f r)" go_assign go_delete
  by unfold_locales
    (auto simp: go_assign_def go_delete_def go_map_def update_conv' delete_conv' split: option.splits)

section \<open>Accounts\<close>

text \<open>
  A hash is its 32 octets.
\<close>

type_synonym Hash = bytes
type_synonym ServiceId = u32
type_synonym Timeslot = u32

record PreImageMetaKey =
  key_Hash :: Hash
  key_Length :: u32

text \<open>
  The three dictionaries of an account are references.
\<close>

record ServiceAccount =
  Storage :: ref
  PreimageLookup :: ref
  PreimageMeta :: ref
  CodeHash :: Hash
  Balance :: u64
  GasLimitForAccumulator :: u64
  GasLimitOnTransfer :: u64

text \<open>
  All the maps that accounts and contexts refer to: storage and preimages, the history of each
  preimage, the dictionaries of services, the gas of privileged services; \<open>fresh\<close> is the next
  unused reference.
\<close>

record Heap =
  blobs :: "(Hash, bytes) maps"
  metas :: "(PreImageMetaKey, Timeslot list) maps"
  states :: "(ServiceId, ServiceAccount) maps"
  amounts :: "(ServiceId, u64) maps"
  fresh :: nat

text \<open>
  The zero value, which reading an absent key of a dictionary gives.
\<close>

definition ServiceAccount_zero :: ServiceAccount where
  "ServiceAccount_zero = \<lparr>Storage = None, PreimageLookup = None, PreimageMeta = None,
     CodeHash = replicate 32 0, Balance = 0, GasLimitForAccumulator = 0, GasLimitOnTransfer = 0\<rparr>"

definition empty_heap :: Heap where
  "empty_heap = \<lparr>blobs = (\<lambda>_. []), metas = (\<lambda>_. []), states = (\<lambda>_. []), amounts = (\<lambda>_. []), fresh = 0\<rparr>"

definition service_of :: "Heap \<Rightarrow> ref \<Rightarrow> ServiceId \<Rightarrow> ServiceAccount option" where
  "service_of h r = map_of (go_map (states h) r)"

text \<open>
  \<^verbatim>\<open>Code\<close> and \<^verbatim>\<open>LookupPreimage\<close> return a slice that may be nil: \<open>None\<close>. A slice in a map is
  never nil.
\<close>

definition Code :: "Heap \<Rightarrow> ServiceAccount \<Rightarrow> bytes option" where
  "Code h sa = map_of (go_map (blobs h) (PreimageLookup sa)) (CodeHash sa)"

definition TotalItems :: "Heap \<Rightarrow> ServiceAccount \<Rightarrow> u32" where
  "TotalItems h sa =
     (let totalPreimages = length (go_map (blobs h) (PreimageLookup sa));
          totalStorageItems = length (go_map (blobs h) (Storage sa))
      in of_nat (2 * totalPreimages + totalStorageItems))"

definition TotalStorageSize :: "Heap \<Rightarrow> ServiceAccount \<Rightarrow> u64" where
  "TotalStorageSize h sa =
     (let al = foldl (\<lambda>al (_, z). al + (81 + of_nat (length z))) 0 (go_map (blobs h) (PreimageLookup sa))
      in foldl (\<lambda>al (_, x). al + (32 + of_nat (length x))) al (go_map (blobs h) (Storage sa)))"

definition BasicMinimumBalance :: u64 where "BasicMinimumBalance = 100"
definition AdditionalMinimumBalancePerItem :: u64 where "AdditionalMinimumBalancePerItem = 10"
definition AdditionalMinimumBalancePerOctet :: u64 where "AdditionalMinimumBalancePerOctet = 1"
definition TransferMemoSizeBytes :: nat where "TransferMemoSizeBytes = 128"

definition ThresholdBalance :: "Heap \<Rightarrow> ServiceAccount \<Rightarrow> u64" where
  "ThresholdBalance h sa =
     (let ai = ucast (TotalItems h sa); al = TotalStorageSize h sa
      in BasicMinimumBalance + AdditionalMinimumBalancePerItem * ai + AdditionalMinimumBalancePerOctet * al)"

definition PreimageKey :: "Hash \<Rightarrow> nat \<Rightarrow> PreImageMetaKey" where
  "PreimageKey h n = \<lparr>key_Hash = h, key_Length = of_nat n\<rparr>"

text \<open>
  The hash function is \<^verbatim>\<open>blake2b\<close> of a library outside the repository, hence a parameter. The
  bound 3 is \<^verbatim>\<open>common.MaxHistoricalTimeslotsForPreimageMeta\<close>.
\<close>

definition AddPreimage :: "(bytes \<Rightarrow> Hash) \<Rightarrow> ServiceAccount \<Rightarrow> bytes \<Rightarrow> Timeslot \<Rightarrow> Heap \<Rightarrow> Heap option" where
  "AddPreimage HashData sa p currentTimeslot hp =
     (let h = HashData p; metaKey = PreimageKey h (length p) in
      if map_of (go_map (blobs hp) (PreimageLookup sa)) h \<noteq> None then
        (case map_of (go_map (metas hp) (PreimageMeta sa)) metaKey of
           None \<Rightarrow> Some hp
         | Some metadata \<Rightarrow>
             if length metadata < 3 then do {
               m \<leftarrow> go_assign (metas hp) (PreimageMeta sa) metaKey (metadata @ [currentTimeslot]);
               Some (hp\<lparr>metas := m\<rparr>)
             }
             else Some hp)
      else do {
        b \<leftarrow> go_assign (blobs hp) (PreimageLookup sa) h p;
        m \<leftarrow> go_assign (metas hp) (PreimageMeta sa) metaKey [currentTimeslot];
        Some (hp\<lparr>blobs := b, metas := m\<rparr>)
      })"

definition isPreimageAvailableAt :: "Timeslot list \<Rightarrow> Timeslot \<Rightarrow> bool" where
  "isPreimageAvailableAt metadata t =
     (case metadata of
        [] \<Rightarrow> False
      | [x] \<Rightarrow> x \<le> t
      | [x, y] \<Rightarrow> x \<le> t \<and> t < y
      | [x, y, z] \<Rightarrow> (x \<le> t \<and> t < y) \<or> z \<le> t
      | _ \<Rightarrow> False)"

definition LookupPreimage :: "ServiceAccount \<Rightarrow> Timeslot \<Rightarrow> Hash \<Rightarrow> Heap \<Rightarrow> bytes option" where
  "LookupPreimage sa t h hp =
     do {
       p \<leftarrow> map_of (go_map (blobs hp) (PreimageLookup sa)) h;
       metadata \<leftarrow> map_of (go_map (metas hp) (PreimageMeta sa)) (PreimageKey h (length p));
       if isPreimageAvailableAt metadata t then Some p else None
     }"

text \<open>
  Indices are \<^verbatim>\<open>uint32\<close>, so that the subtraction of \<open>2 ^ 8\<close> wraps below it; \<open>4294966784\<close> is
  \<open>2 ^ 32 - 2 ^ 9\<close>. \<^verbatim>\<open>CheckIndex\<close> calls itself until it meets a free index: \<open>None\<close> is a search
  that never ends.
\<close>

definition BumpIndex :: "ServiceId \<Rightarrow> ServiceId" where
  "BumpIndex serviceIndex = (serviceIndex - 256 + 42) mod 4294966784 + 256"

partial_function (option) CheckIndex :: "ServiceId \<Rightarrow> (ServiceId \<times> ServiceAccount) list \<Rightarrow> ServiceId option" where
  "CheckIndex serviceIndex serviceState =
     (case map_of serviceState serviceIndex of
        None \<Rightarrow> Some serviceIndex
      | Some _ \<Rightarrow> CheckIndex ((serviceIndex - 256 + 1) mod 4294966784 + 256) serviceState)"

definition DeriveIndex :: "ServiceId \<Rightarrow> (ServiceId \<times> ServiceAccount) list \<Rightarrow> ServiceId option" where
  "DeriveIndex serviceIndex serviceState =
     CheckIndex ((serviceIndex - 256 + 1) mod 4294966784 + 256) serviceState"

section \<open>The search for a free index\<close>

lemma successor_index:
  assumes "256 \<le> unat i" "unat i < 4294967040"
  shows "unat ((i - 256 + 1) mod 4294966784 + 256 :: u32) = (unat i - 256 + 1) mod 4294966784 + 256"
proof -
  have "unat (i - 256 + 1) = unat i - 256 + 1"
    using assms by (simp add: unat_sub unat_word_ariths word_le_nat_alt)
  then show ?thesis
    by (simp add: unat_word_ariths unat_mod_distrib)
qed

lemma index_range: "256 \<le> unat ((i - 256 + k) mod 4294966784 + 256 :: u32) \<and> unat ((i - 256 + k) mod 4294966784 + 256 :: u32) < 4294967040"
proof -
  have "unat ((i - 256 + k) mod 4294966784) < 4294966784" by (simp add: unat_mod_distrib)
  then show ?thesis by (simp add: unat_word_ariths)
qed

definition successor :: "ServiceId \<Rightarrow> ServiceId" where
  "successor i = (i - 256 + 1) mod 4294966784 + 256"

lemma mod_shift_inj:
  fixes m n k x :: nat
  assumes "(x + m) mod k = (x + n) mod k" "m < k" "n < k"
  shows "m = n"
proof (cases "m \<le> n")
  case True
  then have "k dvd n - m" using assms(1) mod_eq_dvd_iff_nat [of "x + m" "x + n" k] by simp
  then show ?thesis using True assms by (auto dest: dvd_imp_le)
next
  case False
  then have "k dvd m - n" using assms(1) mod_eq_dvd_iff_nat [of "x + n" "x + m" k] by simp
  then show ?thesis using False assms by (auto dest: dvd_imp_le)
qed

lemma iterated_successor:
  assumes "256 \<le> unat i" "unat i < 4294967040"
  shows "unat ((successor ^^ n) i) = (unat i - 256 + n) mod 4294966784 + 256"
proof (induction n)
  case 0
  then show ?case using assms by simp
next
  case (Suc n)
  let ?j = "(successor ^^ n) i"
  have "unat ?j < 4294967040" using Suc by simp
  then show ?case
    using successor_index [of ?j, folded successor_def] Suc by (simp add: mod_Suc_eq)
qed

lemma CheckIndex_unfold:
  "CheckIndex i st = (if i \<in> dom (map_of st) then CheckIndex (successor i) st else Some i)"
  by (subst CheckIndex.simps) (auto simp: successor_def split: option.split)

lemma CheckIndex_iterates:
  "(successor ^^ n) i \<notin> dom (map_of st) \<Longrightarrow> \<exists>j. CheckIndex i st = Some j \<and> j \<notin> dom (map_of st)"
proof (induction n arbitrary: i)
  case 0
  then show ?case by (subst CheckIndex_unfold) auto
next
  case (Suc n)
  then have "(successor ^^ n) (successor i) \<notin> dom (map_of st)" by (simp add: funpow_swap1)
  then have "\<exists>j. CheckIndex (successor i) st = Some j \<and> j \<notin> dom (map_of st)" by (rule Suc.IH)
  then show ?case by (subst CheckIndex_unfold) auto
qed

lemma CheckIndex_in_range:
  assumes "256 \<le> unat i" "unat i < 4294967040" "card (dom (map_of st)) < 4294966784"
  shows "\<exists>j. CheckIndex i st = Some j \<and> j \<notin> dom (map_of st)"
proof (rule ccontr)
  define N :: nat where "N = 4294966784"
  let ?f = "\<lambda>n. (successor ^^ n) i"
  assume "\<not> ?thesis"
  then have sub: "?f ` {..<N} \<subseteq> dom (map_of st)" using CheckIndex_iterates by blast
  have f: "unat (?f n) = (unat i - 256 + n) mod N + 256" for n
    unfolding N_def by (rule iterated_successor [OF assms(1,2)])
  have "inj_on ?f {..<N}"
  proof (rule inj_onI)
    fix m n assume mn: "m \<in> {..<N}" "n \<in> {..<N}" "?f m = ?f n"
    then have "(unat i - 256 + m) mod N = (unat i - 256 + n) mod N"
      using f [of m] f [of n] by simp
    then show "m = n" using mod_shift_inj mn(1,2) by (metis lessThan_iff)
  qed
  then have "card (?f ` {..<N}) = N" by (simp add: card_image)
  moreover have "card (dom (map_of st)) < N" unfolding N_def by (rule assms(3))
  ultimately show False using card_mono [OF finite_dom_map_of sub] by simp
qed

lemma CheckIndex_finds:
  assumes "card (dom (map_of st)) < 4294966784"
  shows "\<exists>j. CheckIndex i st = Some j \<and> j \<notin> dom (map_of st)"
proof (cases "i \<in> dom (map_of st)")
  case True
  then show ?thesis
    using CheckIndex_in_range [of "successor i" st] index_range [of i 1, folded successor_def] assms
    by (subst CheckIndex_unfold) auto
next
  case False
  then show ?thesis by (subst CheckIndex_unfold) auto
qed

section \<open>Preimages\<close>

lemma AddPreimage_new:
  assumes "map_of (go_map (blobs hp) (PreimageLookup sa)) (HashData p) = None"
    and "AddPreimage HashData sa p t hp = Some hp'"
  shows "LookupPreimage sa t' (HashData p) hp' = (if t \<le> t' then Some p else None)"
proof -
  obtain b m where "go_assign (blobs hp) (PreimageLookup sa) (HashData p) p = Some b"
    "go_assign (metas hp) (PreimageMeta sa) (PreimageKey (HashData p) (length p)) [t] = Some m"
    "hp' = hp\<lparr>blobs := b, metas := m\<rparr>"
    using assms by (auto simp: AddPreimage_def Let_def split: bind_splits)
  then show ?thesis
    by (simp add: LookupPreimage_def gomap.put_then_get isPreimageAvailableAt_def)
qed

section \<open>Properties\<close>

text \<open>
  \<^bold>\<open>A free index is found.\<close> As long as not all \<open>2 ^ 32 - 2 ^ 9\<close> indices are taken, the search
  of \<^verbatim>\<open>CheckIndex\<close> ends, from wherever it starts, and at an index that no service has.
\<close>

theorem CheckIndex_finds_free_index:
  assumes "card (dom (map_of serviceState)) < 2 ^ 32 - 2 ^ 9"
  shows "\<exists>j. CheckIndex i serviceState = Some j \<and> j \<notin> dom (map_of serviceState)"
  using CheckIndex_finds assms by simp

theorem CheckIndex_finds_free_index_witness:
  "\<exists>j. CheckIndex 4294967039 [(4294967039, ServiceAccount_zero), (256, ServiceAccount_zero)] = Some j \<and>
     j \<notin> {4294967039, 256}"
  using CheckIndex_finds_free_index [of "[(4294967039, ServiceAccount_zero), (256, ServiceAccount_zero)]" 4294967039]
  by (simp add: dom_fun_upd insert_commute)

text \<open>
  \<^bold>\<open>A preimage that was added is found.\<close> Adding a preimage that the account does not have makes
  \<^verbatim>\<open>LookupPreimage\<close> return it from that timeslot on, and nothing for an earlier timeslot.
\<close>

theorem AddPreimage_then_LookupPreimage:
  assumes "map_of (go_map (blobs hp) (PreimageLookup sa)) (HashData p) = None"
    and "AddPreimage HashData sa p t hp = Some hp'"
  shows "LookupPreimage sa t' (HashData p) hp' = (if t \<le> t' then Some p else None)"
  using assms by (rule AddPreimage_new)

theorem AddPreimage_then_LookupPreimage_witness:
  "let sa = ServiceAccount_zero\<lparr>PreimageLookup := Some 0, PreimageMeta := Some 0\<rparr>; HashData = (\<lambda>p. replicate 32 7)
   in \<exists>hp'. AddPreimage HashData sa [1, 2] 5 empty_heap = Some hp' \<and>
        LookupPreimage sa 6 (HashData [1, 2]) hp' = Some [1, 2]"
proof -
  let ?sa = "ServiceAccount_zero\<lparr>PreimageLookup := Some 0, PreimageMeta := Some 0\<rparr>"
  let ?H = "\<lambda>p. replicate 32 7 :: Hash"
  have none: "map_of (go_map (blobs empty_heap) (PreimageLookup ?sa)) (?H [1, 2]) = None"
    by (simp add: empty_heap_def go_map_def)
  then obtain hp' where "AddPreimage ?H ?sa [1, 2] 5 empty_heap = Some hp'"
    by (simp add: AddPreimage_def go_assign_def Let_def)
  then show ?thesis
    using AddPreimage_then_LookupPreimage [of empty_heap ?sa ?H "[1, 2]"] none by (simp add: Let_def)
qed

end
