(* ===== verification/Work_Package.thy ===== *)
theory Work_Package
  imports Jam_Roundtrip Service_Accounts
begin

text \<open>
  Work packages (\<^verbatim>\<open>internal/work/package.go\<close>, \<^verbatim>\<open>item.go\<close>, \<^verbatim>\<open>common.go\<close>, \<^verbatim>\<open>constants.go\<close>): their checks,
  their authorizer, their encoding.
\<close>

section \<open>Work items and packages\<close>

text \<open>
  The structures as in the source; the two anchors of a refinement context are flattened into
  it.
\<close>

record Extrinsic =
  ext_Hash :: Hash
  ext_Length :: u32

record ImportedSegment =
  imp_Hash :: Hash
  imp_Index :: u16

record Item =
  item_ServiceId :: ServiceId
  item_CodeHash :: Hash
  Payload :: bytes
  GasLimitRefine :: u64
  GasLimitAccumulate :: u64
  ImportedSegments :: "ImportedSegment list"
  Extrinsics :: "Extrinsic list"
  ExportedSegments :: u16

record RefinementContext =
  anchor_HeaderHash :: Hash
  PosteriorStateRoot :: Hash
  PosteriorBeefyRoot :: Hash
  lookup_HeaderHash :: Hash
  lookup_Timeslot :: Timeslot
  PrerequisiteWorkPackage :: "Hash list"

record Package =
  AuthorizationToken :: bytes
  AuthorizerService :: u32
  AuthCodeHash :: Hash
  Parameterization :: bytes
  pkg_Context :: RefinementContext
  WorkItems :: "Item list"

definition SizeOfSegment :: u64 where "SizeOfSegment = 4104"
definition MaxNumberOfEntries :: nat where "MaxNumberOfEntries = 2048"
definition MaxSizeOfEncodedWorkPackage :: u64 where "MaxSizeOfEncodedWorkPackage = 12582912"
definition MaxAllocatedGasAccumulation :: u64 where "MaxAllocatedGasAccumulation = 10000000"
definition MaxAllocatedGasRefine :: u64 where "MaxAllocatedGasRefine = 500000000"
definition MaxAllocatedGasIsAuthorized :: u64 where "MaxAllocatedGasIsAuthorized = 50000000"

text \<open>
  The sums are of the width of their variables: \<^verbatim>\<open>uint64\<close> for sizes and gas, \<^verbatim>\<open>uint16\<close> for the
  numbers of segments. An error is its message, without the numbers printed into it.
\<close>

definition Size :: "Item \<Rightarrow> u64" where
  "Size w =
     (let total = of_nat (length (Payload w));
          total = total + of_nat (length (ImportedSegments w)) * SizeOfSegment
      in foldl (\<lambda>total bh. total + ucast (ext_Length bh)) total (Extrinsics w))"

definition ValidateNumberOfEntries :: "Package \<Rightarrow> string option" where
  "ValidateNumberOfEntries wp =
     (let totalExported = foldl (\<lambda>t w. t + ExportedSegments w) 0 (WorkItems wp);
          totalImported = foldl (\<lambda>t w. t + of_nat (length (ImportedSegments w))) (0 :: u16) (WorkItems wp)
      in
      if unat totalExported > MaxNumberOfEntries then Some ''exceeded maximum exported segments: %d/%d''
      else if unat totalImported > MaxNumberOfEntries then Some ''exceeded maximum imported segments: %d/%d''
      else None)"

definition ValidateSize :: "Package \<Rightarrow> string option" where
  "ValidateSize wp =
     (let totalSize = of_nat (length (AuthorizationToken wp)) + of_nat (length (Parameterization wp));
          totalSize = foldl (\<lambda>t w. t + Size w) totalSize (WorkItems wp)
      in if totalSize > MaxSizeOfEncodedWorkPackage then Some ''work-package size exceeds limit: %d/%d bytes'' else None)"

definition ValidateGas :: "Package \<Rightarrow> string option" where
  "ValidateGas wp =
     (let totalAccumulate = foldl (\<lambda>t w. t + GasLimitAccumulate w) 0 (WorkItems wp);
          totalRefine = foldl (\<lambda>t w. t + GasLimitRefine w) 0 (WorkItems wp)
      in
      if totalAccumulate \<ge> MaxAllocatedGasAccumulation then Some ''accumulation gas exceeds limit GA: %d/%d''
      else if totalRefine \<ge> MaxAllocatedGasRefine then Some ''refine gas exceeds limit GR: %d/%d''
      else None)"

definition GetAuthorizationCode :: "Package \<Rightarrow> ref \<Rightarrow> Heap \<Rightarrow> string + bytes" where
  "GetAuthorizationCode wp serviceState hp =
     (case service_of hp serviceState (AuthorizerService wp) of
        None \<Rightarrow> Inl ''service %d not found in service state''
      | Some sa \<Rightarrow>
          (case LookupPreimage sa (lookup_Timeslot (pkg_Context wp)) (AuthCodeHash wp) hp of
             None \<Rightarrow> Inl ''unable to find preimage for AuthCodeHash at given timeslot''
           | Some authorizationCode \<Rightarrow> Inr authorizationCode))"

definition ComputeAuthorizerHashes ::
  "(bytes \<Rightarrow> Hash) \<Rightarrow> Package \<Rightarrow> ref \<Rightarrow> Heap \<Rightarrow> string + bytes \<times> Hash" where
  "ComputeAuthorizerHashes HashData wp serviceState hp =
     (case GetAuthorizationCode wp serviceState hp of
        Inl err \<Rightarrow> Inl (''failed to get authorization code: '' @ err)
      | Inr authorizationCode \<Rightarrow>
          Inr (authorizationCode, HashData (authorizationCode @ Parameterization wp)))"

text \<open>
  The arithmetic is on \<^verbatim>\<open>int\<close>; lengths are far below its range.
\<close>

definition ZeroPadding :: "bytes \<Rightarrow> nat \<Rightarrow> bytes" where
  "ZeroPadding x n =
     (if n = 0 then x
      else
        let start = (length x + n - 1) mod n + 1; paddingLength = int n - int start in
        if paddingLength \<le> 0 then x else x @ replicate (nat paddingLength) 0)"

section \<open>Encoding\<close>

text \<open>
  The types as the codec sees them, by reflection on the structures, and the values of a
  package at these types.
\<close>

definition hash_type :: jtype where
  "hash_type = TArray 32 (TPrim KUint8)"

definition hash_value :: "Hash \<Rightarrow> jval" where
  "hash_value h = VList (map (\<lambda>b. VUint (ucast b)) h)"

definition struct_type :: "jtype list \<Rightarrow> jtype" where
  "struct_type ts = TStruct (map (\<lambda>t. (NoTag, t)) ts)"

definition Item_type :: jtype where
  "Item_type = struct_type [TNamed KUint32, hash_type, TBytes, TPrim KUint64, TPrim KUint64,
     TSlice (struct_type [hash_type, TPrim KUint16]), TSlice (struct_type [hash_type, TPrim KUint32]), TPrim KUint16]"

definition Item_value :: "Item \<Rightarrow> jval" where
  "Item_value w = VStruct [VUint (ucast (item_ServiceId w)), hash_value (item_CodeHash w), VBytes (Payload w),
     VUint (GasLimitRefine w), VUint (GasLimitAccumulate w),
     VList (map (\<lambda>s. VStruct [hash_value (imp_Hash s), VUint (ucast (imp_Index s))]) (ImportedSegments w)),
     VList (map (\<lambda>e. VStruct [hash_value (ext_Hash e), VUint (ucast (ext_Length e))]) (Extrinsics w)),
     VUint (ucast (ExportedSegments w))]"

definition RefinementContext_type :: jtype where
  "RefinementContext_type = struct_type [struct_type [hash_type, hash_type, hash_type],
     struct_type [hash_type, TNamed KUint32], TSlice hash_type]"

definition RefinementContext_value :: "RefinementContext \<Rightarrow> jval" where
  "RefinementContext_value c = VStruct [
     VStruct [hash_value (anchor_HeaderHash c), hash_value (PosteriorStateRoot c), hash_value (PosteriorBeefyRoot c)],
     VStruct [hash_value (lookup_HeaderHash c), VUint (ucast (lookup_Timeslot c))],
     VList (map hash_value (PrerequisiteWorkPackage c))]"

definition Package_type :: jtype where
  "Package_type = struct_type [TBytes, TPrim KUint32, hash_type, TBytes, RefinementContext_type, TSlice Item_type]"

definition Package_value :: "Package \<Rightarrow> jval" where
  "Package_value p = VStruct [VBytes (AuthorizationToken p), VUint (ucast (AuthorizerService p)),
     hash_value (AuthCodeHash p), VBytes (Parameterization p), RefinementContext_value (pkg_Context p),
     VList (map Item_value (WorkItems p))]"

text \<open>
  Slices below \<open>2 ^ 32\<close> entries and hashes of 32 octets, which the types of the source
  guarantee.
\<close>

definition wf_item :: "Item \<Rightarrow> bool" where
  "wf_item w \<longleftrightarrow> length (item_CodeHash w) = 32 \<and> length (Payload w) < 2 ^ 32 \<and>
     length (ImportedSegments w) < 2 ^ 32 \<and> length (Extrinsics w) < 2 ^ 32 \<and>
     (\<forall>s \<in> set (ImportedSegments w). length (imp_Hash s) = 32) \<and>
     (\<forall>e \<in> set (Extrinsics w). length (ext_Hash e) = 32)"

definition wf_package :: "Package \<Rightarrow> bool" where
  "wf_package p \<longleftrightarrow> length (AuthorizationToken p) < 2 ^ 32 \<and> length (AuthCodeHash p) = 32 \<and>
     length (Parameterization p) < 2 ^ 32 \<and> length (WorkItems p) < 2 ^ 32 \<and>
     length (anchor_HeaderHash (pkg_Context p)) = 32 \<and> length (PosteriorStateRoot (pkg_Context p)) = 32 \<and>
     length (PosteriorBeefyRoot (pkg_Context p)) = 32 \<and> length (lookup_HeaderHash (pkg_Context p)) = 32 \<and>
     length (PrerequisiteWorkPackage (pkg_Context p)) < 2 ^ 32 \<and>
     (\<forall>h \<in> set (PrerequisiteWorkPackage (pkg_Context p)). length h = 32) \<and>
     (\<forall>w \<in> set (WorkItems p). wf_item w)"

text \<open>A small package, for examples.\<close>

definition demo_package :: Package where
  "demo_package = \<lparr>AuthorizationToken = [1], AuthorizerService = 7, AuthCodeHash = replicate 32 2,
     Parameterization = [], pkg_Context = \<lparr>anchor_HeaderHash = replicate 32 0, PosteriorStateRoot = replicate 32 0,
       PosteriorBeefyRoot = replicate 32 0, lookup_HeaderHash = replicate 32 0, lookup_Timeslot = 9,
       PrerequisiteWorkPackage = []\<rparr>,
     WorkItems = [\<lparr>item_ServiceId = 7, item_CodeHash = replicate 32 3, Payload = [5, 6], GasLimitRefine = 100,
       GasLimitAccumulate = 50, ImportedSegments = [\<lparr>imp_Hash = replicate 32 4, imp_Index = 1\<rparr>], Extrinsics = [],
       ExportedSegments = 2\<rparr>]\<rparr>"

section \<open>Packages the codec can carry\<close>

lemma unat_ucast_less:
  "unat (ucast (x :: u8) :: u64) < 256" "unat (ucast (y :: u16) :: u64) < 65536" "unat (ucast (z :: u32) :: u64) < 4294967296"
  using unat_below [of 8 x] unat_below [of 16 y] unat_below [of 32 z]
  by (simp_all add: unsigned_ucast_eq le_less_trans [OF take_bit_nat_less_eq_self])

lemma unat64_less: "unat (x :: u64) < 18446744073709551616"
  using unsigned_less [of x] by simp

lemma encodable_hash: "length h = 32 \<Longrightarrow> encodable hash_type (hash_value h)"
  by (auto simp: hash_type_def hash_value_def unat_ucast_less unat64_less list_all_iff)

lemma encodable_item: "wf_item w \<Longrightarrow> encodable Item_type (Item_value w)"
  by (auto simp: wf_item_def Item_type_def Item_value_def struct_type_def encodable_hash unat_ucast_less unat64_less list_all_iff)

lemma encodable_package: "wf_package p \<Longrightarrow> encodable Package_type (Package_value p)"
  by (auto simp: wf_package_def Package_type_def Package_value_def RefinementContext_type_def RefinementContext_value_def
      struct_type_def encodable_hash encodable_item unat_ucast_less unat64_less list_all_iff)

lemma Package_depth: "stack_depth Package_type = 7"
  by (simp add: Package_type_def RefinementContext_type_def Item_type_def struct_type_def hash_type_def)


section \<open>Sums and padding\<close>

lemma foldl_sum: "foldl (\<lambda>t w. t + f w) (a :: 'a::comm_monoid_add) ws = a + sum_list (map f ws)"
  by (induction ws arbitrary: a) (simp_all add: add.assoc)

lemma unat_sum_list: "unat (sum_list (map f ws) :: 'a::len word) = sum_list (map (\<lambda>w. unat (f w)) ws) mod 2 ^ LENGTH('a)"
  by (induction ws) (simp_all add: unat_word_ariths mod_simps)

lemma sum_unat_of_nat: "sum_list (map (\<lambda>w. unat (of_nat (f w) :: u16)) ws) mod 65536 = sum_list (map f ws) mod 65536"
  by (induction ws) (simp_all add: unsigned_of_nat take_bit_eq_mod mod_simps, metis mod_add_cong mod_mod_trivial)

lemma ZeroPadding_eq:
  assumes "0 < n"
  shows "ZeroPadding x n = x @ replicate (n - 1 - (length x + n - 1) mod n) 0"
proof -
  have "(length x + n - 1) mod n < n" using assms by simp
  then show ?thesis by (auto simp: ZeroPadding_def Let_def nat_diff_distrib' intro!: arg_cong [where f = "\<lambda>k. replicate k 0"])
qed

section \<open>Properties\<close>

text \<open>
  \<^bold>\<open>A work package survives its encoding.\<close> Every package with hashes of 32 octets and slices
  below \<open>2 ^ 32\<close> entries is encoded without error, and decoding what results, whatever
  follows it, gives the package back.
\<close>

theorem Package_roundtrip:
  assumes "wf_package p"
  shows "\<exists>bs. Marshal 7 Package_type (Package_value p) = ret bs \<and>
    (\<forall>rest. unmarshal 7 Package_type (bs @ rest) = ret (Package_value p, rest))"
  using jam.encode_decode [OF encodable_package [OF assms]] by (simp add: Package_depth Marshal_def)

theorem Package_roundtrip_witness:
  "\<exists>bs. Marshal 7 Package_type (Package_value demo_package) = ret bs \<and>
    unmarshal 7 Package_type bs = ret (Package_value demo_package, [])"
  using Package_roundtrip [of demo_package]
  by (auto simp: demo_package_def wf_package_def wf_item_def dest: spec [of _ "[]"])

text \<open>
  What the check of the number of segments really bounds: the totals modulo \<open>2 ^ 16\<close>, since
  they are summed in \<^verbatim>\<open>uint16\<close>. Two items with 32768 exported segments each pass.
\<close>

theorem ValidateNumberOfEntries_spec:
  "ValidateNumberOfEntries wp = None \<longleftrightarrow>
     sum_list (map (\<lambda>w. unat (ExportedSegments w)) (WorkItems wp)) mod 2 ^ 16 \<le> 2048 \<and>
     sum_list (map (\<lambda>w. length (ImportedSegments w)) (WorkItems wp)) mod 2 ^ 16 \<le> 2048"
  by (simp add: ValidateNumberOfEntries_def Let_def foldl_sum unat_sum_list sum_unat_of_nat MaxNumberOfEntries_def
      not_less)

text \<open>
  \<^verbatim>\<open>ZeroPadding\<close> appends the least number of zero octets that makes the length a multiple of
  \<open>n\<close>.
\<close>

theorem ZeroPadding_pads:
  assumes "0 < n"
  shows "\<exists>k < n. ZeroPadding x n = x @ replicate k 0 \<and> n dvd length (ZeroPadding x n)"
proof -
  define r where "r = (length x + n - 1) mod n"
  have r: "r < n" using assms by (simp add: r_def)
  have "length x + (n - 1 - r) = (length x + n - 1) - r" using r by simp
  also have "\<dots> = n * ((length x + n - 1) div n)" by (simp add: r_def minus_mod_eq_mult_div)
  finally have "n dvd length x + (n - 1 - r)" by simp
  then show ?thesis using ZeroPadding_eq [OF assms, of x] r
    by (intro exI [of _ "n - 1 - r"]) (simp add: r_def)
qed

theorem ZeroPadding_pads_witness: "\<exists>k < 4. ZeroPadding [1, 2, 3, 4, 5] 4 = [1, 2, 3, 4, 5] @ replicate k 0 \<and> 4 dvd length (ZeroPadding [1, 2, 3, 4, 5] 4)"
  using ZeroPadding_pads [of 4 "[1, 2, 3, 4, 5]"] by simp

end
