(* ===== verification/Host_General.thy ===== *)
theory Host_General
  imports Pvm_Alu Work_Package
begin

text \<open>
  The host functions every service may call (\<^verbatim>\<open>internal/polkavm/host_call/common.go\<close>,
  \<^verbatim>\<open>general_functions.go\<close>). A host function takes the gas, the registers and the memory of the
  machine, and returns them with a context and an error; \<open>None\<close> is a run-time panic.
\<close>

section \<open>Constants\<close>

text \<open>
  Every cost of the block of constants repeats the first one, 10.
\<close>

definition host_cost :: Gas where "host_cost = 10"

text \<open>
  The identifiers of the host functions, an \<^verbatim>\<open>iota\<close> block.
\<close>

abbreviation (input) GasID :: u64 where "GasID \<equiv> 0"
abbreviation (input) LookupID :: u64 where "LookupID \<equiv> 1"
abbreviation (input) ReadID :: u64 where "ReadID \<equiv> 2"
abbreviation (input) WriteID :: u64 where "WriteID \<equiv> 3"
abbreviation (input) InfoID :: u64 where "InfoID \<equiv> 4"
abbreviation (input) BlessID :: u64 where "BlessID \<equiv> 5"
abbreviation (input) AssignID :: u64 where "AssignID \<equiv> 6"
abbreviation (input) DesignateID :: u64 where "DesignateID \<equiv> 7"
abbreviation (input) CheckpointID :: u64 where "CheckpointID \<equiv> 8"
abbreviation (input) NewID :: u64 where "NewID \<equiv> 9"
abbreviation (input) UpgradeID :: u64 where "UpgradeID \<equiv> 10"
abbreviation (input) TransferID :: u64 where "TransferID \<equiv> 11"
abbreviation (input) EjectID :: u64 where "EjectID \<equiv> 12"
abbreviation (input) QueryID :: u64 where "QueryID \<equiv> 13"
abbreviation (input) SolicitID :: u64 where "SolicitID \<equiv> 14"
abbreviation (input) ForgetID :: u64 where "ForgetID \<equiv> 15"
abbreviation (input) YieldID :: u64 where "YieldID \<equiv> 16"
abbreviation (input) HistoricalLookupID :: u64 where "HistoricalLookupID \<equiv> 17"
abbreviation (input) FetchID :: u64 where "FetchID \<equiv> 18"
abbreviation (input) ExportID :: u64 where "ExportID \<equiv> 19"
abbreviation (input) MachineID :: u64 where "MachineID \<equiv> 20"
abbreviation (input) PeekID :: u64 where "PeekID \<equiv> 21"
abbreviation (input) PokeID :: u64 where "PokeID \<equiv> 22"
abbreviation (input) ZeroID :: u64 where "ZeroID \<equiv> 23"
abbreviation (input) VoidID :: u64 where "VoidID \<equiv> 24"
abbreviation (input) InvokeID :: u64 where "InvokeID \<equiv> 25"
abbreviation (input) ExpungeID :: u64 where "ExpungeID \<equiv> 26"

text \<open>
  The result codes count down from the largest \<^verbatim>\<open>uint64\<close>.
\<close>

definition NONE :: u64 where "NONE = 18446744073709551615"
definition WHAT :: u64 where "WHAT = 18446744073709551614"
definition OOB :: u64 where "OOB = 18446744073709551613"
definition WHO :: u64 where "WHO = 18446744073709551612"
definition FULL :: u64 where "FULL = 18446744073709551611"
definition CORE :: u64 where "CORE = 18446744073709551610"
definition CASH :: u64 where "CASH = 18446744073709551609"
definition LOW :: u64 where "LOW = 18446744073709551608"
definition HUH :: u64 where "HUH = 18446744073709551607"
definition OK :: u64 where "OK = 0"

definition Code_String :: "u64 \<Rightarrow> string" where
  "Code_String r =
     (if r = NONE then ''item does not exist''
      else if r = WHAT then ''name unknown''
      else if r = OOB then ''the return value for memory index provided is not accessible''
      else if r = WHO then ''index unknown''
      else if r = FULL then ''storage full''
      else if r = CORE then ''core index unknown''
      else if r = CASH then ''insufficient funds''
      else if r = LOW then ''gas limit too low''
      else if r = HUH then ''the item is already solicited or cannot be forgotten''
      else if r = OK then ''success''
      else ''unknown'')"

section \<open>Helpers\<close>

type_synonym 'x host_result = "(Gas \<times> Registers \<times> Memory \<times> 'x \<times> pvm_error option) option"

text \<open>
  The start of every host function: out of gas, or the cost is paid.
\<close>

definition charge :: "Gas \<Rightarrow> Gas \<Rightarrow> Registers \<Rightarrow> Memory \<Rightarrow> 'x \<Rightarrow> (Gas \<Rightarrow> 'x host_result) \<Rightarrow> 'x host_result" where
  "charge cost gas rs mem x k =
     (if sint gas < sint cost then Some (gas, rs, mem, x, Some ErrOutOfGas) else k (gas - cost))"

text \<open>
  A call inside a host function that may fail: its error is turned into a panic of the machine
  (the message of the error is left out), passed on as it is, or crashes.
\<close>

definition or_panic :: "'a pvm_result \<Rightarrow> Gas \<Rightarrow> Registers \<Rightarrow> Memory \<Rightarrow> 'x \<Rightarrow> ('a \<Rightarrow> 'x host_result) \<Rightarrow> 'x host_result" where
  "or_panic r gas rs mem x k =
     (case r of
        None \<Rightarrow> None
      | Some (Inl err) \<Rightarrow> Some (gas, rs, mem, x, Some (ErrPanic []))
      | Some (Inr v) \<Rightarrow> k v)"

definition or_error :: "'a pvm_result \<Rightarrow> Gas \<Rightarrow> Registers \<Rightarrow> Memory \<Rightarrow> 'x \<Rightarrow> ('a \<Rightarrow> 'x host_result) \<Rightarrow> 'x host_result" where
  "or_error r gas rs mem x k =
     (case r of
        None \<Rightarrow> None
      | Some (Inl err) \<Rightarrow> Some (gas, rs, mem, x, Some err)
      | Some (Inr v) \<Rightarrow> k v)"

definition or_crash :: "'a option \<Rightarrow> ('a \<Rightarrow> 'x host_result) \<Rightarrow> 'x host_result" where
  "or_crash r k = (case r of None \<Rightarrow> None | Some v \<Rightarrow> k v)"

text \<open>
  \<^verbatim>\<open>make([]byte, n)\<close> followed by a read into it.
\<close>

definition read_new :: "Memory \<Rightarrow> u64 \<Rightarrow> u64 \<Rightarrow> bytes pvm_result" where
  "read_new mem address len = (if make_ok 1 len then Memory_Read mem address (unat len) else None)"

text \<open>
  The type of the number is a type parameter in the source.
\<close>

definition readNumber :: "jtype \<Rightarrow> Memory \<Rightarrow> u64 \<Rightarrow> nat \<Rightarrow> u64 pvm_result" where
  "readNumber ty mem addr len =
     res_bind (Memory_Read mem addr len) (\<lambda>b.
     res_bind (jam_lift (Unmarshal (stack_depth ty) ty b (VUint 0)))
       (\<lambda>v. case v of VUint x \<Rightarrow> ret x | VInt x \<Rightarrow> ret x | _ \<Rightarrow> None))"

definition withCode :: "Registers \<Rightarrow> u64 \<Rightarrow> Registers" where
  "withCode rs s = rs(A0 := s)"

definition writeFromOffset :: "Memory \<Rightarrow> u64 \<Rightarrow> bytes \<Rightarrow> u64 \<Rightarrow> u64 \<Rightarrow> Memory pvm_result" where
  "writeFromOffset mem addressToWrite data offset len =
     (let vLen = of_nat (length data);
          f = min offset vLen;
          l = min len (vLen - f)
      in
      if l > 0 then
        (case go_slice data (unat f) (unat (f + l)) of
           None \<Rightarrow> None
         | Some sliceToWrite \<Rightarrow>
             (case Memory_Write mem addressToWrite sliceToWrite of
                None \<Rightarrow> None
              | Some (Inl err) \<Rightarrow> raise (ErrPanic ''out-of-bounds write at address %d'')
              | Some (Inr mem) \<Rightarrow> ret mem))
      else ret mem)"

section \<open>General functions\<close>

definition GasRemaining :: "Gas \<Rightarrow> Registers \<Rightarrow> Gas \<times> Registers \<times> pvm_error option" where
  "GasRemaining gas rs =
     (if sint gas < sint host_cost then (gas, rs, Some ErrOutOfGas)
      else (let gas = gas - host_cost in (gas, rs(A0 := gas), None)))"

text \<open>
  The account and the dictionary of services are read through the heap, which only \<^verbatim>\<open>Write\<close>
  changes. The unit stands for the context, which these functions do not return.
\<close>

definition Lookup ::
  "Gas \<Rightarrow> Registers \<Rightarrow> Memory \<Rightarrow> ServiceAccount \<Rightarrow> ServiceId \<Rightarrow> ref \<Rightarrow> Heap \<Rightarrow> unit host_result" where
  "Lookup gas rs mem s serviceId serviceState hp =
     charge host_cost gas rs mem () (\<lambda>gas.
       let omega7 = rs A0 in
       (case (if omega7 \<noteq> 18446744073709551615 \<and> omega7 \<noteq> ucast serviceId
              then service_of hp serviceState serviceId else Some s) of
          None \<Rightarrow> Some (gas, rs(A0 := NONE), mem, (), None)
        | Some a \<Rightarrow>
            let h = rs A1; addr = rs A2 in
            or_panic (Memory_Read mem h 32) gas rs mem () (\<lambda>key.
              (case map_of (go_map (blobs hp) (PreimageLookup a)) key of
                 None \<Rightarrow> Some (gas, withCode rs NONE, mem, (), None)
               | Some v \<Rightarrow>
                   or_error (writeFromOffset mem addr v (rs A3) (rs A4)) gas rs mem () (\<lambda>mem.
                     Some (gas, rs(A0 := of_nat (length v)), mem, (), None))))))"

definition storage_key :: "(bytes \<Rightarrow> Hash) \<Rightarrow> ServiceId \<Rightarrow> bytes \<Rightarrow> Hash pvm_result" where
  "storage_key HashData ss keyData =
     res_bind (jam_lift (Marshal 2 (TNamed KUint32) (VUint (ucast ss))))
       (\<lambda>serviceIdBytes. ret (HashData (serviceIdBytes @ keyData)))"

definition Read ::
  "(bytes \<Rightarrow> Hash) \<Rightarrow> Gas \<Rightarrow> Registers \<Rightarrow> Memory \<Rightarrow> ServiceAccount \<Rightarrow> ServiceId \<Rightarrow> ref \<Rightarrow> Heap \<Rightarrow> unit host_result" where
  "Read HashData gas rs mem s serviceId serviceState hp =
     charge host_cost gas rs mem () (\<lambda>gas.
       let omega7 = rs A0;
           ss = (if omega7 = 18446744073709551615 then serviceId else ucast omega7) in
       (case (if ss \<noteq> serviceId then service_of hp serviceState ss else Some s) of
          None \<Rightarrow> Some (gas, rs, mem, (), Some (ErrPanic ''account not found''))
        | Some a \<Rightarrow>
            let ko = rs A1; kz = rs A2; addr = rs A3 in
            or_panic (read_new mem ko kz) gas rs mem () (\<lambda>keyData.
            or_panic (storage_key HashData ss keyData) gas rs mem () (\<lambda>k.
              (case map_of (go_map (blobs hp) (Storage a)) k of
                 None \<Rightarrow> Some (gas, withCode rs NONE, mem, (), None)
               | Some v \<Rightarrow>
                   or_error (writeFromOffset mem addr v (rs A4) (rs A5)) gas rs mem () (\<lambda>mem.
                     Some (gas, rs(A0 := of_nat (length v)), mem, (), None)))))))"

text \<open>
  \<^verbatim>\<open>a := s\<close> copies the account but not the storage it refers to: the storage is changed for
  \<^verbatim>\<open>s\<close> too, whatever is returned.
\<close>

definition Write ::
  "(bytes \<Rightarrow> Hash) \<Rightarrow> Gas \<Rightarrow> Registers \<Rightarrow> Memory \<Rightarrow> ServiceAccount \<Rightarrow> ServiceId \<Rightarrow> Heap \<Rightarrow>
    (ServiceAccount \<times> Heap) host_result" where
  "Write HashData gas rs mem s serviceId hp =
     charge host_cost gas rs mem (s, hp) (\<lambda>gas.
       let ko = rs A0; kz = rs A1; vo = rs A2; vz = rs A3 in
       or_panic (read_new mem ko kz) gas rs mem (s, hp) (\<lambda>keyData.
       or_panic (storage_key HashData serviceId keyData) gas rs mem (s, hp) (\<lambda>k.
         let a = s;
             updated = (\<lambda>hp.
               (case map_of (go_map (blobs hp) (Storage s)) k of
                  None \<Rightarrow> Some (gas, withCode rs NONE, mem, (s, hp), None)
                | Some storageItem \<Rightarrow>
                    if ThresholdBalance hp a > Balance a
                    then Some (gas, withCode rs FULL, mem, (s, hp), None)
                    else Some (gas, rs(A0 := of_nat (length storageItem)), mem, (a, hp), None))) in
         if vz = 0 then updated (hp\<lparr>blobs := go_delete (blobs hp) (Storage a) k\<rparr>)
         else
           or_panic (read_new mem vo vz) gas rs mem (s, hp) (\<lambda>valueData.
           or_crash (go_assign (blobs hp) (Storage a) k valueData) (\<lambda>b.
             updated (hp\<lparr>blobs := b\<rparr>))))))"

definition AccountInfo_type :: jtype where
  "AccountInfo_type = struct_type [hash_type, TPrim KUint64, TPrim KUint64, TPrim KUint64, TPrim KUint64,
     TPrim KUint64, TPrim KUint32]"

definition AccountInfo :: "Heap \<Rightarrow> ServiceAccount \<Rightarrow> jval" where
  "AccountInfo hp t = VStruct [hash_value (CodeHash t), VUint (Balance t), VUint (ThresholdBalance hp t),
     VUint (GasLimitForAccumulator t), VUint (GasLimitOnTransfer t), VUint (TotalStorageSize hp t),
     VUint (ucast (TotalItems hp t))]"

definition Info :: "Gas \<Rightarrow> Registers \<Rightarrow> Memory \<Rightarrow> ServiceId \<Rightarrow> ref \<Rightarrow> Heap \<Rightarrow> unit host_result" where
  "Info gas rs mem serviceId serviceState hp =
     charge host_cost gas rs mem () (\<lambda>gas.
       let omega7 = rs A0; omega8 = rs A1 in
       (case service_of hp serviceState (if omega7 \<noteq> 18446744073709551615 then ucast omega7 else serviceId) of
          None \<Rightarrow> Some (gas, withCode rs NONE, mem, (), None)
        | Some t \<Rightarrow>
            or_error (jam_lift (Marshal (stack_depth AccountInfo_type) AccountInfo_type (AccountInfo hp t)))
              gas rs mem () (\<lambda>m.
            or_panic (Memory_Write mem omega8 m) gas rs mem () (\<lambda>mem.
              Some (gas, withCode rs OK, mem, (), None)))))"

section \<open>Gas\<close>

text \<open>
  \<open>ends g\<close>: if the result is without error, its gas is \<open>g\<close>; \<open>charges cost g\<close>: if the result is without
  error, exactly the cost was paid.
\<close>

named_theorems host_gas \<open>results at a given gas\<close>

definition ends :: "Gas \<Rightarrow> 'x host_result \<Rightarrow> bool" where
  "ends g r \<longleftrightarrow> (\<forall>g' rs m x. r = Some (g', rs, m, x, None) \<longrightarrow> g' = g)"

definition charges :: "Gas \<Rightarrow> Gas \<Rightarrow> 'x host_result \<Rightarrow> bool" where
  "charges cost g r \<longleftrightarrow>
     (\<forall>g' rs m x. r = Some (g', rs, m, x, None) \<longrightarrow> sint cost \<le> sint g \<and> g' = g - cost)"

lemma ends_simps [host_gas]:
  "ends g None" "ends g (Some (g, rs, m, x, e))" "ends g (Some (g', rs, m, x, Some err))"
  "ends g (if b then r else r') \<longleftrightarrow> (b \<longrightarrow> ends g r) \<and> (\<not> b \<longrightarrow> ends g r')"
  "(\<And>v. ends g (k v)) \<Longrightarrow> ends g (or_crash c k)"
  "(\<And>v. ends g (k' v)) \<Longrightarrow> ends g (or_panic r0 g rs m x k')"
  "(\<And>v. ends g (k'' v)) \<Longrightarrow> ends g (or_error r1 g rs m x k'')"
  by (auto simp: ends_def or_crash_def or_panic_def or_error_def split: option.splits sum.splits)

lemma ends_case_option [host_gas]:
  "ends g (case z of None \<Rightarrow> r | Some v \<Rightarrow> f v) \<longleftrightarrow> (z = None \<longrightarrow> ends g r) \<and> (\<forall>v. z = Some v \<longrightarrow> ends g (f v))"
  by (cases z) auto

lemma ends_case_prod [host_gas]: "(\<And>a b. ends g (f a b)) \<Longrightarrow> ends g (case z of (a, b) \<Rightarrow> f a b)"
  by (cases z) auto

lemma ends_case_list [host_gas]:
  "ends g r \<Longrightarrow> (\<And>v vs. ends g (f v vs)) \<Longrightarrow> ends g (case z of [] \<Rightarrow> r | v # vs \<Rightarrow> f v vs)"
  by (cases z) auto

lemma ends_case_sum [host_gas]:
  "(\<And>v. ends g (f v)) \<Longrightarrow> (\<And>v. ends g (f' v)) \<Longrightarrow> ends g (case z of Inl v \<Rightarrow> f v | Inr v \<Rightarrow> f' v)"
  by (cases z) auto

lemma ends_let [host_gas]: "(\<And>v. ends g (f v)) \<Longrightarrow> ends g (Let z f)"
  by simp

lemma charges_charge: "ends (g - cost) (k (g - cost)) \<Longrightarrow> charges cost g (charge cost g rs m x k)"
  by (auto simp: charges_def charge_def ends_def)

lemma charges_general:
  "charges host_cost g (Lookup g rs m s i r hp)" "charges host_cost g (Read HashData g rs m s i r hp)"
  "charges host_cost g (Write HashData g rs m s i hp)" "charges host_cost g (Info g rs m i r hp)"
  unfolding Lookup_def Read_def Write_def Info_def
  by (rule charges_charge, simp add: host_gas Let_def)+

section \<open>Storage\<close>

lemma Write_result:
  assumes "Write HashData g rs m s i hp = Some (g', rs', m', (a, hp'), None)"
    and "read_new m (rs A0) (rs A1) = ret keyData" "storage_key HashData i keyData = ret k"
    and "rs A3 \<noteq> 0" "read_new m (rs A2) (rs A3) = ret v"
  shows "a = s" "m' = m" "map_of (go_map (blobs hp') (Storage s)) k = Some v"
    "rs' A0 = (if Balance s < ThresholdBalance hp' s then FULL else of_nat (length v))"
proof -
  have "sint host_cost \<le> sint g" using charges_general(3) assms(1) unfolding charges_def by blast
  then have w: "or_crash (go_assign (blobs hp) (Storage s) k v) (\<lambda>b.
      (case map_of (go_map b (Storage s)) k of
         None \<Rightarrow> Some (g - host_cost, withCode rs NONE, m, (s, hp\<lparr>blobs := b\<rparr>), None)
       | Some storageItem \<Rightarrow>
           if ThresholdBalance (hp\<lparr>blobs := b\<rparr>) s > Balance s
           then Some (g - host_cost, withCode rs FULL, m, (s, hp\<lparr>blobs := b\<rparr>), None)
           else Some (g - host_cost, rs(A0 := of_nat (length storageItem)), m, (s, hp\<lparr>blobs := b\<rparr>), None))) =
      Some (g', rs', m', (a, hp'), None)"
    using assms by (simp add: Write_def charge_def or_panic_def Let_def)
  then obtain b where b: "go_assign (blobs hp) (Storage s) k v = Some b"
    by (auto simp: or_crash_def split: option.splits)
  note r = w [unfolded b or_crash_def, simplified, unfolded gomap.put_then_get [OF b], simplified]
  show "a = s" "m' = m" "map_of (go_map (blobs hp') (Storage s)) k = Some v"
    "rs' A0 = (if Balance s < ThresholdBalance hp' s then FULL else of_nat (length v))"
    using r gomap.put_then_get [OF b] by (auto simp: withCode_def split: if_splits)
qed

lemma Read_own:
  assumes "sint host_cost \<le> sint g" "rs A0 = 18446744073709551615"
    and "read_new m (rs A1) (rs A2) = ret keyData" "storage_key HashData i keyData = ret k"
    and "map_of (go_map (blobs hp) (Storage s)) k = Some v"
    and "writeFromOffset m (rs A3) v (rs A4) (rs A5) = ret m'"
  shows "Read HashData g rs m s i st hp = Some (g - host_cost, rs(A0 := of_nat (length v)), m', (), None)"
  using assms by (simp add: Read_def charge_def or_panic_def or_error_def Let_def)

section \<open>Examples\<close>

text \<open>
  A memory with room for a few hashes, and a heap with one service.
\<close>

definition host_memory :: Memory where
  "host_memory = InitializeCustomMemory 65536 131072 196608 262144 4 256 4 4"

definition demo_account :: ServiceAccount where
  "demo_account = ServiceAccount_zero\<lparr>Storage := Some 0, PreimageLookup := Some 1, PreimageMeta := Some 0, Balance := 50\<rparr>"

definition demo_heap :: Heap where
  "demo_heap = empty_heap\<lparr>states := (\<lambda>_. [(7, demo_account)]), fresh := 2\<rparr>"

section \<open>Properties\<close>

text \<open>
  C30: \<^bold>\<open>what was written is read.\<close> A \<^verbatim>\<open>Write\<close> of a value under a key that returns without error leaves
  the value in the storage of the account, even when the result code is \<open>FULL\<close>; the code is
  otherwise the length of the new value. A \<^verbatim>\<open>Read\<close> of the key from the same account then delivers
  the value and its length, when the gas and the target buffer suffice.
\<close>

theorem storage_write_then_read:
  assumes "Write HashData g rs m s i hp = Some (g', rs', m', (a, hp'), None)"
    and "read_new m (rs A0) (rs A1) = ret keyData" "storage_key HashData i keyData = ret k"
    and "rs A3 \<noteq> 0" "read_new m (rs A2) (rs A3) = ret v"
    and "sint host_cost \<le> sint g2" "rs2 A0 = 18446744073709551615"
    and "read_new m2 (rs2 A1) (rs2 A2) = ret keyData"
    and "writeFromOffset m2 (rs2 A3) v (rs2 A4) (rs2 A5) = ret m3"
  shows "rs' A0 = (if Balance s < ThresholdBalance hp' s then FULL else of_nat (length v)) \<and>
    Read HashData g2 rs2 m2 a i st hp' = Some (g2 - host_cost, rs2(A0 := of_nat (length v)), m3, (), None)"
  using Write_result [OF assms(1-5)] Read_own [OF assms(6-8) assms(3)] assms(9) by simp

theorem storage_write_then_read_witness:
  "\<exists>hp' m3. Write (\<lambda>_. replicate 32 1) 100 ((\<lambda>_. 0)(A0 := 131072, A1 := 2, A2 := 131074, A3 := 3)) host_memory
       (demo_account\<lparr>Balance := 1000\<rparr>) 7 demo_heap =
       Some (90, (\<lambda>_. 0)(A0 := 3, A1 := 2, A2 := 131074, A3 := 3), host_memory, (demo_account\<lparr>Balance := 1000\<rparr>, hp'), None) \<and>
     Read (\<lambda>_. replicate 32 1) 50 ((\<lambda>_. 0)(A0 := - 1, A1 := 131072, A2 := 2, A3 := 131080, A5 := 3)) host_memory
       (demo_account\<lparr>Balance := 1000\<rparr>) 7 None hp' =
       Some (50 - host_cost, (\<lambda>_. 0)(A0 := 3, A1 := 131072, A2 := 2, A3 := 131080, A5 := 3), m3, (), None)"
proof -
  let ?H = "\<lambda>_. replicate 32 1 :: Hash" and ?a = "demo_account\<lparr>Balance := 1000\<rparr>"
  let ?rs = "(\<lambda>_. 0)(A0 := 131072, A1 := 2, A2 := 131074, A3 := 3) :: Registers"
  let ?rs2 = "(\<lambda>_. 0)(A0 := - 1, A1 := 131072, A2 := 2, A3 := 131080, A5 := 3) :: Registers"
  let ?hp = "demo_heap\<lparr>blobs := (blobs demo_heap)(0 := [(replicate 32 1, [0, 0, 0])])\<rparr>"
  have key: "read_new host_memory 131072 2 = ret [0, 0]" "read_new host_memory 131074 3 = ret [0, 0, 0]"
  proof -
    have "Memory_Read host_memory 131072 2 = ret [0, 0]" "Memory_Read host_memory 131074 3 = ret [0, 0, 0]" by code_simp+
    then show "read_new host_memory 131072 2 = ret [0, 0]" "read_new host_memory 131074 3 = ret [0, 0, 0]"
      by (simp_all add: read_new_def make_ok_def)
  qed
  have sk: "storage_key ?H 7 [0, 0] = ret (replicate 32 1)" by code_simp
  have put: "go_assign (blobs demo_heap) (Some 0) (replicate 32 1) [0, 0, 0] =
      Some ((blobs demo_heap)(0 := [(replicate 32 1, [0, 0, 0])]))"
    by (simp add: go_assign_def demo_heap_def empty_heap_def)
  have bal: "ThresholdBalance ?hp ?a = 145"
    by (simp add: ThresholdBalance_def TotalItems_def TotalStorageSize_def go_map_def demo_heap_def demo_account_def
        empty_heap_def BasicMinimumBalance_def AdditionalMinimumBalancePerItem_def AdditionalMinimumBalancePerOctet_def)
  have st: "Storage ?a = Some 0" by (simp add: demo_account_def)
  have w: "Write ?H 100 ?rs host_memory ?a 7 demo_heap =
      Some (90, ?rs(A0 := 3), host_memory, (?a, ?hp), None)"
    using key sk put bal st
    by (simp add: Write_def charge_def host_cost_def or_panic_def or_crash_def Let_def go_map_def)
  obtain m3 where m3: "writeFromOffset host_memory 131080 [0, 0, 0] 0 3 = ret m3"
  proof -
    have "case writeFromOffset host_memory 131080 [0, 0, 0] 0 3 of Some (Inr m) \<Rightarrow> True | _ \<Rightarrow> False" by code_simp
    then show thesis using that by (auto split: option.splits sum.splits)
  qed
  have "Read ?H 50 ?rs2 host_memory ?a 7 None ?hp =
      Some (50 - host_cost, ?rs2(A0 := 3), m3, (), None)"
    using storage_write_then_read [OF w, of "[0, 0]" "replicate 32 1" "[0, 0, 0]" 50 ?rs2 host_memory m3 None]
      key sk m3 by (simp add: host_cost_def)
  then show ?thesis using w by (auto simp: fun_upd_twist)
qed

end
