(* ===== verification/Host_Accumulate.thy ===== *)
theory Host_Accumulate
  imports Host_General
begin

text \<open>
  The host functions of accumulation (\<^verbatim>\<open>internal/polkavm/host_call/accumulate_functions.go\<close>) and
  their contexts (\<^verbatim>\<open>internal/polkavm/common.go\<close>). The context of a function is the pair of the regular
  and the exceptional context, with the heap of the maps that both refer to.
\<close>

section \<open>Contexts\<close>

text \<open>
  The structures as in the source. A fixed-size array is a list; the pointers to validator
  keys are never followed after an update, so that a key is an optional value. The dictionary of
  services and the gas of privileged services are references into the heap.
\<close>

record PrivilegedServices =
  ManagerServiceId :: ServiceId
  AssignServiceId :: ServiceId
  DesignateServiceId :: ServiceId
  AmountOfGasPerServiceId :: ref

record ValidatorKey =
  Bandersnatch :: bytes
  Ed25519 :: bytes
  Bls :: bytes
  Metadata :: bytes

record DeferredTransfer =
  SenderServiceIndex :: ServiceId
  ReceiverServiceIndex :: ServiceId
  transfer_Balance :: u64
  Memo :: bytes
  GasLimit :: u64

record AccumulationState =
  ServiceState :: ref
  ValidatorKeys :: "ValidatorKey option list"
  PendingAuthorizersQueues :: "Hash list list"
  Privileged :: PrivilegedServices

record AccumulateContext =
  ctx_ServiceId :: ServiceId
  ctx_State :: AccumulationState
  NewServiceId :: ServiceId
  DeferredTransfers :: "DeferredTransfer list"
  AccumulationHash :: "Hash option"

record AccumulateContextPair =
  RegularCtx :: AccumulateContext
  ExceptionalCtx :: AccumulateContext

type_synonym acc_result = "(AccumulateContextPair \<times> Heap) host_result"

definition ServiceAccount_of :: "Heap \<Rightarrow> AccumulateContext \<Rightarrow> ServiceAccount" where
  "ServiceAccount_of hp ctx =
     (case service_of hp (ServiceState (ctx_State ctx)) (ctx_ServiceId ctx) of
        None \<Rightarrow> ServiceAccount_zero | Some a \<Rightarrow> a)"

definition set_service :: "Heap \<Rightarrow> AccumulateContext \<Rightarrow> ServiceId \<Rightarrow> ServiceAccount \<Rightarrow> Heap option" where
  "set_service hp ctx s a =
     map_option (\<lambda>st. hp\<lparr>states := st\<rparr>) (go_assign (states hp) (ServiceState (ctx_State ctx)) s a)"

definition update_regular ::
  "(AccumulateContext \<Rightarrow> AccumulateContext) \<Rightarrow> AccumulateContextPair \<Rightarrow> AccumulateContextPair" where
  "update_regular f c = c\<lparr>RegularCtx := f (RegularCtx c)\<rparr>"

definition update_privileged :: "(PrivilegedServices \<Rightarrow> PrivilegedServices) \<Rightarrow> AccumulateContext \<Rightarrow> AccumulateContext" where
  "update_privileged f x = x\<lparr>ctx_State := (ctx_State x)\<lparr>Privileged := f (Privileged (ctx_State x))\<rparr>\<rparr>"

section \<open>Bless, assign, designate, checkpoint\<close>

text \<open>
  One entry of the table of gas, with the map made on first use.
\<close>

definition Bless_entry :: "ServiceId \<Rightarrow> u64 \<Rightarrow> AccumulateContextPair \<times> Heap \<Rightarrow> (AccumulateContextPair \<times> Heap) option" where
  "Bless_entry serviceId serviceGas = (\<lambda>(c, hp).
     let (c, hp) =
       (if AmountOfGasPerServiceId (Privileged (ctx_State (RegularCtx c))) = None
        then (update_regular (update_privileged (\<lambda>p. p\<lparr>AmountOfGasPerServiceId := Some (fresh hp)\<rparr>)) c,
              hp\<lparr>amounts := (amounts hp)(fresh hp := []), fresh := fresh hp + 1\<rparr>)
        else (c, hp))
     in map_option (\<lambda>m. (c, hp\<lparr>amounts := m\<rparr>))
          (go_assign (amounts hp) (AmountOfGasPerServiceId (Privileged (ctx_State (RegularCtx c)))) serviceId serviceGas))"

fun Bless_loop ::
  "nat \<Rightarrow> u64 \<Rightarrow> Gas \<Rightarrow> Registers \<Rightarrow> Memory \<Rightarrow> u64 \<Rightarrow> AccumulateContextPair \<times> Heap \<Rightarrow>
    (AccumulateContextPair \<times> Heap \<Rightarrow> acc_result) \<Rightarrow> acc_result" where
  "Bless_loop 0 i gas rs mem addr x k = k x"
| "Bless_loop (Suc n) i gas rs mem addr x k =
     or_panic (readNumber (TNamed KUint32) mem (addr + 12 * i) 4) gas rs mem x (\<lambda>serviceId.
     or_panic (readNumber (TPrim KUint64) mem (addr + 12 * i + 4) 8) gas rs mem x (\<lambda>serviceGas.
     or_crash (Bless_entry (ucast serviceId) serviceGas x) (\<lambda>x.
       Bless_loop n (i + 1) gas rs mem addr x k)))"

definition Bless :: "Gas \<Rightarrow> Registers \<Rightarrow> Memory \<Rightarrow> AccumulateContextPair \<times> Heap \<Rightarrow> acc_result" where
  "Bless gas rs mem x =
     charge host_cost gas rs mem x (\<lambda>gas.
       let managerServiceId = rs A0; assignServiceId = rs A1; designateServiceId = rs A2;
           addr = rs A3; servicesNr = rs A4 in
       Bless_loop (unat servicesNr) 0 gas rs mem addr x (\<lambda>(c, hp).
         Some (gas, withCode rs OK, mem,
           (update_regular (update_privileged (\<lambda>p. p\<lparr>ManagerServiceId := ucast managerServiceId,
              AssignServiceId := ucast assignServiceId, DesignateServiceId := ucast designateServiceId\<rparr>)) c, hp),
           None)))"

text \<open>
  The constants of the default build.
\<close>

definition TotalNumberOfCores :: nat where "TotalNumberOfCores = 341"
definition PendingAuthorizersQueueSize :: nat where "PendingAuthorizersQueueSize = 80"
definition NumberOfValidators :: nat where "NumberOfValidators = 1023"

definition set_queue :: "nat \<Rightarrow> nat \<Rightarrow> Hash \<Rightarrow> AccumulateContext \<Rightarrow> AccumulateContext" where
  "set_queue core i h x =
     (let q = PendingAuthorizersQueues (ctx_State x)
      in x\<lparr>ctx_State := (ctx_State x)\<lparr>PendingAuthorizersQueues := q[core := (q ! core)[i := h]]\<rparr>\<rparr>)"

fun Assign_loop ::
  "nat list \<Rightarrow> nat \<Rightarrow> Gas \<Rightarrow> Registers \<Rightarrow> Memory \<Rightarrow> u64 \<Rightarrow> AccumulateContextPair \<times> Heap \<Rightarrow>
    (AccumulateContextPair \<times> Heap \<Rightarrow> acc_result) \<Rightarrow> acc_result" where
  "Assign_loop [] core gas rs mem addr x k = k x"
| "Assign_loop (i # is) core gas rs mem addr x k =
     or_panic (Memory_Read mem (addr + of_nat (32 * i)) 32) gas rs mem x (\<lambda>h.
       Assign_loop is core gas rs mem addr (update_regular (set_queue core i h) (fst x), snd x) k)"

definition Assign :: "Gas \<Rightarrow> Registers \<Rightarrow> Memory \<Rightarrow> AccumulateContextPair \<times> Heap \<Rightarrow> acc_result" where
  "Assign gas rs mem x =
     charge host_cost gas rs mem x (\<lambda>gas.
       let addr = rs A1; core = rs A0 in
       if core \<ge> of_nat TotalNumberOfCores then Some (gas, withCode rs CORE, mem, x, None)
       else Assign_loop [0..<PendingAuthorizersQueueSize] (unat core) gas rs mem addr x (\<lambda>x.
              Some (gas, withCode rs OK, mem, x, None)))"

definition set_validator :: "nat \<Rightarrow> ValidatorKey \<Rightarrow> AccumulateContext \<Rightarrow> AccumulateContext" where
  "set_validator i v x =
     x\<lparr>ctx_State := (ctx_State x)\<lparr>ValidatorKeys := (ValidatorKeys (ctx_State x))[i := Some v]\<rparr>\<rparr>"

definition validator_key :: "bytes \<Rightarrow> ValidatorKey" where
  "validator_key b = \<lparr>Bandersnatch = take 32 b, Ed25519 = take 32 (drop 32 b),
     Bls = take 144 (drop 64 b), Metadata = take 128 (drop 208 b)\<rparr>"

fun Designate_loop ::
  "nat list \<Rightarrow> Gas \<Rightarrow> Registers \<Rightarrow> Memory \<Rightarrow> u64 \<Rightarrow> AccumulateContextPair \<times> Heap \<Rightarrow>
    (AccumulateContextPair \<times> Heap \<Rightarrow> acc_result) \<Rightarrow> acc_result" where
  "Designate_loop [] gas rs mem addr x k = k x"
| "Designate_loop (i # is) gas rs mem addr x k =
     or_panic (Memory_Read mem (addr + of_nat (336 * i)) 336) gas rs mem x (\<lambda>b.
       Designate_loop is gas rs mem addr (update_regular (set_validator i (validator_key b)) (fst x), snd x) k)"

definition Designate :: "Gas \<Rightarrow> Registers \<Rightarrow> Memory \<Rightarrow> AccumulateContextPair \<times> Heap \<Rightarrow> acc_result" where
  "Designate gas rs mem x =
     charge host_cost gas rs mem x (\<lambda>gas.
       let addr = rs A0 in
       Designate_loop [0..<NumberOfValidators] gas rs mem addr x (\<lambda>x.
         Some (gas, withCode rs OK, mem, x, None)))"

definition Checkpoint :: "Gas \<Rightarrow> Registers \<Rightarrow> Memory \<Rightarrow> AccumulateContextPair \<times> Heap \<Rightarrow> acc_result" where
  "Checkpoint gas rs mem x =
     charge host_cost gas rs mem x (\<lambda>gas.
       (case x of (c, hp) \<Rightarrow>
          Some (gas, rs(A0 := gas), mem, (c\<lparr>ExceptionalCtx := RegularCtx c\<rparr>, hp), None)))"

section \<open>Services\<close>

text \<open>
  \<^verbatim>\<open>PreimageLookup\<close> of a new account is nil.
\<close>

definition new_account :: "Hash \<Rightarrow> u64 \<Rightarrow> u64 \<Rightarrow> u64 \<Rightarrow> Heap \<Rightarrow> ServiceAccount \<times> Heap" where
  "new_account codeHash preimageLength gasLimitAccumulator gasLimitTransfer hp =
     (let hp = hp\<lparr>blobs := (blobs hp)(fresh hp := []),
                  metas := (metas hp)(fresh hp := [(\<lparr>key_Hash = codeHash, key_Length = ucast preimageLength\<rparr>, [])]),
                  fresh := fresh hp + 1\<rparr>;
          account = \<lparr>Storage = Some (fresh hp - 1), PreimageLookup = None, PreimageMeta = Some (fresh hp - 1),
            CodeHash = codeHash, Balance = 0, GasLimitForAccumulator = gasLimitAccumulator,
            GasLimitOnTransfer = gasLimitTransfer\<rparr>
      in (account\<lparr>Balance := ThresholdBalance hp account\<rparr>, hp))"

definition New :: "Gas \<Rightarrow> Registers \<Rightarrow> Memory \<Rightarrow> AccumulateContextPair \<times> Heap \<Rightarrow> acc_result" where
  "New gas rs mem x =
     charge host_cost gas rs mem x (\<lambda>gas.
       let addr = rs A0; preimageLength = rs A1; gasLimitAccumulator = rs A2; gasLimitTransfer = rs A3 in
       or_panic (Memory_Read mem addr 32) gas rs mem x (\<lambda>codeHash.
         (case x of (c, hp) \<Rightarrow>
           (case new_account codeHash preimageLength gasLimitAccumulator gasLimitTransfer hp of (account, hp) \<Rightarrow>
             let ctx = RegularCtx c;
                 currentAccount = ServiceAccount_of hp ctx;
                 b = Balance currentAccount - ThresholdBalance hp account in
             if b \<ge> ThresholdBalance hp currentAccount then
               or_crash (CheckIndex (BumpIndex (NewServiceId ctx)) (go_map (states hp) (ServiceState (ctx_State ctx)))) (\<lambda>newId.
               or_crash (set_service hp ctx (ctx_ServiceId ctx) (currentAccount\<lparr>Balance := b\<rparr>)) (\<lambda>hp.
               or_crash (set_service hp ctx newId account) (\<lambda>hp.
                 Some (gas, rs(A0 := ucast (NewServiceId ctx)), mem,
                   (update_regular (\<lambda>ctx. ctx\<lparr>NewServiceId := newId\<rparr>) c, hp), None))))
             else Some (gas, withCode rs CASH, mem, (c, hp), None)))))"

definition Upgrade :: "Gas \<Rightarrow> Registers \<Rightarrow> Memory \<Rightarrow> AccumulateContextPair \<times> Heap \<Rightarrow> acc_result" where
  "Upgrade gas rs mem x =
     charge host_cost gas rs mem x (\<lambda>gas.
       let addr = rs A0; gasLimitAccumulator = rs A1; gasLimitTransfer = rs A2 in
       or_panic (Memory_Read mem addr 32) gas rs mem x (\<lambda>codeHash.
         (case x of (c, hp) \<Rightarrow>
           let ctx = RegularCtx c;
               currentService = (ServiceAccount_of hp ctx)\<lparr>CodeHash := codeHash,
                 GasLimitForAccumulator := gasLimitAccumulator, GasLimitOnTransfer := gasLimitTransfer\<rparr> in
           or_crash (set_service hp ctx (ctx_ServiceId ctx) currentService) (\<lambda>hp.
             Some (gas, withCode rs OK, mem, (c, hp), None)))))"

text \<open>
  \<^verbatim>\<open>Gas(gasLimit)\<close> reads the unsigned limit as a signed number.
\<close>

definition Transfer :: "Gas \<Rightarrow> Registers \<Rightarrow> Memory \<Rightarrow> AccumulateContextPair \<times> Heap \<Rightarrow> acc_result" where
  "Transfer gas rs mem x =
     (let receiverId = rs A0; newBalance = rs A1; gasLimit = rs A2; addr = rs A3;
          transferCost = host_cost + gasLimit in
      charge transferCost gas rs mem x (\<lambda>gas.
        or_panic (Memory_Read mem addr TransferMemoSizeBytes) gas rs mem x (\<lambda>m.
          (case x of (c, hp) \<Rightarrow>
            let ctx = RegularCtx c;
                deferredTransfer = \<lparr>SenderServiceIndex = ctx_ServiceId ctx, ReceiverServiceIndex = ucast receiverId,
                  transfer_Balance = newBalance, Memo = m, GasLimit = gasLimit\<rparr> in
            (case service_of hp (ServiceState (ctx_State ctx)) (ucast receiverId) of
               None \<Rightarrow> Some (gas, withCode rs WHO, mem, x, None)
             | Some receiverService \<Rightarrow>
                 if gasLimit < GasLimitOnTransfer receiverService then Some (gas, withCode rs LOW, mem, x, None)
                 else if Balance (ServiceAccount_of hp ctx) - newBalance < ThresholdBalance hp (ServiceAccount_of hp ctx)
                 then Some (gas, withCode rs CASH, mem, x, None)
                 else Some (gas, withCode rs OK, mem,
                   (update_regular (\<lambda>ctx. ctx\<lparr>DeferredTransfers := DeferredTransfers ctx @ [deferredTransfer]\<rparr>) c, hp),
                   None))))))"

definition PreimageExpulsionPeriod :: Timeslot where "PreimageExpulsionPeriod = 28800"

text \<open>
  The index of a service in 32 octets.
\<close>

definition encoded_service :: "ServiceId \<Rightarrow> bytes pvm_result" where
  "encoded_service s = jam_lift (Marshal 3 (TStruct [(TagLength 32, TNamed KUint32)]) (VStruct [VUint (ucast s)]))"

definition Eject :: "Gas \<Rightarrow> Registers \<Rightarrow> Memory \<Rightarrow> AccumulateContextPair \<times> Heap \<Rightarrow> Timeslot \<Rightarrow> acc_result" where
  "Eject gas rs mem x timeslot =
     charge host_cost gas rs mem x (\<lambda>gas.
       let d = rs A0; addr = rs A1 in
       or_panic (Memory_Read mem addr 32) gas rs mem x (\<lambda>h.
         (case x of (c, hp) \<Rightarrow>
           let ctx = RegularCtx c; services = ServiceState (ctx_State ctx);
               who = Some (gas, withCode rs WHO, mem, x, None);
               huh = Some (gas, withCode rs HUH, mem, x, None) in
           if ucast d = ctx_ServiceId ctx then who
           else
             (case service_of hp services (ucast d) of
                None \<Rightarrow> who
              | Some serviceAccount \<Rightarrow>
                  (case encoded_service (ctx_ServiceId ctx) of
                     None \<Rightarrow> None
                   | Some (Inl err) \<Rightarrow> Some (gas, withCode rs WHO, mem, x, Some err)
                   | Some (Inr encodedXs) \<Rightarrow>
                       if CodeHash serviceAccount \<noteq> encodedXs then who
                       else if TotalItems hp serviceAccount \<noteq> 2 then huh
                       else
                         let l = max 81 (case Code hp serviceAccount of None \<Rightarrow> 0 | Some b \<Rightarrow> length b) - 81 in
                         (case map_of (go_map (metas hp) (PreimageMeta serviceAccount)) (PreimageKey h l) of
                            None \<Rightarrow> huh
                          | Some [dx, dy] \<Rightarrow>
                              if dy < timeslot - PreimageExpulsionPeriod then
                                let xs = ServiceAccount_of hp ctx;
                                    xs = xs\<lparr>Balance := Balance xs + Balance serviceAccount\<rparr>;
                                    hp = hp\<lparr>states := go_delete (states hp) services (ucast d)\<rparr> in
                                or_crash (set_service hp ctx (ctx_ServiceId ctx) xs) (\<lambda>hp.
                                  Some (gas, withCode rs OK, mem, (c, hp), None))
                              else huh
                          | Some _ \<Rightarrow> huh))))))"

section \<open>Preimages\<close>

definition Query :: "Gas \<Rightarrow> Registers \<Rightarrow> Memory \<Rightarrow> AccumulateContextPair \<times> Heap \<Rightarrow> acc_result" where
  "Query gas rs mem x =
     charge host_cost gas rs mem x (\<lambda>gas.
       let addr = rs A0; preimageMetaKeyLength = rs A1 in
       or_panic (Memory_Read mem addr 32) gas rs mem x (\<lambda>h.
         (case x of (c, hp) \<Rightarrow>
           let key = \<lparr>key_Hash = h, key_Length = ucast preimageMetaKeyLength\<rparr> in
           (case map_of (go_map (metas hp) (PreimageMeta (ServiceAccount_of hp (RegularCtx c)))) key of
              None \<Rightarrow> Some (gas, withCode (rs(A1 := 0)) NONE, mem, x, None)
            | Some a \<Rightarrow>
                let rs =
                  (case a of
                     [] \<Rightarrow> rs(A0 := 0, A1 := 0)
                   | [a0] \<Rightarrow> rs(A0 := 1 + shl (ucast a0) 32, A1 := 0)
                   | [a0, a1] \<Rightarrow> rs(A0 := 2 + shl (ucast a0) 32, A1 := ucast a1)
                   | [a0, a1, a2] \<Rightarrow> rs(A0 := 3 + shl (ucast a0) 32, A1 := ucast a1 + shl (ucast a2) 32)
                   | _ \<Rightarrow> rs) in
                Some (gas, rs, mem, x, None)))))"

definition Solicit :: "Gas \<Rightarrow> Registers \<Rightarrow> Memory \<Rightarrow> AccumulateContextPair \<times> Heap \<Rightarrow> Timeslot \<Rightarrow> acc_result" where
  "Solicit gas rs mem x timeslot =
     charge host_cost gas rs mem x (\<lambda>gas.
       let addr = rs A0; preimageLength = rs A1 in
       or_panic (Memory_Read mem addr 32) gas rs mem x (\<lambda>h.
         (case x of (c, hp) \<Rightarrow>
           let ctx = RegularCtx c;
               serviceAccount = ServiceAccount_of hp ctx;
               key = \<lparr>key_Hash = h, key_Length = ucast preimageLength\<rparr>;
               assign = (\<lambda>slots.
                 or_crash (go_assign (metas hp) (PreimageMeta serviceAccount) key slots) (\<lambda>m.
                   let hp = hp\<lparr>metas := m\<rparr> in
                   if Balance serviceAccount < ThresholdBalance hp serviceAccount
                   then Some (gas, withCode rs FULL, mem, (c, hp), None)
                   else or_crash (set_service hp ctx (ctx_ServiceId ctx) serviceAccount) (\<lambda>hp.
                          Some (gas, withCode rs OK, mem, (c, hp), None)))) in
           (case map_of (go_map (metas hp) (PreimageMeta serviceAccount)) key of
              None \<Rightarrow> assign []
            | Some slots \<Rightarrow>
                if length slots = 2 then assign (slots @ [timeslot])
                else Some (gas, withCode rs HUH, mem, x, None)))))"

definition Forget :: "Gas \<Rightarrow> Registers \<Rightarrow> Memory \<Rightarrow> AccumulateContextPair \<times> Heap \<Rightarrow> Timeslot \<Rightarrow> acc_result" where
  "Forget gas rs mem x timeslot =
     charge host_cost gas rs mem x (\<lambda>gas.
       let addr = rs A0; preimageLength = rs A1 in
       or_panic (Memory_Read mem addr 32) gas rs mem x (\<lambda>h.
         (case x of (c, hp) \<Rightarrow>
           let ctx = RegularCtx c;
               serviceAccount = ServiceAccount_of hp ctx;
               key = \<lparr>key_Hash = h, key_Length = ucast preimageLength\<rparr>;
               huh = Some (gas, withCode rs HUH, mem, x, None);
               put_back = (\<lambda>hp. or_crash (set_service hp ctx (ctx_ServiceId ctx) serviceAccount) (\<lambda>hp.
                 Some (gas, withCode rs OK, mem, (c, hp), None)));
               expunged = hp\<lparr>metas := go_delete (metas hp) (PreimageMeta serviceAccount) key,
                            blobs := go_delete (blobs hp) (PreimageLookup serviceAccount) h\<rparr> in
           (case (case map_of (go_map (metas hp) (PreimageMeta serviceAccount)) key of None \<Rightarrow> [] | Some s \<Rightarrow> s) of
              [] \<Rightarrow> put_back expunged
            | [x0] \<Rightarrow>
                or_crash (go_assign (metas hp) (PreimageMeta serviceAccount) key [x0, timeslot]) (\<lambda>m.
                  put_back (hp\<lparr>metas := m\<rparr>))
            | [x0, x1] \<Rightarrow> if x1 < timeslot - PreimageExpulsionPeriod then put_back expunged else huh
            | [x0, x1, x2] \<Rightarrow>
                if x1 < timeslot - PreimageExpulsionPeriod then
                  or_crash (go_assign (metas hp) (PreimageMeta serviceAccount) key [x2, timeslot]) (\<lambda>m.
                    Some (gas, withCode rs OK, mem, (c, hp\<lparr>metas := m\<rparr>), None))
                else huh
            | _ \<Rightarrow> huh))))"

definition Yield :: "Gas \<Rightarrow> Registers \<Rightarrow> Memory \<Rightarrow> AccumulateContextPair \<times> Heap \<Rightarrow> acc_result" where
  "Yield gas rs mem x =
     charge host_cost gas rs mem x (\<lambda>gas.
       let addr = rs A0 in
       or_panic (Memory_Read mem addr 32) gas rs mem x (\<lambda>h.
         (case x of (c, hp) \<Rightarrow>
           Some (gas, withCode rs OK, mem,
             (update_regular (\<lambda>ctx. ctx\<lparr>AccumulationHash := Some h\<rparr>) c, hp), None))))"

section \<open>Gas\<close>

lemma ends_loops [host_gas]:
  "(\<And>x. ends g (k x)) \<Longrightarrow> ends g (Bless_loop n i g rs m a x k)"
  "(\<And>x. ends g (k x)) \<Longrightarrow> ends g (Assign_loop is core g rs m a x k)"
  "(\<And>x. ends g (k x)) \<Longrightarrow> ends g (Designate_loop is g rs m a x k)"
  subgoal by (induction n arbitrary: i x) (simp_all add: host_gas)
  subgoal by (induction "is" arbitrary: x) (simp_all add: host_gas)
  subgoal by (induction "is" arbitrary: x) (simp_all add: host_gas)
  done

lemma charges_accumulate:
  "charges host_cost g (Bless g rs m x)" "charges host_cost g (Assign g rs m x)"
  "charges host_cost g (Designate g rs m x)" "charges host_cost g (Checkpoint g rs m x)"
  "charges host_cost g (New g rs m x)" "charges host_cost g (Upgrade g rs m x)"
  "charges host_cost g (Eject g rs m x t)" "charges host_cost g (Query g rs m x)"
  "charges host_cost g (Solicit g rs m x t)" "charges host_cost g (Forget g rs m x t)"
  "charges host_cost g (Yield g rs m x)"
  unfolding Bless_def Assign_def Designate_def Checkpoint_def New_def Upgrade_def Eject_def Query_def
    Solicit_def Forget_def Yield_def
  by (rule charges_charge, simp add: host_gas Let_def)+

lemma charges_Transfer: "charges (host_cost + rs A2) g (Transfer g rs m x)"
  unfolding Transfer_def Let_def
  by (rule charges_charge) (simp add: host_gas Let_def)

section \<open>Effects on the services\<close>

lemma service_of_set:
  assumes "set_service hp ctx s a = Some hp'"
  shows "service_of hp' r = (if r = ServiceState (ctx_State ctx) then (service_of hp r)(s \<mapsto> a) else service_of hp r)"
    "blobs hp' = blobs hp" "metas hp' = metas hp"
  using assms gomap.get_put [of "states hp" "ServiceState (ctx_State ctx)" s a]
  by (auto simp: set_service_def service_of_def)

lemma set_service_defined:
  assumes "ServiceState (ctx_State ctx) \<noteq> None"
  obtains hp' where "set_service hp ctx s a = Some hp'"
  using gomap.put_defined [OF assms, of "states hp" s a] by (auto simp: set_service_def)

lemma Upgrade_result:
  assumes "Upgrade g rs m (c, hp) = Some (g', rs', m', (c', hp'), None)" "Memory_Read m (rs A0) 32 = ret h"
  shows "c' = c" "CodeHash (ServiceAccount_of hp' (RegularCtx c)) = h"
  using assms
  by (auto simp: Upgrade_def charge_def or_panic_def or_crash_def Let_def ServiceAccount_of_def service_of_set
      split: if_splits option.splits)

lemma Checkpoint_result:
  "Checkpoint g rs m (c, hp) = Some (g', rs', m', (c', hp'), None) \<Longrightarrow>
     c' = c\<lparr>ExceptionalCtx := RegularCtx c\<rparr> \<and> hp' = hp"
  by (auto simp: Checkpoint_def charge_def split: if_splits)

lemma host_cost_simps: "sint host_cost = 10"
  by (simp add: host_cost_def)

lemma new_account_facts:
  assumes "new_account h l ga gt hp = (account, hp')"
  shows "states hp' = states hp" "CodeHash account = h" "Balance account = 100"
    "ThresholdBalance hp' account = 100" "GasLimitForAccumulator account = ga" "GasLimitOnTransfer account = gt"
    "PreimageLookup account = None"
  using assms
  by (auto simp: new_account_def Let_def ThresholdBalance_def TotalItems_def TotalStorageSize_def go_map_def
      BasicMinimumBalance_def)

definition distinct_maps :: "Heap \<Rightarrow> ServiceAccount \<Rightarrow> bool" where
  "distinct_maps hp a \<longleftrightarrow> Storage a \<noteq> Some (fresh hp) \<and> PreimageLookup a \<noteq> Some (fresh hp)"

lemma new_account_threshold:
  assumes "new_account h l ga gt hp = (account, hp')" "distinct_maps hp a"
  shows "ThresholdBalance hp' a = ThresholdBalance hp a"
proof -
  have "go_map (blobs hp') r = go_map (blobs hp) r" if "r \<noteq> Some (fresh hp)" for r
    using assms(1) that by (auto simp: new_account_def Let_def go_map_def split: option.splits if_splits)
  then show ?thesis
    using assms(2) by (simp add: ThresholdBalance_def TotalItems_def TotalStorageSize_def distinct_maps_def)
qed

section \<open>Examples\<close>

definition demo_context :: AccumulateContext where
  "demo_context = \<lparr>ctx_ServiceId = 7, ctx_State = \<lparr>ServiceState = Some 0, ValidatorKeys = [],
     PendingAuthorizersQueues = [], Privileged = \<lparr>ManagerServiceId = 0, AssignServiceId = 0,
     DesignateServiceId = 0, AmountOfGasPerServiceId = None\<rparr>\<rparr>, NewServiceId = 300, DeferredTransfers = [],
     AccumulationHash = None\<rparr>"

definition demo_pair :: AccumulateContextPair where
  "demo_pair = \<lparr>RegularCtx = demo_context, ExceptionalCtx = demo_context\<rparr>"

lemma host_memory_reads:
  "Memory_Read host_memory 131072 32 = ret (replicate 32 0)"
  "Memory_Read host_memory 131072 128 = ret (replicate 128 0)"
  by code_simp+

section \<open>Properties\<close>

text \<open>
  \<^bold>\<open>A checkpoint is not a copy.\<close> The contexts share their dictionary of services: after a
  \<^verbatim>\<open>Checkpoint\<close>, an \<^verbatim>\<open>Upgrade\<close> of the regular context changes the code of the service in the
  exceptional context as well.
\<close>

theorem Checkpoint_shares_services:
  assumes "Checkpoint g rs m (c, hp) = Some (g1, rs1, m1, (c1, hp1), None)"
    and "Upgrade g2 rs2 m2 (c1, hp1) = Some (g3, rs3, m3, (c3, hp3), None)"
    and "Memory_Read m2 (rs2 A0) 32 = ret h"
  shows "CodeHash (ServiceAccount_of hp3 (ExceptionalCtx c3)) = h"
  using Checkpoint_result [OF assms(1)] Upgrade_result [OF assms(2,3)] by simp

theorem Checkpoint_shares_services_witness:
  "\<exists>g1 rs1 m1 c1 hp1 g3 rs3 m3 c3 hp3.
     Checkpoint 100 (\<lambda>_. 0) host_memory (demo_pair, demo_heap) = Some (g1, rs1, m1, (c1, hp1), None) \<and>
     Upgrade 50 ((\<lambda>_. 0)(A0 := 131072)) host_memory (c1, hp1) = Some (g3, rs3, m3, (c3, hp3), None) \<and>
     CodeHash (ServiceAccount_of hp3 (ExceptionalCtx c3)) = replicate 32 0"
proof -
  let ?rs = "(\<lambda>_. 0)(A0 := 131072) :: Registers"
  have c: "Checkpoint 100 (\<lambda>_. 0) host_memory (demo_pair, demo_heap) =
      Some (90, (\<lambda>_. 0)(A0 := 90), host_memory, (demo_pair\<lparr>ExceptionalCtx := RegularCtx demo_pair\<rparr>, demo_heap), None)"
    by (simp add: Checkpoint_def charge_def host_cost_def)
  have ref: "ServiceState (ctx_State demo_context) \<noteq> None" by (simp add: demo_context_def)
  obtain hp3 where "set_service demo_heap demo_context 7 ((ServiceAccount_of demo_heap demo_context)
      \<lparr>CodeHash := replicate 32 0, GasLimitForAccumulator := 0, GasLimitOnTransfer := 0\<rparr>) = Some hp3"
    using ref by (rule set_service_defined)
  then have u: "Upgrade 50 ?rs host_memory (demo_pair\<lparr>ExceptionalCtx := RegularCtx demo_pair\<rparr>, demo_heap) =
      Some (40, withCode ?rs OK, host_memory, (demo_pair\<lparr>ExceptionalCtx := RegularCtx demo_pair\<rparr>, hp3), None)"
    using host_memory_reads(1)
    by (simp add: Upgrade_def charge_def host_cost_def or_panic_def or_crash_def demo_pair_def Let_def)
      (simp add: demo_context_def)
  have "Memory_Read host_memory (?rs A0) 32 = ret (replicate 32 0)" using host_memory_reads(1) by simp
  from Checkpoint_shares_services [OF c u this] c u show ?thesis by blast
qed

text \<open>
  \<^bold>\<open>A transfer can add gas.\<close> The gas limit of a \<^verbatim>\<open>Transfer\<close> is an unsigned register read as a signed
  number. With a limit of \<open>2 ^ 64 - (10 + d)\<close> the call succeeds, whatever the receiver, and leaves
  the machine with \<open>d\<close> more gas than before.
\<close>

theorem Transfer_grants_gas:
  assumes "rs A2 = - (10 + d)" "0 \<le> sint d" "0 \<le> sint g" "sint g + sint d < 2 ^ 63"
    and "Memory_Read m (rs A3) 128 = ret memo"
  shows "\<exists>rs' x'. Transfer g rs m x = Some (g + d, rs', m, x', None) \<and> sint (g + d) = sint g + sint d"
proof -
  have cost: "host_cost + rs A2 = - d" using assms(1) by (simp add: host_cost_def)
  have "sint (- d) = - sint d"
    using assms(2) by (simp add: sint_uminus)
  then have "\<not> sint g < sint (- d)" using assms by simp
  moreover have "sint (g + d) = sint g + sint d"
    using assms(2,3,4) sint_word_of_int64 [of "sint g + sint d"] by simp
  ultimately show ?thesis
    using assms(5) cost
    by (auto simp: Transfer_def charge_def or_panic_def TransferMemoSizeBytes_def Let_def split: prod.splits option.splits)
qed

theorem Transfer_grants_gas_witness:
  "\<exists>rs' x'. Transfer 100 ((\<lambda>_. 0)(A2 := - 60, A3 := 131072)) host_memory (demo_pair, demo_heap) =
     Some (150, rs', host_memory, x', None) \<and> sint (150 :: Gas) = sint (100 :: Gas) + sint (50 :: Gas)"
  using Transfer_grants_gas [of "(\<lambda>_. 0)(A2 := - 60, A3 := 131072)" 50 100 host_memory _ "(demo_pair, demo_heap)"]
    host_memory_reads(2) by simp

text \<open>
  C31: \<^bold>\<open>what \<^verbatim>\<open>New\<close> creates.\<close> With enough gas and a readable code hash, and when the balance minus 100
  (modulo \<open>2 ^ 64\<close>) is not below the threshold, a new account with the given code hash, gas limits
  and a balance of 100 is stored under a free index, 100 is taken from the caller, and no other
  service changes. The index that the program receives is the one chosen for the previous
  account, not the one the new account is stored under.
\<close>

theorem New_creates_service:
  fixes c hp
  defines "ctx \<equiv> RegularCtx c" and "st \<equiv> ServiceState (ctx_State (RegularCtx c))"
  assumes "sint host_cost \<le> sint g" "Memory_Read m (rs A0) 32 = ret h"
    and "service_of hp st (ctx_ServiceId ctx) = Some me" "distinct_maps hp me"
    and "card (dom (service_of hp st)) < 2 ^ 32 - 2 ^ 9"
    and "ThresholdBalance hp me \<le> Balance me - 100"
  shows "\<exists>newId hp' account.
    New g rs m (c, hp) = Some (g - host_cost, rs(A0 := ucast (NewServiceId ctx)), m,
      (c\<lparr>RegularCtx := ctx\<lparr>NewServiceId := newId\<rparr>\<rparr>, hp'), None) \<and>
    newId \<notin> dom (service_of hp st) \<and>
    service_of hp' st = (service_of hp st)(ctx_ServiceId ctx \<mapsto> me\<lparr>Balance := Balance me - 100\<rparr>, newId \<mapsto> account) \<and>
    CodeHash account = h \<and> Balance account = 100 \<and>
    GasLimitForAccumulator account = rs A2 \<and> GasLimitOnTransfer account = rs A3"
proof -
  obtain account hp1 where na: "new_account h (rs A1) (rs A2) (rs A3) hp = (account, hp1)" by fastforce
  note f = new_account_facts [OF na]
  have services: "service_of hp1 r = service_of hp r" for r using f(1) by (simp add: service_of_def)
  have me: "ServiceAccount_of hp1 ctx = me" using assms(5) services by (simp add: ServiceAccount_of_def ctx_def st_def)
  obtain newId where new: "CheckIndex (BumpIndex (NewServiceId ctx)) (go_map (states hp1) st) = Some newId"
    "newId \<notin> dom (service_of hp st)"
    using CheckIndex_finds [of "go_map (states hp1) st"] assms(7) f(1) by (auto simp: service_of_def)
  have "st \<noteq> None" using assms(5) by (auto simp: service_of_def go_map_def split: option.splits)
  then have ref: "ServiceState (ctx_State ctx) \<noteq> None" by (simp add: st_def ctx_def)
  obtain hp2 where hp2: "set_service hp1 ctx (ctx_ServiceId ctx) (me\<lparr>Balance := Balance me - 100\<rparr>) = Some hp2"
    using ref by (rule set_service_defined)
  obtain hp3 where hp3: "set_service hp2 ctx newId account = Some hp3"
    using ref by (rule set_service_defined)
  have "New g rs m (c, hp) = Some (g - host_cost, rs(A0 := ucast (NewServiceId ctx)), m,
      (c\<lparr>RegularCtx := ctx\<lparr>NewServiceId := newId\<rparr>\<rparr>, hp3), None)"
    using assms(3,4,8) na f me new(1) hp2 hp3 new_account_threshold [OF na assms(6)]
    by (simp add: New_def charge_def or_panic_def or_crash_def Let_def update_regular_def ctx_def st_def)
  moreover have "service_of hp3 st = (service_of hp st)(ctx_ServiceId ctx \<mapsto> me\<lparr>Balance := Balance me - 100\<rparr>, newId \<mapsto> account)"
    using service_of_set(1) [OF hp3, of st] service_of_set(1) [OF hp2, of st] services by (simp add: st_def ctx_def)
  ultimately show ?thesis using new(2) f by blast
qed

theorem New_creates_service_witness:
  "\<exists>newId hp' account.
    New 100 ((\<lambda>_. 0)(A0 := 131072)) host_memory (demo_pair, demo_heap) =
      Some (100 - host_cost, (\<lambda>_. 0)(A0 := 300), host_memory,
        (demo_pair\<lparr>RegularCtx := demo_context\<lparr>NewServiceId := newId\<rparr>\<rparr>, hp'), None) \<and>
    newId \<noteq> 7 \<and> service_of hp' (Some 0) 7 = Some (demo_account\<lparr>Balance := 18446744073709551566\<rparr>)"
proof -
  let ?rs = "(\<lambda>_. 0)(A0 := 131072) :: Registers"
  have st: "service_of demo_heap (Some 0) = [7 \<mapsto> demo_account]"
    by (auto simp: service_of_def go_map_def demo_heap_def)
  have "ThresholdBalance demo_heap demo_account = 100"
    by (simp add: ThresholdBalance_def TotalItems_def TotalStorageSize_def go_map_def demo_heap_def demo_account_def
        empty_heap_def BasicMinimumBalance_def)
  then have "ThresholdBalance demo_heap demo_account \<le> Balance demo_account - 100"
    by (simp add: demo_account_def)
  moreover have "distinct_maps demo_heap demo_account"
    by (simp add: distinct_maps_def demo_heap_def demo_account_def)
  moreover have "sint host_cost \<le> sint (100 :: Gas)" by (simp add: host_cost_def)
  ultimately show ?thesis
    using New_creates_service [of 100 host_memory ?rs "replicate 32 0" demo_heap demo_pair demo_account] host_memory_reads(1) st
    by (fastforce simp: demo_pair_def demo_context_def demo_account_def)
qed

end
