(* ===== verification/Host_Invocations.thy ===== *)
theory Host_Invocations
  imports Host_Accumulate
begin

text \<open>
  The invocations of services: is-authorized (\<^verbatim>\<open>internal/authorization/authorization.go\<close>), on-transfer
  and accumulate (\<^verbatim>\<open>internal/statetransition/on_transfer.go\<close>, \<^verbatim>\<open>accumulate.go\<close>). Each runs a program with a
  closure that dispatches the host calls. The dispatchers are shown not to add gas, which is what
  the loop of \<^verbatim>\<open>InvokeHostCall\<close> needs to end.
\<close>

section \<open>Is-authorized\<close>

text \<open>
  The error of an invocation: of the codec, of the search for the code, of the machine.
\<close>

datatype invocation_error = Encoding jam_error | NoCode string | Machine pvm_error

text \<open>
  The closures that the invocations pass to the machine, one definition each.
\<close>

definition is_authorized_host :: "(unit \<times> unit) HostCall" where
  "is_authorized_host hostCall gasCounter rs mem ctx =
     (if hostCall = GasID then
        (case GasRemaining gasCounter rs of (gasCounter, rs, err) \<Rightarrow> Some (gasCounter, rs, mem, ctx, err))
      else Some (gasCounter - 10, rs(A0 := WHAT), mem, ctx, None))"

definition authorization_args :: "Package \<Rightarrow> u16 \<Rightarrow> bytes jam_result" where
  "authorization_args workPackage coreCode =
     Marshal 8 (struct_type [Package_type, TPrim KUint16]) (VStruct [Package_value workPackage, VUint (ucast coreCode)])"

text \<open>
  The outer \<open>None\<close> is a machine that runs forever, the inner one a run-time panic.
\<close>

definition Authorization_InvokePVM ::
  "Package \<Rightarrow> u16 \<Rightarrow> ref \<Rightarrow> Heap \<Rightarrow> (bytes \<times> invocation_error option) option option" where
  "Authorization_InvokePVM workPackage coreCode services hp =
     (case authorization_args workPackage coreCode of
        None \<Rightarrow> Some None
      | Some (Inl err) \<Rightarrow> Some (Some ([], Some (Encoding err)))
      | Some (Inr args) \<Rightarrow>
          (case GetAuthorizationCode workPackage services hp of
             Inl err \<Rightarrow> Some (Some ([], Some (NoCode err)))
           | Inr pc \<Rightarrow>
               map_option (map_option (\<lambda>(g, result, x, h, err). (result, map_option Machine err)))
                 (InvokeWholeProgram pc 0 MaxAllocatedGasIsAuthorized args is_authorized_host () ())))"

section \<open>On-transfer\<close>

definition keep_context :: "'x \<Rightarrow> unit host_result \<Rightarrow> 'x host_result" where
  "keep_context x r = map_option (\<lambda>(g, rs, m, u, err). (g, rs, m, x, err)) r"

definition on_transfer_host :: "(bytes \<Rightarrow> Hash) \<Rightarrow> ServiceId \<Rightarrow> ref \<Rightarrow> (ServiceAccount \<times> Heap) HostCall" where
  "on_transfer_host HashData serviceIndex serviceState hostCall gasCounter rs mem x =
     (case x of (serviceAccount, hp) \<Rightarrow>
        if hostCall = GasID then
          (case GasRemaining gasCounter rs of (gasCounter, rs, err) \<Rightarrow> Some (gasCounter, rs, mem, x, err))
        else if hostCall = LookupID then
          keep_context x (Lookup gasCounter rs mem serviceAccount serviceIndex serviceState hp)
        else if hostCall = ReadID then
          keep_context x (Read HashData gasCounter rs mem serviceAccount serviceIndex serviceState hp)
        else if hostCall = WriteID then Write HashData gasCounter rs mem serviceAccount serviceIndex hp
        else if hostCall = InfoID then keep_context x (Info gasCounter rs mem serviceIndex serviceState hp)
        else Some (gasCounter - 10, rs(A0 := WHAT), mem, x, None))"

definition DeferredTransfer_type :: jtype where
  "DeferredTransfer_type = struct_type [TNamed KUint32, TNamed KUint32, TPrim KUint64,
     TArray TransferMemoSizeBytes (TPrim KUint8), TPrim KUint64]"

definition DeferredTransfer_value :: "DeferredTransfer \<Rightarrow> jval" where
  "DeferredTransfer_value t = VStruct [VUint (ucast (SenderServiceIndex t)), VUint (ucast (ReceiverServiceIndex t)),
     VUint (transfer_Balance t), hash_value (Memo t), VUint (GasLimit t)]"

text \<open>
  An error of the codec is logged, and the program runs without arguments; an error of the machine
  is logged too. A nil slice of code is \<open>None\<close>. The closure returns the variable \<^verbatim>\<open>err\<close> it
  captures, which is nil whenever a call starts: the loop ends at the first error, and the
  transfers have an encoding.
\<close>

definition InvokePVMOnTransfer ::
  "(bytes \<Rightarrow> Hash) \<Rightarrow> ref \<Rightarrow> ServiceId \<Rightarrow> DeferredTransfer list \<Rightarrow> Heap \<Rightarrow> (ServiceAccount \<times> Heap) option option" where
  "InvokePVMOnTransfer HashData serviceState serviceIndex transfers hp =
     (let serviceAccount = (case service_of hp serviceState serviceIndex of None \<Rightarrow> ServiceAccount_zero | Some a \<Rightarrow> a) in
      (case map_of (go_map (blobs hp) (PreimageLookup serviceAccount)) (CodeHash serviceAccount) of
         None \<Rightarrow> Some (Some (serviceAccount, hp))
       | Some serviceCode \<Rightarrow>
           if transfers = [] then Some (Some (serviceAccount, hp))
           else
             let gas = foldl (\<lambda>g t. g + GasLimit t) 0 transfers;
                 balance = foldl (\<lambda>b t. b + transfer_Balance t) (Balance serviceAccount) transfers;
                 serviceAccount = serviceAccount\<lparr>Balance := balance\<rparr> in
             (case Marshal (stack_depth (TSlice DeferredTransfer_type)) (TSlice DeferredTransfer_type)
                     (VList (map DeferredTransfer_value transfers)) of
                None \<Rightarrow> Some None
              | Some encoded \<Rightarrow>
                  let args = (case encoded of Inl err \<Rightarrow> [] | Inr bs \<Rightarrow> bs) in
                  map_option (map_option (\<lambda>(g, r, newServiceAccount, hp, err). (newServiceAccount, hp)))
                    (InvokeWholeProgram serviceCode 10 gas args
                      (on_transfer_host HashData serviceIndex serviceState) serviceAccount hp))))"

section \<open>Accumulation\<close>

text \<open>
  The two types that \<^verbatim>\<open>Inner\<close> of the source can have.
\<close>

datatype WorkResultOutputOrError = Output bytes | WorkResultError u8

record AccumulationOperand =
  operand_Output :: WorkResultOutputOrError
  PayloadHash :: Hash
  WorkPackageHash :: Hash
  AuthorizationOutput :: bytes

definition AccumulationOperand_type :: jtype where
  "AccumulationOperand_type = struct_type [TEnum [(0, Some TBytes), (1, None), (2, None), (3, None), (4, None)],
     hash_type, hash_type, TBytes]"

definition AccumulationOperand_value :: "AccumulationOperand \<Rightarrow> jval" where
  "AccumulationOperand_value a = VStruct
     [(case operand_Output a of Output b \<Rightarrow> VEnum 0 (Some (VBytes b)) | WorkResultError e \<Rightarrow> VEnum e None),
      hash_value (PayloadHash a), hash_value (WorkPackageHash a), VBytes (AuthorizationOutput a)]"

text \<open>
  After \<^verbatim>\<open>Lookup\<close>, \<^verbatim>\<open>Read\<close>, \<^verbatim>\<open>Write\<close> and \<^verbatim>\<open>Info\<close> the closure stores the account into the dictionary of the
  regular context, whatever the error.
\<close>

definition put_current ::
  "ServiceAccount \<Rightarrow> AccumulateContextPair \<times> Heap \<Rightarrow> unit host_result \<Rightarrow> acc_result" where
  "put_current currentService x r =
     (case x of (ctx, hp) \<Rightarrow>
        or_crash r (\<lambda>(g, rs, m, u, err).
        or_crash (set_service hp (RegularCtx ctx) (ctx_ServiceId (RegularCtx ctx)) currentService) (\<lambda>hp.
          Some (g, rs, m, (ctx, hp), err))))"

definition accumulate_host ::
  "(bytes \<Rightarrow> Hash) \<Rightarrow> ref \<Rightarrow> ServiceId \<Rightarrow> Timeslot \<Rightarrow> (AccumulateContextPair \<times> Heap) HostCall" where
  "accumulate_host HashData accServices serviceIndex timeslot hostCall gasCounter rs mem x =
     (case x of (ctx, hp) \<Rightarrow>
        let currentService = (case service_of hp accServices serviceIndex of None \<Rightarrow> ServiceAccount_zero | Some a \<Rightarrow> a);
            services = ServiceState (ctx_State (RegularCtx ctx)) in
        if hostCall = GasID then
          (case GasRemaining gasCounter rs of (gasCounter, rs, err) \<Rightarrow> Some (gasCounter, rs, mem, x, err))
        else if hostCall = LookupID then
          put_current currentService x (Lookup gasCounter rs mem currentService serviceIndex services hp)
        else if hostCall = ReadID then
          put_current currentService x (Read HashData gasCounter rs mem currentService serviceIndex services hp)
        else if hostCall = WriteID then
          or_crash (Write HashData gasCounter rs mem currentService serviceIndex hp) (\<lambda>(g, rs, m, (s, hp), err).
            put_current s (ctx, hp) (Some (g, rs, m, (), err)))
        else if hostCall = InfoID then put_current currentService x (Info gasCounter rs mem serviceIndex services hp)
        else if hostCall = BlessID then Bless gasCounter rs mem x
        else if hostCall = AssignID then Assign gasCounter rs mem x
        else if hostCall = DesignateID then Designate gasCounter rs mem x
        else if hostCall = CheckpointID then Checkpoint gasCounter rs mem x
        else if hostCall = NewID then New gasCounter rs mem x
        else if hostCall = UpgradeID then Upgrade gasCounter rs mem x
        else if hostCall = TransferID then Transfer gasCounter rs mem x
        else if hostCall = EjectID then Eject gasCounter rs mem x timeslot
        else if hostCall = QueryID then Query gasCounter rs mem x
        else if hostCall = SolicitID then Solicit gasCounter rs mem x timeslot
        else if hostCall = ForgetID then Forget gasCounter rs mem x timeslot
        else if hostCall = YieldID then Yield gasCounter rs mem x
        else Some (gasCounter - 10, rs(A0 := WHAT), mem, x, None))"

definition newServiceID :: "(bytes \<Rightarrow> Hash) \<Rightarrow> Hash \<Rightarrow> Timeslot \<Rightarrow> ServiceId \<Rightarrow> ServiceId jam_result" where
  "newServiceID HashData entropy timeslot serviceIndex =
     res_bind (Marshal 3 (struct_type [TNamed KUint32, hash_type, TNamed KUint32])
                (VStruct [VUint (ucast serviceIndex), hash_value entropy, VUint (ucast timeslot)])) (\<lambda>hashBytes.
     res_bind (Unmarshal 2 (TNamed KUint32) (HashData hashBytes) (VUint 0)) (\<lambda>v.
       case v of VUint newId \<Rightarrow> ret (ucast newId) | _ \<Rightarrow> None))"

definition AccumulateContext_zero :: AccumulateContext where
  "AccumulateContext_zero = \<lparr>ctx_ServiceId = 0, ctx_State = \<lparr>ServiceState = None,
     ValidatorKeys = replicate NumberOfValidators None,
     PendingAuthorizersQueues = replicate TotalNumberOfCores (replicate PendingAuthorizersQueueSize (replicate 32 0)),
     Privileged = \<lparr>ManagerServiceId = 0, AssignServiceId = 0, DesignateServiceId = 0, AmountOfGasPerServiceId = None\<rparr>\<rparr>,
     NewServiceId = 0, DeferredTransfers = [], AccumulationHash = None\<rparr>"

text \<open>
  The dictionary of the context is a new map with the one service; the clone of all services that
  the source makes beside it is not used.
\<close>

definition newCtx ::
  "(bytes \<Rightarrow> Hash) \<Rightarrow> Hash \<Rightarrow> Timeslot \<Rightarrow> AccumulationState \<Rightarrow> ServiceId \<Rightarrow> Heap \<Rightarrow>
    ((AccumulateContext \<times> jam_error option) \<times> Heap) option" where
  "newCtx HashData entropy timeslot u serviceIndex hp =
     (let account = (case service_of hp (ServiceState u) serviceIndex of None \<Rightarrow> ServiceAccount_zero | Some a \<Rightarrow> a);
          hp1 = hp\<lparr>states := (states hp)(fresh hp := [(serviceIndex, account)]), fresh := fresh hp + 1\<rparr> in
      (case newServiceID HashData entropy timeslot serviceIndex of
         None \<Rightarrow> None
       | Some (Inl err) \<Rightarrow> Some ((AccumulateContext_zero, Some err), hp1)
       | Some (Inr newId) \<Rightarrow>
           (case DeriveIndex newId (go_map (states hp) (ServiceState u)) of
              None \<Rightarrow> None
            | Some i \<Rightarrow>
                Some ((\<lparr>ctx_ServiceId = serviceIndex, ctx_State = u\<lparr>ServiceState := Some (fresh hp)\<rparr>,
                        NewServiceId = i, DeferredTransfers = [], AccumulationHash = None\<rparr>, None), hp1))))"

definition accumulation_args :: "Timeslot \<Rightarrow> ServiceId \<Rightarrow> AccumulationOperand list \<Rightarrow> bytes jam_result" where
  "accumulation_args newTime serviceIndex accOperand =
     (let ty = struct_type [TNamed KUint32, TNamed KUint32, TSlice AccumulationOperand_type] in
      Marshal (stack_depth ty) ty (VStruct [VUint (ucast newTime), VUint (ucast serviceIndex),
        VList (map AccumulationOperand_value accOperand)]))"

type_synonym accumulation = "AccumulationState \<times> DeferredTransfer list \<times> Hash option \<times> u64"

text \<open>
  Both error branches of the source return the same.
\<close>

definition accumulation_outcome ::
  "Gas \<times> bytes \<times> AccumulateContextPair \<times> Heap \<times> pvm_error option \<Rightarrow> accumulation \<times> Heap" where
  "accumulation_outcome r =
     (case r of (remainingGas, out, c, hp, err) \<Rightarrow>
        if err \<noteq> None then
          ((ctx_State (ExceptionalCtx c), DeferredTransfers (ExceptionalCtx c), None, remainingGas), hp)
        else
          ((ctx_State (RegularCtx c), DeferredTransfers (RegularCtx c),
            if length out = 32 then Some out else None, remainingGas), hp))"

definition Accumulator_InvokePVM ::
  "(bytes \<Rightarrow> Hash) \<Rightarrow> Hash \<Rightarrow> Timeslot \<Rightarrow> AccumulationState \<Rightarrow> Timeslot \<Rightarrow> ServiceId \<Rightarrow> u64 \<Rightarrow>
    AccumulationOperand list \<Rightarrow> Heap \<Rightarrow> (accumulation \<times> Heap) option option" where
  "Accumulator_InvokePVM HashData entropy timeslot accState newTime serviceIndex gas accOperand hp =
     (let account = (case service_of hp (ServiceState accState) serviceIndex of None \<Rightarrow> ServiceAccount_zero | Some a \<Rightarrow> a) in
      (case newCtx HashData entropy timeslot accState serviceIndex hp of
         None \<Rightarrow> Some None
       | Some ((ctx, err), hp1) \<Rightarrow>
           let unchanged = Some (Some ((ctx_State ctx, [], None, 0), hp1)) in
           (case Code hp account of
              None \<Rightarrow> unchanged
            | Some code1 \<Rightarrow>
                if err \<noteq> None then unchanged
                else
                  (case accumulation_args newTime serviceIndex accOperand of
                     None \<Rightarrow> Some None
                   | Some (Inl err) \<Rightarrow> unchanged
                   | Some (Inr args) \<Rightarrow>
                       map_option (map_option accumulation_outcome)
                         (InvokeWholeProgram code1 5 gas args
                           (accumulate_host HashData (ServiceState accState) serviceIndex timeslot)
                           \<lparr>RegularCtx = ctx, ExceptionalCtx = ctx\<rparr> hp1)))))"

section \<open>Host functions that keep the loop finite\<close>

lemma sint_minus_10: "0 \<le> sint (g :: Gas) \<Longrightarrow> sint (g - 10) \<le> sint g"
  using sint_word_of_int64 [of "sint g - 10"] sint_range64 [of g] by simp

lemma sint_paid: "sint host_cost \<le> sint g \<Longrightarrow> sint (g - host_cost) \<le> sint g"
  using sint_minus_10 [of g] by (simp add: host_cost_def)

text \<open>
  A call that returns without error leaves no more gas than there was.
\<close>

definition no_refund :: "Gas \<Rightarrow> 'x host_result \<Rightarrow> bool" where
  "no_refund g r \<longleftrightarrow> (\<forall>g' rs m x. r = Some (g', rs, m, x, None) \<longrightarrow> 0 \<le> sint g \<longrightarrow> sint g' \<le> sint g)"

lemma charges_no_refund: "charges host_cost g r \<Longrightarrow> no_refund g r"
  using sint_paid by (auto simp: charges_def no_refund_def)

lemma charges_keep: "charges k g r \<Longrightarrow> charges k g (keep_context x r)"
  by (auto simp: charges_def keep_context_def)

lemma charges_put_current: "charges k g r \<Longrightarrow> charges k g (put_current a x r)"
  by (auto simp: charges_def put_current_def or_crash_def split: option.splits prod.splits)

lemma charges_Write_put:
  "charges host_cost g (or_crash (Write HashData g rs m s i hp)
     (\<lambda>(g, rs, m, (s, hp), err). put_current s (c, hp) (Some (g, rs, m, (), err))))"
  using charges_general(3) [of g HashData rs m s i hp]
  by (auto simp: charges_def put_current_def or_crash_def split: option.splits prod.splits)

lemma no_refund_simps [simp]:
  "no_refund g (if b then r else r') \<longleftrightarrow> (b \<longrightarrow> no_refund g r) \<and> (\<not> b \<longrightarrow> no_refund g r')"
  "no_refund g (Some (g - 10, rs, m, x, None))"
  "no_refund g (case GasRemaining g rs0 of (g, rs, err) \<Rightarrow> Some (g, rs, m, x, err))"
  using sint_paid [of g]
  by (auto simp: no_refund_def sint_minus_10 GasRemaining_def Let_def)

lemmas general_no_refund [simp] = charges_general(1,2,4) [THEN charges_keep, THEN charges_no_refund]
  charges_general [THEN charges_no_refund]
  charges_general(1,2,4) [THEN charges_put_current, THEN charges_no_refund]
  charges_Write_put [THEN charges_no_refund] charges_accumulate [THEN charges_no_refund]

interpretation is_authorized: gas_host is_authorized_host
proof
  have "no_refund g (is_authorized_host n g rs m x)" for n g rs m x
    by (simp add: is_authorized_host_def)
  then show "sint g' \<le> sint g"
    if "is_authorized_host n g rs m x = Some (g', rs', m', x', None)" "0 \<le> sint g" for n g rs m x g' rs' m' x'
    using that unfolding no_refund_def by blast
qed

interpretation on_transfer: gas_host "on_transfer_host HashData serviceIndex serviceState"
  for HashData serviceIndex serviceState
proof
  have "no_refund g (on_transfer_host HashData serviceIndex serviceState n g rs m x)" for n g rs m x
    by (cases x) (simp add: on_transfer_host_def)
  then show "sint g' \<le> sint g"
    if "on_transfer_host HashData serviceIndex serviceState n g rs m x = Some (g', rs', m', x', None)" "0 \<le> sint g"
    for n g rs m x g' rs' m' x'
    using that unfolding no_refund_def by blast
qed

lemma InvokeWholeProgram_returns:
  assumes "gas_host hostFunc"
  shows "\<exists>r. InvokeWholeProgram p entryPoint initialGas args hostFunc x h = Some r"
proof -
  define f where "f i = the (InvokeHostCall hostFunc i (x, h))" for i
  have "InvokeHostCall hostFunc i (x, h) = Some (f i)" for i
    using gas_host.InvokeHostCall_returns [OF assms, of i "(x, h)"] by (auto simp: f_def)
  then show ?thesis
    by (simp add: InvokeWholeProgram_def Results_def split: option.split sum.split prod.split)
qed

lemma put_current_result:
  assumes "put_current a (c, hp) r = Some (g', rs', m', (c', hp'), e)"
  shows "c' = c" "service_of hp' (ServiceState (ctx_State (RegularCtx c))) (ctx_ServiceId (RegularCtx c)) = Some a"
  using assms by (auto simp: put_current_def or_crash_def service_of_set split: option.splits prod.splits)

lemma newCtx_services:
  assumes "newCtx HashData entropy t u i hp = Some ((ctx, None), hp')" "service_of hp (ServiceState u) i = Some a"
  shows "ctx_ServiceId ctx = i" "service_of hp' (ServiceState (ctx_State ctx)) = [i \<mapsto> a]"
  using assms by (auto simp: newCtx_def Let_def service_of_def go_map_def split: option.splits sum.splits)

section \<open>Properties\<close>

text \<open>
  C29: \<^bold>\<open>authorization and transfers terminate.\<close> The invocation of the is-authorized logic of a work
  package and the on-transfer invocation of a service come to an end, whatever the code, the
  arguments and the state: no program can keep the machine busy forever.
\<close>

theorem services_terminate:
  "(\<exists>r. Authorization_InvokePVM workPackage coreCode services hp = Some r) \<and>
   (\<exists>r. InvokePVMOnTransfer HashData services serviceIndex transfers hp = Some r)"
proof -
  define f where "f p e g args = the (InvokeWholeProgram p e g args is_authorized_host () ())" for p e g args
  have f: "InvokeWholeProgram p e g args is_authorized_host () () = Some (f p e g args)" for p e g args
    using InvokeWholeProgram_returns [OF is_authorized.gas_host_axioms, of p e g args "()" "()"] by (auto simp: f_def)
  define h where "h p e g args a = the (InvokeWholeProgram p e g args (on_transfer_host HashData serviceIndex services) a hp)"
    for p e g args a
  have h: "InvokeWholeProgram p e g args (on_transfer_host HashData serviceIndex services) a hp = Some (h p e g args a)"
    for p e g args a
    using InvokeWholeProgram_returns [OF on_transfer.gas_host_axioms [of HashData serviceIndex services], of p e g args a hp]
    by (auto simp: h_def)
  show ?thesis
    by (simp add: Authorization_InvokePVM_def InvokePVMOnTransfer_def Let_def f h split: option.split sum.split)
qed

text \<open>
  \<^bold>\<open>Host calls of accumulation do not add gas\<close>, unless the call is a transfer whose gas limit is
  negative or overflows as a signed number.
\<close>

theorem accumulate_host_gas:
  assumes "accumulate_host HashData accServices serviceIndex t n g rs m x = Some (g', rs', m', x', None)"
    and "0 \<le> sint g" "n = TransferID \<longrightarrow> sint (rs A2) \<in> {0..<2 ^ 63 - 10}"
  shows "sint g' \<le> sint g"
proof (cases "n = TransferID")
  case True
  then have "charges (host_cost + rs A2) g (Some (g', rs', m', x', None))"
    using assms(1) charges_Transfer [of rs g m x] by (auto simp: accumulate_host_def Let_def split: prod.splits)
  then have paid: "sint (host_cost + rs A2) \<le> sint g" "g' = g - (host_cost + rs A2)"
    by (auto simp: charges_def)
  have "sint (host_cost + rs A2) = 10 + sint (rs A2)"
    using assms(3) True sint_word_of_int64 [of "10 + sint (rs A2)"] by (simp add: host_cost_def)
  then show ?thesis
    using paid assms(3) True sint_word_of_int64 [of "sint g - sint (host_cost + rs A2)"] sint_range64 [of g] by (simp add: host_cost_def)
next
  case False
  then have "no_refund g (accumulate_host HashData accServices serviceIndex t n g rs m x)"
    by (cases x) (simp add: accumulate_host_def Let_def)
  then show ?thesis using assms(1,2) unfolding no_refund_def by blast
qed

theorem accumulate_host_gas_witness:
  "\<exists>g' rs' m' x'. accumulate_host (\<lambda>_. replicate 32 1) (Some 0) 7 5 99 100 (\<lambda>_. 0) host_memory (demo_pair, demo_heap) =
     Some (g', rs', m', x', None) \<and> sint g' \<le> 100"
proof -
  have "accumulate_host (\<lambda>_. replicate 32 1) (Some 0) 7 5 99 100 (\<lambda>_. 0) host_memory (demo_pair, demo_heap) =
      Some (90, (\<lambda>_. 0)(A0 := WHAT), host_memory, (demo_pair, demo_heap), None)"
    by (simp add: accumulate_host_def Let_def)
  then show ?thesis using accumulate_host_gas [of "\<lambda>_. replicate 32 1" "Some 0" 7 5 99 100] by fastforce
qed

text \<open>
  \<^bold>\<open>Reading undoes changes.\<close> A \<^verbatim>\<open>Lookup\<close>, \<^verbatim>\<open>Read\<close> or \<^verbatim>\<open>Info\<close> during accumulation puts the account as it was
  before accumulation back into the regular context: an upgrade, or the balance paid for a new
  service, is lost.
\<close>

theorem accumulate_reads_discard_changes:
  assumes "n \<in> {LookupID, ReadID, InfoID}" "service_of hp accServices serviceIndex = Some a"
    and "accumulate_host HashData accServices serviceIndex t n g rs m (c, hp) = Some (g', rs', m', (c', hp'), e)"
  shows "service_of hp' (ServiceState (ctx_State (RegularCtx c))) (ctx_ServiceId (RegularCtx c)) = Some a"
  using assms put_current_result by (auto simp: accumulate_host_def Let_def)

theorem accumulate_reads_discard_changes_witness:
  "let hp = demo_heap\<lparr>states := (states demo_heap)(0 := [(7, demo_account\<lparr>CodeHash := replicate 32 9\<rparr>)])\<rparr>
   in service_of hp (Some 0) 7 = Some (demo_account\<lparr>CodeHash := replicate 32 9\<rparr>) \<and>
      (\<exists>g' rs' m' c' hp'. accumulate_host (\<lambda>_. replicate 32 1) (Some 1) 7 5 InfoID 100 ((\<lambda>_. 0)(A0 := 5)) host_memory
         (demo_pair, hp) = Some (g', rs', m', (c', hp'), None) \<and>
       service_of hp' (Some 0) 7 = Some demo_account)"
proof -
  let ?hp = "demo_heap\<lparr>states := (states demo_heap)(0 := [(7, demo_account\<lparr>CodeHash := replicate 32 9\<rparr>)])\<rparr>"
  let ?rs = "(\<lambda>_. 0)(A0 := 5) :: Registers"
  have acc: "service_of ?hp (Some 1) 7 = Some demo_account"
    by (simp add: service_of_def go_map_def demo_heap_def)
  have ctx: "RegularCtx demo_pair = demo_context" "ServiceState (ctx_State demo_context) = Some 0"
    "ctx_ServiceId demo_context = 7"
    by (simp_all add: demo_pair_def demo_context_def)
  have info: "Info 100 ?rs host_memory 7 (Some 0) ?hp = Some (90, withCode ?rs NONE, host_memory, (), None)"
    by (simp add: Info_def charge_def host_cost_def service_of_def go_map_def demo_heap_def Let_def)
  obtain hp' where "set_service ?hp demo_context 7 demo_account = Some hp'"
  proof (rule set_service_defined)
    show "ServiceState (ctx_State demo_context) \<noteq> None" by (simp add: ctx)
  qed
  then have call: "accumulate_host (\<lambda>_. replicate 32 1) (Some 1) 7 5 InfoID 100 ?rs host_memory (demo_pair, ?hp) =
      Some (90, withCode ?rs NONE, host_memory, (demo_pair, hp'), None)"
    using acc info ctx by (simp add: accumulate_host_def put_current_def or_crash_def Let_def)
  show ?thesis
    using accumulate_reads_discard_changes [OF _ acc call] call ctx
    by (auto simp: Let_def service_of_def go_map_def)
qed

text \<open>
  \<^bold>\<open>Accumulation knows no other service.\<close> The context that an accumulation starts with has the
  accumulating service only, so that a transfer to any other service is refused with \<open>WHO\<close>,
  though the service exists.
\<close>

theorem accumulation_sees_one_service:
  assumes "newCtx HashData entropy t u i hp = Some ((ctx, None), hp')" "service_of hp (ServiceState u) i = Some a"
    and "ucast (rs A0) \<noteq> i" "sint (host_cost + rs A2) \<le> sint g" "Memory_Read m (rs A3) 128 = ret memo"
  shows "Transfer g rs m (\<lparr>RegularCtx = ctx, ExceptionalCtx = ctx\<rparr>, hp') =
    Some (g - (host_cost + rs A2), withCode rs WHO, m, (\<lparr>RegularCtx = ctx, ExceptionalCtx = ctx\<rparr>, hp'), None)"
  using newCtx_services [OF assms(1,2)] assms(3-5)
  by (simp add: Transfer_def charge_def or_panic_def TransferMemoSizeBytes_def Let_def)

theorem accumulation_sees_one_service_witness:
  "\<exists>ctx hp'. newCtx (\<lambda>_. replicate 32 1) (replicate 32 0) 5 (ctx_State demo_context) 7
       (demo_heap\<lparr>states := (\<lambda>_. [(7, demo_account), (8, demo_account)])\<rparr>) = Some ((ctx, None), hp') \<and>
     (\<exists>x. Transfer 100 ((\<lambda>_. 0)(A0 := 8, A3 := 131072)) host_memory (\<lparr>RegularCtx = ctx, ExceptionalCtx = ctx\<rparr>, hp') =
        Some (90, (\<lambda>_. 0)(A0 := WHO, A3 := 131072), host_memory, x, None))"
proof -
  let ?H = "\<lambda>_. replicate 32 1 :: Hash" and ?st = "[(7, demo_account), (8, demo_account)]"
  let ?hp = "demo_heap\<lparr>states := (\<lambda>_. ?st)\<rparr>"
  let ?rs = "(\<lambda>_. 0)(A0 := 8, A3 := 131072) :: Registers"
  have new: "newServiceID ?H (replicate 32 0) 5 7 = ret 16843009" by code_simp
  have "DeriveIndex 16843009 ?st = Some 16843010"
    by (simp add: DeriveIndex_def CheckIndex_unfold)
  moreover have st: "ServiceState (ctx_State demo_context) = Some 0" by (simp add: demo_context_def)
  ultimately obtain ctx hp' where ctx: "newCtx ?H (replicate 32 0) 5 (ctx_State demo_context) 7 ?hp = Some ((ctx, None), hp')"
    using new by (auto simp: newCtx_def Let_def go_map_def)
  have "service_of ?hp (ServiceState (ctx_State demo_context)) 7 = Some demo_account"
    by (simp add: st service_of_def go_map_def)
  from accumulation_sees_one_service [OF ctx this, of ?rs 100 host_memory "replicate 128 0"]
  have "Transfer 100 ?rs host_memory (\<lparr>RegularCtx = ctx, ExceptionalCtx = ctx\<rparr>, hp') =
      Some (90, withCode ?rs WHO, host_memory, (\<lparr>RegularCtx = ctx, ExceptionalCtx = ctx\<rparr>, hp'), None)"
    using host_memory_reads(2) by (simp add: host_cost_def)
  then show ?thesis using ctx by (auto simp: withCode_def fun_upd_twist)
qed

end
