(* ===== verification/Jam_Time.thy ===== *)
theory Jam_Time
  imports Service_Accounts
begin

text \<open>
  JAM time (\<^verbatim>\<open>internal/jamtime\<close>): instants, timeslots of six seconds and epochs of 600 timeslots,
  with the conversions between them. The constants are those of the regular build.
\<close>

section \<open>Go's instants\<close>

text \<open>
  A \<^verbatim>\<open>time.Time\<close> is a number of seconds since the first day of year 1, a signed 64-bit number, and
  a number of nanoseconds below \<open>10 ^ 9\<close>. \<^verbatim>\<open>Unix\<close> counts the seconds from 1970. The seconds
  saturate in \<^verbatim>\<open>Add\<close>, and wrap elsewhere. A \<^verbatim>\<open>time.Duration\<close> is a signed 64-bit number of
  nanoseconds.
\<close>

record Time =
  t_sec :: i64
  t_nsec :: nat

definition Time_zero :: Time where
  "Time_zero = \<lparr>t_sec = 0, t_nsec = 0\<rparr>"

definition time_IsZero :: "Time \<Rightarrow> bool" where
  "time_IsZero t \<longleftrightarrow> t_sec t = 0 \<and> t_nsec t = 0"

definition Unix :: "Time \<Rightarrow> i64" where
  "Unix t = t_sec t - 62135596800"

definition time_Unix :: "i64 \<Rightarrow> Time" where
  "time_Unix s = \<lparr>t_sec = s + 62135596800, t_nsec = 0\<rparr>"

definition time_Before :: "Time \<Rightarrow> Time \<Rightarrow> bool" where
  "time_Before t u \<longleftrightarrow> sint (t_sec t) < sint (t_sec u) \<or> t_sec t = t_sec u \<and> t_nsec t < t_nsec u"

definition time_After :: "Time \<Rightarrow> Time \<Rightarrow> bool" where
  "time_After t u = time_Before u t"

definition addSec :: "i64 \<Rightarrow> i64 \<Rightarrow> i64" where
  "addSec ext d =
     (let sum = ext + d in
      if (sint ext < sint sum) = (0 < sint d) then sum
      else if 0 < sint d then 9223372036854775807
      else - 9223372036854775807)"

definition time_Add :: "Time \<Rightarrow> i64 \<Rightarrow> Time" where
  "time_Add t d =
     (let dsec = go_quot (sint d) 1000000000;
          nsec = int (t_nsec t) + go_rem (sint d) 1000000000;
          (dsec, nsec) = (if 1000000000 \<le> nsec then (dsec + 1, nsec - 1000000000)
                          else if nsec < 0 then (dsec - 1, nsec + 1000000000)
                          else (dsec, nsec))
      in \<lparr>t_sec = addSec (t_sec t) (word_of_int dsec), t_nsec = nat nsec\<rparr>)"

section \<open>Constants and errors\<close>

type_synonym Epoch = u32

datatype jamtime_error =
    ErrBeforeJamEpoch | ErrAfterMaxJamTime | ErrMinEpochReached | ErrMaxEpochReached
  | ErrEpochExceedsMaxJamTime | ErrMinTimeslotReached | ErrMaxTimeslotReached | ErrTimeslotExceedsEpochLength

definition MinTimeslot :: Timeslot where "MinTimeslot = 0"
definition MaxTimeslot :: Timeslot where "MaxTimeslot = NOT 0"
definition TimeslotDuration_Seconds :: u64 where "TimeslotDuration_Seconds = 6"
definition TimeslotsPerEpoch :: nat where "TimeslotsPerEpoch = 600"
definition MinEpoch :: Epoch where "MinEpoch = 0"
definition MaxEpoch :: Epoch where "MaxEpoch = NOT 0 div of_nat TimeslotsPerEpoch"
definition EpochDuration_Seconds :: u64 where "EpochDuration_Seconds = of_nat TimeslotsPerEpoch * TimeslotDuration_Seconds"
definition TicketSubmissionTimeSlots :: u32 where "TicketSubmissionTimeSlots = 500"

text \<open>
  12:00:00 UTC on 1 January 2024, and 23:59:59.999999999 UTC on 15 August 2840.
\<close>

definition JamEpoch :: Time where
  "JamEpoch = time_Unix 1704110400"

definition MaxRepresentableJamTime :: Time where
  "MaxRepresentableJamTime = (time_Unix 27474249599)\<lparr>t_nsec := 999999999\<rparr>"

section \<open>JAM time\<close>

text \<open>
  A \<^verbatim>\<open>JamTime\<close> keeps the instant it was made from, if any: \<^verbatim>\<open>ToTime\<close> gives that one back. The
  clock is read through the variable \<^verbatim>\<open>now\<close>, here an argument.
\<close>

record JamTime =
  src :: Time
  Seconds :: u64

definition FromSeconds :: "u64 \<Rightarrow> JamTime" where
  "FromSeconds seconds = \<lparr>src = Time_zero, Seconds = seconds\<rparr>"

definition Now :: "Time \<Rightarrow> JamTime" where
  "Now now = (let t = now; seconds = Unix t - Unix JamEpoch in \<lparr>src = t, Seconds = seconds\<rparr>)"

definition FromTime :: "Time \<Rightarrow> jamtime_error + JamTime" where
  "FromTime t =
     (if time_Before t JamEpoch then Inl ErrBeforeJamEpoch
      else if t = JamEpoch then Inr (FromSeconds 0)
      else if time_After t MaxRepresentableJamTime then Inl ErrAfterMaxJamTime
      else let seconds = Unix t - Unix JamEpoch in Inr \<lparr>src = t, Seconds = seconds\<rparr>)"

definition ToTime :: "JamTime \<Rightarrow> Time" where
  "ToTime jt =
     (if time_IsZero (src jt) then let t = Unix JamEpoch + Seconds jt in time_Unix t
      else src jt)"

definition Before :: "JamTime \<Rightarrow> JamTime \<Rightarrow> bool" where
  "Before jt u \<longleftrightarrow> Seconds jt < Seconds u"

definition After :: "JamTime \<Rightarrow> JamTime \<Rightarrow> bool" where
  "After jt u \<longleftrightarrow> Seconds jt > Seconds u"

definition Equal :: "JamTime \<Rightarrow> JamTime \<Rightarrow> bool" where
  "Equal jt u \<longleftrightarrow> Seconds jt = Seconds u"

definition JamTime_Add :: "JamTime \<Rightarrow> i64 \<Rightarrow> jamtime_error + JamTime" where
  "JamTime_Add jt d =
     (let t = ToTime jt; t = time_Add t d in
      if time_After t MaxRepresentableJamTime then Inl ErrAfterMaxJamTime
      else if time_Before t JamEpoch then Inl ErrBeforeJamEpoch
      else FromTime t)"

definition JamTime_Sub :: "JamTime \<Rightarrow> JamTime \<Rightarrow> i64" where
  "JamTime_Sub jt u = (Seconds jt - Seconds u) * 1000000000"

definition JamTime_IsZero :: "JamTime \<Rightarrow> bool" where
  "JamTime_IsZero jt \<longleftrightarrow> Seconds jt = 0"

definition ToTimeslot :: "JamTime \<Rightarrow> Timeslot" where
  "ToTimeslot jt = ucast (Seconds jt div TimeslotDuration_Seconds)"

definition JamTime_ToEpoch :: "JamTime \<Rightarrow> Epoch" where
  "JamTime_ToEpoch jt = ucast (Seconds jt div EpochDuration_Seconds)"

definition ToEpochAndTimeslot :: "JamTime \<Rightarrow> Epoch \<times> Timeslot" where
  "ToEpochAndTimeslot jt =
     (let epoch = JamTime_ToEpoch jt;
          timeslotInEpoch = ucast ((Seconds jt div TimeslotDuration_Seconds) mod of_nat TimeslotsPerEpoch)
      in (epoch, timeslotInEpoch))"

definition IsInSameEpoch :: "JamTime \<Rightarrow> JamTime \<Rightarrow> bool" where
  "IsInSameEpoch jt other \<longleftrightarrow> JamTime_ToEpoch jt = JamTime_ToEpoch other"

definition ValidateJamTime :: "Time \<Rightarrow> jamtime_error option" where
  "ValidateJamTime t =
     (if time_Before t JamEpoch then Some ErrBeforeJamEpoch
      else if time_After t MaxRepresentableJamTime then Some ErrAfterMaxJamTime
      else None)"

section \<open>Timeslots\<close>

definition FromTimeslot :: "Timeslot \<Rightarrow> JamTime" where
  "FromTimeslot ts = FromSeconds (ucast ts * TimeslotDuration_Seconds)"

definition CurrentTimeslot :: "Time \<Rightarrow> Timeslot" where
  "CurrentTimeslot now = ToTimeslot (Now now)"

definition IsInFutureTimeSlot :: "Time \<Rightarrow> JamTime \<Rightarrow> bool" where
  "IsInFutureTimeSlot now jt \<longleftrightarrow> ToTimeslot jt > CurrentTimeslot now"

definition IsInFuture :: "Time \<Rightarrow> Timeslot \<Rightarrow> bool" where
  "IsInFuture now ts \<longleftrightarrow> ts > CurrentTimeslot now"

definition TimeslotStart :: "Timeslot \<Rightarrow> JamTime" where
  "TimeslotStart ts = FromTimeslot ts"

definition TimeslotEnd :: "Timeslot \<Rightarrow> jamtime_error + JamTime" where
  "TimeslotEnd ts =
     (if ts = MaxTimeslot then Inl ErrMaxTimeslotReached
      else let nextTs = ts + 1; jamTime = FromTimeslot nextTs in JamTime_Add jamTime (- 1))"

definition NextTimeslot :: "Timeslot \<Rightarrow> jamtime_error + Timeslot" where
  "NextTimeslot ts = (if ts = MaxTimeslot then Inl ErrMaxTimeslotReached else Inr (ts + 1))"

definition PreviousTimeslot :: "Timeslot \<Rightarrow> jamtime_error + Timeslot" where
  "PreviousTimeslot ts = (if ts = MinTimeslot then Inl ErrMinTimeslotReached else Inr (ts - 1))"

definition TimeslotInEpoch :: "Timeslot \<Rightarrow> u32" where
  "TimeslotInEpoch ts = ts mod of_nat TimeslotsPerEpoch"

definition IsFirstTimeslotInEpoch :: "Timeslot \<Rightarrow> bool" where
  "IsFirstTimeslotInEpoch ts \<longleftrightarrow> TimeslotInEpoch ts = 0"

definition IsLastTimeslotInEpoch :: "Timeslot \<Rightarrow> bool" where
  "IsLastTimeslotInEpoch ts \<longleftrightarrow> TimeslotInEpoch ts = of_nat TimeslotsPerEpoch - 1"

definition ToEpoch :: "Timeslot \<Rightarrow> Epoch" where
  "ToEpoch ts = ts div of_nat TimeslotsPerEpoch"

definition ValidateTimeslot :: "Timeslot \<Rightarrow> jamtime_error option" where
  "ValidateTimeslot ts = (let jamTime = FromTimeslot ts in ValidateJamTime (ToTime jamTime))"

definition IsTicketSubmissionPeriod :: "Timeslot \<Rightarrow> bool" where
  "IsTicketSubmissionPeriod ts \<longleftrightarrow> TimeslotInEpoch ts < TicketSubmissionTimeSlots"

definition IsWinningTicketMarkerPeriod :: "Timeslot \<Rightarrow> Timeslot \<Rightarrow> bool" where
  "IsWinningTicketMarkerPeriod ts previous \<longleftrightarrow>
     TimeslotInEpoch previous < TicketSubmissionTimeSlots \<and> TicketSubmissionTimeSlots \<le> TimeslotInEpoch ts"

section \<open>Epochs\<close>

definition FromEpoch :: "Epoch \<Rightarrow> JamTime" where
  "FromEpoch e = FromSeconds (ucast e * EpochDuration_Seconds)"

definition CurrentEpoch :: "Time \<Rightarrow> Epoch" where
  "CurrentEpoch now = JamTime_ToEpoch (Now now)"

definition EpochStart :: "Epoch \<Rightarrow> JamTime" where
  "EpochStart e = FromEpoch e"

definition EpochEnd :: "Epoch \<Rightarrow> jamtime_error + JamTime" where
  "EpochEnd e =
     (if e = MaxEpoch then Inr (FromTimeslot MaxTimeslot)
      else JamTime_Add (FromEpoch (e + 1)) (- 1))"

definition NextEpoch :: "Epoch \<Rightarrow> jamtime_error + Epoch" where
  "NextEpoch e = (if e = MaxEpoch then Inl ErrMaxEpochReached else Inr (e + 1))"

definition PreviousEpoch :: "Epoch \<Rightarrow> jamtime_error + Epoch" where
  "PreviousEpoch e = (if e = MinEpoch then Inl ErrMinEpochReached else Inr (e - 1))"

definition ValidateEpoch :: "Epoch \<Rightarrow> jamtime_error option" where
  "ValidateEpoch e = (if e > MaxEpoch then Some ErrEpochExceedsMaxJamTime else None)"

definition EpochAndTimeslotToJamTime :: "Epoch \<Rightarrow> Timeslot \<Rightarrow> jamtime_error + JamTime" where
  "EpochAndTimeslotToJamTime e timeslot =
     (if of_nat TimeslotsPerEpoch \<le> timeslot then Inl ErrTimeslotExceedsEpochLength
      else let epochStart = FromEpoch e in
        Inr (FromSeconds (Seconds epochStart + ucast timeslot * TimeslotDuration_Seconds)))"

section \<open>Arithmetic of the conversions\<close>

lemmas time_constants = TimeslotDuration_Seconds_def EpochDuration_Seconds_def TimeslotsPerEpoch_def
  MaxTimeslot_def MinTimeslot_def MaxEpoch_def MinEpoch_def

lemma unat_slot_seconds: "unat (ucast (ts :: u32) * 6 :: u64) = 6 * unat ts"
proof -
  have "unat ts < 2 ^ 32" by (rule unat_below) simp
  then show ?thesis by (simp add: unat_word_ariths unat_ucast_below)
qed

lemma unat_epoch_seconds:
  assumes "(s :: u32) < 600"
  shows "unat (ucast (e :: u32) * 3600 + ucast s * 6 :: u64) = 3600 * unat e + 6 * unat s"
proof -
  have "unat e < 2 ^ 32" by (rule unat_below) simp
  moreover have "unat s < 600" using assms by (simp add: word_less_nat_alt)
  ultimately show ?thesis by (simp add: unat_word_ariths unat_ucast_below)
qed

lemma ToTimeslot_FromTimeslot: "ToTimeslot (FromTimeslot ts) = ts"
proof -
  have "unat ts < 2 ^ 32" by (rule unat_below) simp
  then show ?thesis
    by (simp add: ToTimeslot_def FromTimeslot_def FromSeconds_def TimeslotDuration_Seconds_def word_unat_eq_iff
        unat_ucast_below unat_div unat_slot_seconds)
qed


lemma ucast_timeslot_split:
  "unat (ToEpoch ts) = unat ts div 600" "unat (TimeslotInEpoch ts) = unat ts mod 600"
  by (simp_all add: ToEpoch_def TimeslotInEpoch_def TimeslotsPerEpoch_def unat_div unat_mod)

lemma Seconds_FromTimeslot: "unat (Seconds (FromTimeslot ts)) = 6 * unat ts"
  by (simp add: FromTimeslot_def FromSeconds_def TimeslotDuration_Seconds_def unat_slot_seconds)

lemma JamEpoch_simps: "t_sec JamEpoch = 63839707200" "t_nsec JamEpoch = 0" "Unix JamEpoch = 1704110400"
  by (simp_all add: JamEpoch_def time_Unix_def Unix_def)

lemma Max_simps: "t_sec MaxRepresentableJamTime = 89609846399" "t_nsec MaxRepresentableJamTime = 999999999"
  by (simp_all add: MaxRepresentableJamTime_def time_Unix_def)

text \<open>Instants of the JAM Common Era, by their distance to its start.\<close>

definition era :: "nat \<Rightarrow> nat \<Rightarrow> Time" where
  "era s n = \<lparr>t_sec = 63839707200 + of_nat s, t_nsec = n\<rparr>"

lemma sint_era: "s < 2 ^ 62 \<Longrightarrow> sint (t_sec (era s n)) = 63839707200 + int s"
proof -
  assume s: "s < 2 ^ 62"
  then have "unat (63839707200 + of_nat s :: u64) = 63839707200 + s"
    by (simp add: unat_word_ariths unat_of_nat_small)
  then show ?thesis using s by (simp add: era_def sint_small)
qed

lemma sint_bounds_time: "sint (t_sec JamEpoch) = 63839707200" "sint (t_sec MaxRepresentableJamTime) = 89609846399"
  by (simp_all add: JamEpoch_simps Max_simps)

lemma t_nsec_era [simp]: "t_nsec (era s n) = n"
  by (simp add: era_def)

lemma era_not_before: "s < 2 ^ 62 \<Longrightarrow> \<not> time_Before (era s n) JamEpoch"
  by (simp add: time_Before_def sint_era sint_bounds_time JamEpoch_simps)

lemma era_not_after:
  assumes "s \<le> 25770139199" "n < 1000000000"
  shows "\<not> time_After (era s n) MaxRepresentableJamTime"
  using assms by (auto simp: time_After_def time_Before_def sint_era sint_bounds_time Max_simps)

lemma Unix_era: "Unix (era s n) - Unix JamEpoch = of_nat s"
  by (simp add: Unix_def JamEpoch_simps era_def)

lemma FromTime_era:
  assumes "s \<le> 25770139199" "n < 1000000000"
  shows "\<exists>jt. FromTime (era s n) = Inr jt \<and> Seconds jt = of_nat s \<and> ToTime jt = era s n"
proof (cases "era s n = JamEpoch")
  case True
  then have "of_nat s = (0 :: u64)" using Unix_era [of s n] by simp
  then show ?thesis
    using True era_not_before [of s n] assms
    by (simp add: FromTime_def FromSeconds_def ToTime_def time_IsZero_def Time_zero_def JamEpoch_def JamEpoch_simps Unix_def time_Unix_def)
next
  case False
  have "sint (t_sec (era s n)) \<noteq> sint (0 :: i64)" using assms by (simp add: sint_era)
  then have "\<not> time_IsZero (era s n)" by (auto simp: time_IsZero_def)
  then show ?thesis
    using False era_not_before [of s n] era_not_after [OF assms] assms
    by (simp add: FromTime_def Unix_era ToTime_def Let_def)
qed

lemma ToTime_FromSeconds: "ToTime (FromSeconds s) = era (unat s) 0"
  by (simp add: ToTime_def FromSeconds_def Time_zero_def time_IsZero_def time_Unix_def JamEpoch_simps era_def Let_def)

lemma ToTime_FromTimeslot: "ToTime (FromTimeslot ts) = era (6 * unat ts) 0"
  using Seconds_FromTimeslot [of ts] by (simp add: FromTimeslot_def ToTime_FromSeconds) (simp add: FromSeconds_def)

lemma unat_MaxTimeslot: "unat MaxTimeslot = 4294967295"
proof -
  have max: "MaxTimeslot = 4294967295" by (simp add: MaxTimeslot_def)
  show ?thesis unfolding max by simp
qed

lemma time_Add_minus_one:
  assumes "s < 2 ^ 61"
  shows "time_Add (era (Suc s) 0) (- 1) = era s 999999999" "time_Add (era s 999999999) 1 = era (Suc s) 0"
proof -
  have "sint (t_sec (era s 0)) < sint (t_sec (era (Suc s) 0))" "sint (63839707200 + (1 + of_nat s) :: i64) = 63839707201 + int s"
    "sint (63839707200 + of_nat s :: i64) = 63839707200 + int s"
    using sint_era [of "Suc s" 0] sint_era [of s 0] assms by (simp_all add: sint_era era_def algebra_simps)
  then show "time_Add (era (Suc s) 0) (- 1) = era s 999999999" "time_Add (era s 999999999) 1 = era (Suc s) 0"
    by (simp_all add: time_Add_def Let_def go_quot_def go_rem_def era_def addSec_def algebra_simps)
qed

section \<open>Properties\<close>

text \<open>
  \<^bold>\<open>The conversions between timeslots, epochs and instants are inverse to each other.\<close> A
  timeslot is the epoch it lies in and its place there; its start is an instant that converts back
  to it; and an epoch with a place below 600 gives a time that splits into them again, also for
  epochs beyond the last one.
\<close>

theorem time_conversions:
  "ToTimeslot (FromTimeslot ts) = ts \<and>
   (\<exists>jt. FromTime (ToTime (FromTimeslot ts)) = Inr jt \<and> Equal jt (FromTimeslot ts)) \<and>
   ToEpochAndTimeslot (FromTimeslot ts) = (ToEpoch ts, TimeslotInEpoch ts) \<and>
   (s < 600 \<longrightarrow> (\<exists>jt. EpochAndTimeslotToJamTime e s = Inr jt \<and> ToEpochAndTimeslot jt = (e, s)))"
proof (intro conjI impI)
  have ts: "unat ts < 2 ^ 32" by (rule unat_below) simp
  show "ToTimeslot (FromTimeslot ts) = ts" by (rule ToTimeslot_FromTimeslot)
  show "\<exists>jt. FromTime (ToTime (FromTimeslot ts)) = Inr jt \<and> Equal jt (FromTimeslot ts)"
    unfolding ToTime_FromTimeslot using FromTime_era [of "6 * unat ts" 0] ts
    by (auto simp: Equal_def FromTimeslot_def FromSeconds_def TimeslotDuration_Seconds_def)
  show "ToEpochAndTimeslot (FromTimeslot ts) = (ToEpoch ts, TimeslotInEpoch ts)"
    using ts div_mult2_eq [of "unat ts * 6" 6 600]
    by (simp add: ToEpochAndTimeslot_def Let_def JamTime_ToEpoch_def EpochDuration_Seconds_def TimeslotsPerEpoch_def
        TimeslotDuration_Seconds_def word_unat_eq_iff unat_ucast_below unat_div unat_mod Seconds_FromTimeslot ucast_timeslot_split
        mult.commute less_imp_diff_less)
next
  assume s: "s < 600"
  have u: "unat e < 2 ^ 32" "unat s < 600"
    using s unat_below [of 32 e] by (simp_all add: word_less_nat_alt)
  have "EpochAndTimeslotToJamTime e s = Inr (FromSeconds (ucast e * 3600 + ucast s * 6))"
    using s by (simp add: EpochAndTimeslotToJamTime_def FromEpoch_def FromSeconds_def EpochDuration_Seconds_def
        TimeslotsPerEpoch_def TimeslotDuration_Seconds_def not_le Let_def)
  moreover have "ToEpochAndTimeslot (FromSeconds (ucast e * 3600 + ucast s * 6)) = (e, s)"
    using u s by (simp add: ToEpochAndTimeslot_def Let_def JamTime_ToEpoch_def EpochDuration_Seconds_def TimeslotsPerEpoch_def
        TimeslotDuration_Seconds_def word_unat_eq_iff unat_ucast_below unat_div unat_mod unat_epoch_seconds FromSeconds_def)
  ultimately show "\<exists>jt. EpochAndTimeslotToJamTime e s = Inr jt \<and> ToEpochAndTimeslot jt = (e, s)" by blast
qed

theorem time_conversions_witness: "\<exists>jt. EpochAndTimeslotToJamTime 3 599 = Inr jt \<and> ToEpochAndTimeslot jt = (3, 599)"
  using time_conversions [of 0 599 3] by simp

text \<open>
  \<^bold>\<open>A timeslot ends one nanosecond before the next one starts\<close>, still belongs to itself at
  that instant, and the last timeslot has no end.
\<close>

theorem TimeslotEnd_spec:
  "(case TimeslotEnd ts of
      Inl err \<Rightarrow> ts = MaxTimeslot \<and> err = ErrMaxTimeslotReached
    | Inr jt \<Rightarrow> ts \<noteq> MaxTimeslot \<and> ToTimeslot jt = ts \<and> time_Add (ToTime jt) 1 = ToTime (TimeslotStart (ts + 1)))"
proof (cases "ts = MaxTimeslot")
  case True
  then show ?thesis by (simp add: TimeslotEnd_def)
next
  case False
  then have "unat ts \<noteq> 4294967295" by (auto simp: word_unat_eq_iff unat_MaxTimeslot)
  moreover have ts: "unat ts < 2 ^ 32" by (rule unat_below) simp
  ultimately have succ: "unat (ts + 1) = Suc (unat ts)" by (simp add: unat_word_ariths)
  define k where "k = 6 * unat ts + 5"
  have k: "k < 25769803776" using ts by (simp add: k_def)
  have start: "ToTime (FromTimeslot (ts + 1)) = era (Suc k) 0"
    by (simp add: ToTime_FromTimeslot succ k_def)
  obtain jt where jt: "FromTime (era k 999999999) = Inr jt" "Seconds jt = of_nat k" "ToTime jt = era k 999999999"
    using FromTime_era [of k 999999999] k by auto
  have "TimeslotEnd ts = Inr jt"
    using False start time_Add_minus_one(1) [of k] era_not_after [of k 999999999] era_not_before [of k 999999999] jt(1) k
    by (simp add: TimeslotEnd_def Let_def JamTime_Add_def)
  moreover have "ToTimeslot jt = ts"
    using jt(2) k ts by (simp add: ToTimeslot_def TimeslotDuration_Seconds_def word_unat_eq_iff unat_ucast_below unat_div
        unat_of_nat_small) (simp add: k_def)
  ultimately show ?thesis
    using False jt(3) start time_Add_minus_one(2) [of k] k by (simp add: TimeslotStart_def)
qed

text \<open>
  The latest instant that is accepted lies days after the last timeslot: an instant within that
  gap is valid, but its timeslot wraps around to the first one.
\<close>

theorem late_times_wrap:
  "\<exists>t jt. ValidateJamTime t = None \<and> FromTime t = Inr jt \<and> Seconds jt = 25769803776 \<and>
     ToTimeslot jt = MinTimeslot \<and> Before (FromTimeslot MaxTimeslot) jt"
proof -
  obtain jt where jt: "FromTime (era 25769803776 0) = Inr jt" "Seconds jt = 25769803776"
    using FromTime_era [of 25769803776 0] by auto
  have "ValidateJamTime (era 25769803776 0) = None"
    using era_not_before [of 25769803776 0] era_not_after [of 25769803776 0] by (simp add: ValidateJamTime_def)
  moreover have "ToTimeslot jt = MinTimeslot"
    by (simp add: ToTimeslot_def jt(2) TimeslotDuration_Seconds_def MinTimeslot_def)
  moreover have "Before (FromTimeslot MaxTimeslot) jt"
    by (simp add: Before_def jt(2) word_less_nat_alt Seconds_FromTimeslot unat_MaxTimeslot)
  ultimately show ?thesis using jt by blast
qed

end
