(* ===== verification/Blocks.thy ===== *)
theory Blocks
  imports Host_Invocations Jam_Time
begin

text \<open>
  Blocks (\<^verbatim>\<open>internal/block\<close>): the header, the five extrinsics, work reports, and their encodings. The
  constants are those of the regular build (\<^verbatim>\<open>internal/common/constants.go\<close>).
\<close>

section \<open>The structures\<close>

definition ValidatorsSuperMajority :: nat where
  "ValidatorsSuperMajority = 2 * NumberOfValidators div 3 + 1"
definition AvailabilityThreshold :: nat where
  "AvailabilityThreshold = 2 * NumberOfValidators div 3"
definition MaxWorkPackageSizeBytes :: nat where "MaxWorkPackageSizeBytes = 48 * 1024"
definition AvailBitfieldBytes :: nat where "AvailBitfieldBytes = (TotalNumberOfCores + 7) div 8"
definition ticketProofSize :: nat where "ticketProofSize = 784"

text \<open>
  A dictionary of a work report is never assigned to: it is its list of entries, with distinct
  keys. The two extrinsics that are structures of one slice are that slice.
\<close>

record WorkPackageSpecification =
  spec_WorkPackageHash :: Hash
  AuditableWorkBundleLength :: u32
  ErasureRoot :: Hash
  SegmentRoot :: Hash
  SegmentCount :: u16

record WorkResult =
  res_ServiceId :: ServiceId
  ServiceHashCode :: Hash
  res_PayloadHash :: Hash
  GasPrioritizationRatio :: u64
  res_Output :: WorkResultOutputOrError

record WorkReport =
  Specification :: WorkPackageSpecification
  rep_Context :: RefinementContext
  CoreIndex :: u16
  AuthorizerHash :: Hash
  rep_Output :: bytes
  SegmentRootLookup :: "(Hash \<times> Hash) list"
  WorkResults :: "WorkResult list"

record CredentialSignature =
  cred_ValidatorIndex :: u16
  cred_Signature :: bytes

record Guarantee =
  g_WorkReport :: WorkReport
  g_Timeslot :: Timeslot
  Credentials :: "CredentialSignature list"

record Assurance =
  Anchor :: Hash
  Bitfield :: bytes
  a_ValidatorIndex :: u16
  a_Signature :: bytes

record Judgement =
  j_IsValid :: bool
  j_ValidatorIndex :: u16
  j_Signature :: bytes

record Verdict =
  v_ReportHash :: Hash
  EpochIndex :: u32
  v_Judgements :: "Judgement list"

record Culprit =
  c_ReportHash :: Hash
  c_ValidatorEd25519PublicKey :: bytes
  c_Signature :: bytes

record Fault =
  f_ReportHash :: Hash
  f_IsValid :: bool
  f_ValidatorEd25519PublicKey :: bytes
  f_Signature :: bytes

record DisputeExtrinsic =
  Verdicts :: "Verdict list"
  Culprits :: "Culprit list"
  Faults :: "Fault list"

record Ticket =
  Identifier :: Hash
  EntryIndex :: u8

record TicketProof =
  tp_EntryIndex :: u8
  tp_Proof :: bytes

record Preimage =
  ServiceIndex :: u32
  pre_Data :: bytes

record EpochMarker =
  em_Entropy :: Hash
  TicketsEntropy :: Hash
  em_Keys :: "bytes list"

record Header =
  ParentHash :: Hash
  PriorStateRoot :: Hash
  ExtrinsicHash :: Hash
  TimeSlotIndex :: Timeslot
  hdr_EpochMarker :: "EpochMarker option"
  WinningTicketsMarker :: "Ticket list option"
  OffendersMarkers :: "bytes list"
  BlockAuthorIndex :: u16
  VRFSignature :: bytes
  BlockSealSignature :: bytes

record BlockExtrinsic =
  ET :: "TicketProof list"
  EP :: "Preimage list"
  EG :: "Guarantee list"
  EA :: "Assurance list"
  ED :: DisputeExtrinsic

record Block =
  blk_Header :: Header
  blk_Extrinsic :: BlockExtrinsic

section \<open>Assurances, judgements, results\<close>

text \<open>
  A bit field is an array of \<^verbatim>\<open>AvailBitfieldBytes\<close> octets: a core index beyond them would be a
  run-time panic, \<open>None\<close>.
\<close>

definition HasAssuranceForCore :: "Assurance \<Rightarrow> u16 \<Rightarrow> bool option" where
  "HasAssuranceForCore a coreIndex =
     (let byteIndex = coreIndex div 8; bitIndex = coreIndex mod 8 in
      map_option (\<lambda>b. b AND shl 1 (unat bitIndex) \<noteq> 0) (go_index (Bitfield a) (unat byteIndex)))"

definition CountPositiveJudgments :: "Judgement list \<Rightarrow> nat" where
  "CountPositiveJudgments judgments = foldl (\<lambda>count j. if j_IsValid j then count + 1 else count) 0 judgments"

definition IsSuccessful :: "WorkResult \<Rightarrow> bool" where
  "IsSuccessful r = (case res_Output r of Output b \<Rightarrow> True | WorkResultError e \<Rightarrow> False)"

definition NewSuccessfulWorkResult :: "ServiceId \<Rightarrow> Hash \<Rightarrow> Hash \<Rightarrow> u64 \<Rightarrow> bytes \<Rightarrow> WorkResult" where
  "NewSuccessfulWorkResult serviceId serviceHashCode payloadHash gasPrioritizationRatio output =
     \<lparr>res_ServiceId = serviceId, ServiceHashCode = serviceHashCode, res_PayloadHash = payloadHash,
      GasPrioritizationRatio = gasPrioritizationRatio, res_Output = Output output\<rparr>"

definition NewErrorWorkResult :: "ServiceId \<Rightarrow> Hash \<Rightarrow> Hash \<Rightarrow> u64 \<Rightarrow> u8 \<Rightarrow> WorkResult" where
  "NewErrorWorkResult serviceId serviceHashCode payloadHash gasPrioritizationRatio errorResult =
     \<lparr>res_ServiceId = serviceId, ServiceHashCode = serviceHashCode, res_PayloadHash = payloadHash,
      GasPrioritizationRatio = gasPrioritizationRatio, res_Output = WorkResultError errorResult\<rparr>"

text \<open>Sizes are of type \<^verbatim>\<open>int\<close>, far below its range.\<close>

definition OutputSizeIsValid :: "WorkReport \<Rightarrow> bool" where
  "OutputSizeIsValid w =
     (let totalOutputSize = foldl (\<lambda>total r. case res_Output r of Output b \<Rightarrow> total + length b | WorkResultError e \<Rightarrow> total)
            0 (WorkResults w);
          totalOutputSize = totalOutputSize + length (rep_Output w)
      in totalOutputSize \<le> MaxWorkPackageSizeBytes)"

section \<open>Types and values of the codec\<close>

abbreviation octets_type :: "nat \<Rightarrow> jtype" where
  "octets_type n \<equiv> TArray n (TPrim KUint8)"

abbreviation uint_value :: "'a::len word \<Rightarrow> jval" where
  "uint_value x \<equiv> VUint (ucast x)"

definition WorkResultOutput_type :: jtype where
  "WorkResultOutput_type = TEnum [(0, Some TBytes), (1, None), (2, None), (3, None), (4, None)]"

definition WorkResultOutput_value :: "WorkResultOutputOrError \<Rightarrow> jval" where
  "WorkResultOutput_value r = (case r of Output b \<Rightarrow> VEnum 0 (Some (VBytes b)) | WorkResultError e \<Rightarrow> VEnum e None)"

definition WorkPackageSpecification_type :: jtype where
  "WorkPackageSpecification_type = struct_type [hash_type, TPrim KUint32, hash_type, hash_type, TPrim KUint16]"

definition WorkPackageSpecification_value :: "WorkPackageSpecification \<Rightarrow> jval" where
  "WorkPackageSpecification_value s = VStruct [hash_value (spec_WorkPackageHash s),
     uint_value (AuditableWorkBundleLength s), hash_value (ErasureRoot s), hash_value (SegmentRoot s),
     uint_value (SegmentCount s)]"

definition WorkResult_type :: jtype where
  "WorkResult_type = struct_type [TNamed KUint32, hash_type, hash_type, TPrim KUint64, WorkResultOutput_type]"

definition WorkResult_value :: "WorkResult \<Rightarrow> jval" where
  "WorkResult_value r = VStruct [uint_value (res_ServiceId r), hash_value (ServiceHashCode r),
     hash_value (res_PayloadHash r), VUint (GasPrioritizationRatio r), WorkResultOutput_value (res_Output r)]"

definition WorkReport_type :: jtype where
  "WorkReport_type = struct_type [WorkPackageSpecification_type, RefinementContext_type, TPrim KUint16, hash_type,
     TBytes, TMap hash_type hash_type, TSlice WorkResult_type]"

definition WorkReport_value :: "WorkReport \<Rightarrow> jval" where
  "WorkReport_value w = VStruct [WorkPackageSpecification_value (Specification w),
     RefinementContext_value (rep_Context w), uint_value (CoreIndex w), hash_value (AuthorizerHash w),
     VBytes (rep_Output w), VMap (map (\<lambda>(k, v). (hash_value k, hash_value v)) (SegmentRootLookup w)),
     VList (map WorkResult_value (WorkResults w))]"

definition Guarantee_type :: jtype where
  "Guarantee_type = struct_type [WorkReport_type, TNamed KUint32, TSlice (struct_type [TPrim KUint16, octets_type 64])]"

definition Guarantee_value :: "Guarantee \<Rightarrow> jval" where
  "Guarantee_value g = VStruct [WorkReport_value (g_WorkReport g), uint_value (g_Timeslot g),
     VList (map (\<lambda>c. VStruct [uint_value (cred_ValidatorIndex c), hash_value (cred_Signature c)]) (Credentials g))]"

definition Assurance_type :: jtype where
  "Assurance_type = struct_type [hash_type, octets_type AvailBitfieldBytes, TPrim KUint16, octets_type 64]"

definition Assurance_value :: "Assurance \<Rightarrow> jval" where
  "Assurance_value a = VStruct [hash_value (Anchor a), hash_value (Bitfield a), uint_value (a_ValidatorIndex a),
     hash_value (a_Signature a)]"

definition Verdict_type :: jtype where
  "Verdict_type = struct_type [hash_type, TPrim KUint32,
     TArray ValidatorsSuperMajority (struct_type [TPrim KBool, TPrim KUint16, octets_type 64])]"

definition Verdict_value :: "Verdict \<Rightarrow> jval" where
  "Verdict_value v = VStruct [hash_value (v_ReportHash v), uint_value (EpochIndex v),
     VList (map (\<lambda>j. VStruct [VBool (j_IsValid j), uint_value (j_ValidatorIndex j), hash_value (j_Signature j)]) (v_Judgements v))]"

definition DisputeExtrinsic_type :: jtype where
  "DisputeExtrinsic_type = struct_type [TSlice Verdict_type,
     TSlice (struct_type [hash_type, TEd25519PublicKey, octets_type 64]),
     TSlice (struct_type [hash_type, TPrim KBool, TEd25519PublicKey, octets_type 64])]"

definition DisputeExtrinsic_value :: "DisputeExtrinsic \<Rightarrow> jval" where
  "DisputeExtrinsic_value d = VStruct [VList (map Verdict_value (Verdicts d)),
     VList (map (\<lambda>c. VStruct [hash_value (c_ReportHash c), VBytes (c_ValidatorEd25519PublicKey c), hash_value (c_Signature c)])
       (Culprits d)),
     VList (map (\<lambda>f. VStruct [hash_value (f_ReportHash f), VBool (f_IsValid f), VBytes (f_ValidatorEd25519PublicKey f),
       hash_value (f_Signature f)]) (Faults d))]"

definition Ticket_type :: jtype where
  "Ticket_type = struct_type [hash_type, TPrim KUint8]"

definition Ticket_value :: "Ticket \<Rightarrow> jval" where
  "Ticket_value t = VStruct [hash_value (Identifier t), uint_value (EntryIndex t)]"

definition EpochMarker_type :: jtype where
  "EpochMarker_type = struct_type [hash_type, hash_type, TArray NumberOfValidators hash_type]"

definition EpochMarker_value :: "EpochMarker \<Rightarrow> jval" where
  "EpochMarker_value m = VStruct [hash_value (em_Entropy m), hash_value (TicketsEntropy m), VList (map hash_value (em_Keys m))]"

definition Header_type :: jtype where
  "Header_type = struct_type [hash_type, hash_type, hash_type, TNamed KUint32, TPtr EpochMarker_type,
     TPtr (TArray TimeslotsPerEpoch Ticket_type), TSlice TEd25519PublicKey, TPrim KUint16, octets_type 96, octets_type 96]"

definition Header_value :: "Header \<Rightarrow> jval" where
  "Header_value h = VStruct [hash_value (ParentHash h), hash_value (PriorStateRoot h), hash_value (ExtrinsicHash h),
     uint_value (TimeSlotIndex h), VPtr (map_option EpochMarker_value (hdr_EpochMarker h)),
     VPtr (map_option (\<lambda>ts. VList (map Ticket_value ts)) (WinningTicketsMarker h)),
     VList (map VBytes (OffendersMarkers h)), uint_value (BlockAuthorIndex h), hash_value (VRFSignature h),
     hash_value (BlockSealSignature h)]"

definition BlockExtrinsic_type :: jtype where
  "BlockExtrinsic_type = struct_type [
     struct_type [TSlice (struct_type [TPrim KUint8, octets_type ticketProofSize])],
     TSlice (struct_type [TPrim KUint32, TBytes]),
     struct_type [TSlice Guarantee_type], TSlice Assurance_type, DisputeExtrinsic_type]"

definition BlockExtrinsic_value :: "BlockExtrinsic \<Rightarrow> jval" where
  "BlockExtrinsic_value e = VStruct [
     VStruct [VList (map (\<lambda>t. VStruct [uint_value (tp_EntryIndex t), hash_value (tp_Proof t)]) (ET e))],
     VList (map (\<lambda>p. VStruct [uint_value (ServiceIndex p), VBytes (pre_Data p)]) (EP e)),
     VStruct [VList (map Guarantee_value (EG e))], VList (map Assurance_value (EA e)), DisputeExtrinsic_value (ED e)]"

definition Block_type :: jtype where
  "Block_type = struct_type [Header_type, BlockExtrinsic_type]"

definition Block_value :: "Block \<Rightarrow> jval" where
  "Block_value b = VStruct [Header_value (blk_Header b), BlockExtrinsic_value (blk_Extrinsic b)]"

section \<open>Values read back\<close>

text \<open>
  What \<^verbatim>\<open>jam.Unmarshal\<close> stores into a structure, read off the value of its type. The defaults are
  never met: a decoded value has the shape of its type.
\<close>

definition fld :: "jval \<Rightarrow> nat \<Rightarrow> jval" where
  "fld v i = (case v of VStruct vs \<Rightarrow> vs ! i | _ \<Rightarrow> VOpaque)"

definition as_uint :: "jval \<Rightarrow> 'a::len word" where
  "as_uint v = (case v of VUint x \<Rightarrow> ucast x | _ \<Rightarrow> 0)"

definition as_bool :: "jval \<Rightarrow> bool" where
  "as_bool v = (case v of VBool b \<Rightarrow> b | _ \<Rightarrow> False)"

definition as_bytes :: "jval \<Rightarrow> bytes" where
  "as_bytes v = (case v of VBytes b \<Rightarrow> b | _ \<Rightarrow> [])"

definition as_list :: "(jval \<Rightarrow> 'a) \<Rightarrow> jval \<Rightarrow> 'a list" where
  "as_list f v = (case v of VList vs \<Rightarrow> map f vs | _ \<Rightarrow> [])"

abbreviation as_hash :: "jval \<Rightarrow> bytes" where
  "as_hash \<equiv> as_list as_uint"

definition as_ptr :: "(jval \<Rightarrow> 'a) \<Rightarrow> jval \<Rightarrow> 'a option" where
  "as_ptr f v = (case v of VPtr p \<Rightarrow> map_option f p | _ \<Rightarrow> None)"

definition as_map :: "(jval \<Rightarrow> 'a) \<Rightarrow> (jval \<Rightarrow> 'b) \<Rightarrow> jval \<Rightarrow> ('a \<times> 'b) list" where
  "as_map f g v = (case v of VMap kvs \<Rightarrow> map (\<lambda>(k, w). (f k, g w)) kvs | _ \<Rightarrow> [])"

definition as_output :: "jval \<Rightarrow> WorkResultOutputOrError" where
  "as_output v = (case v of VEnum i (Some w) \<Rightarrow> Output (as_bytes w) | VEnum i None \<Rightarrow> WorkResultError i | _ \<Rightarrow> WorkResultError 0)"

definition as_context :: "jval \<Rightarrow> RefinementContext" where
  "as_context v = \<lparr>anchor_HeaderHash = as_hash (fld (fld v 0) 0), PosteriorStateRoot = as_hash (fld (fld v 0) 1),
     PosteriorBeefyRoot = as_hash (fld (fld v 0) 2), lookup_HeaderHash = as_hash (fld (fld v 1) 0),
     lookup_Timeslot = as_uint (fld (fld v 1) 1), PrerequisiteWorkPackage = as_list as_hash (fld v 2)\<rparr>"

definition as_specification :: "jval \<Rightarrow> WorkPackageSpecification" where
  "as_specification v = \<lparr>spec_WorkPackageHash = as_hash (fld v 0), AuditableWorkBundleLength = as_uint (fld v 1),
     ErasureRoot = as_hash (fld v 2), SegmentRoot = as_hash (fld v 3), SegmentCount = as_uint (fld v 4)\<rparr>"

definition as_result :: "jval \<Rightarrow> WorkResult" where
  "as_result v = \<lparr>res_ServiceId = as_uint (fld v 0), ServiceHashCode = as_hash (fld v 1),
     res_PayloadHash = as_hash (fld v 2), GasPrioritizationRatio = as_uint (fld v 3), res_Output = as_output (fld v 4)\<rparr>"

definition as_report :: "jval \<Rightarrow> WorkReport" where
  "as_report v = \<lparr>Specification = as_specification (fld v 0), rep_Context = as_context (fld v 1),
     CoreIndex = as_uint (fld v 2), AuthorizerHash = as_hash (fld v 3), rep_Output = as_bytes (fld v 4),
     SegmentRootLookup = as_map as_hash as_hash (fld v 5), WorkResults = as_list as_result (fld v 6)\<rparr>"

definition as_guarantee :: "jval \<Rightarrow> Guarantee" where
  "as_guarantee v = \<lparr>g_WorkReport = as_report (fld v 0), g_Timeslot = as_uint (fld v 1), Credentials =
     as_list (\<lambda>c. \<lparr>cred_ValidatorIndex = as_uint (fld c 0), cred_Signature = as_hash (fld c 1)\<rparr>) (fld v 2)\<rparr>"

definition as_assurance :: "jval \<Rightarrow> Assurance" where
  "as_assurance v = \<lparr>Anchor = as_hash (fld v 0), Bitfield = as_hash (fld v 1), a_ValidatorIndex = as_uint (fld v 2),
     a_Signature = as_hash (fld v 3)\<rparr>"

definition as_verdict :: "jval \<Rightarrow> Verdict" where
  "as_verdict v = \<lparr>v_ReportHash = as_hash (fld v 0), EpochIndex = as_uint (fld v 1), v_Judgements =
     as_list (\<lambda>j. \<lparr>j_IsValid = as_bool (fld j 0), j_ValidatorIndex = as_uint (fld j 1), j_Signature = as_hash (fld j 2)\<rparr>)
       (fld v 2)\<rparr>"

definition as_disputes :: "jval \<Rightarrow> DisputeExtrinsic" where
  "as_disputes v = \<lparr>Verdicts = as_list as_verdict (fld v 0),
     Culprits = as_list (\<lambda>c. \<lparr>c_ReportHash = as_hash (fld c 0), c_ValidatorEd25519PublicKey = as_bytes (fld c 1),
       c_Signature = as_hash (fld c 2)\<rparr>) (fld v 1),
     Faults = as_list (\<lambda>f. \<lparr>f_ReportHash = as_hash (fld f 0), f_IsValid = as_bool (fld f 1),
       f_ValidatorEd25519PublicKey = as_bytes (fld f 2), f_Signature = as_hash (fld f 3)\<rparr>) (fld v 2)\<rparr>"

definition as_ticket :: "jval \<Rightarrow> Ticket" where
  "as_ticket v = \<lparr>Identifier = as_hash (fld v 0), EntryIndex = as_uint (fld v 1)\<rparr>"

definition as_epoch_marker :: "jval \<Rightarrow> EpochMarker" where
  "as_epoch_marker v = \<lparr>em_Entropy = as_hash (fld v 0), TicketsEntropy = as_hash (fld v 1),
     em_Keys = as_list as_hash (fld v 2)\<rparr>"

definition as_header :: "jval \<Rightarrow> Header" where
  "as_header v = \<lparr>ParentHash = as_hash (fld v 0), PriorStateRoot = as_hash (fld v 1), ExtrinsicHash = as_hash (fld v 2),
     TimeSlotIndex = as_uint (fld v 3), hdr_EpochMarker = as_ptr as_epoch_marker (fld v 4),
     WinningTicketsMarker = as_ptr (as_list as_ticket) (fld v 5), OffendersMarkers = as_list as_bytes (fld v 6),
     BlockAuthorIndex = as_uint (fld v 7), VRFSignature = as_hash (fld v 8), BlockSealSignature = as_hash (fld v 9)\<rparr>"

definition as_extrinsic :: "jval \<Rightarrow> BlockExtrinsic" where
  "as_extrinsic v = \<lparr>
     ET = as_list (\<lambda>t. \<lparr>tp_EntryIndex = as_uint (fld t 0), tp_Proof = as_hash (fld t 1)\<rparr>) (fld (fld v 0) 0),
     EP = as_list (\<lambda>p. \<lparr>ServiceIndex = as_uint (fld p 0), pre_Data = as_bytes (fld p 1)\<rparr>) (fld v 1),
     EG = as_list as_guarantee (fld (fld v 2) 0), EA = as_list as_assurance (fld v 3), ED = as_disputes (fld v 4)\<rparr>"

definition as_block :: "jval \<Rightarrow> Block" where
  "as_block v = \<lparr>blk_Header = as_header (fld v 0), blk_Extrinsic = as_extrinsic (fld v 1)\<rparr>"

section \<open>Encodings and hashes\<close>

definition zero_octets :: "nat \<Rightarrow> bytes" where
  "zero_octets n = replicate n 0"

lemma length_zero_octets [simp]: "length (zero_octets n) = n"
  by (simp add: zero_octets_def)

definition Header_zero :: Header where
  "Header_zero = \<lparr>ParentHash = zero_octets 32, PriorStateRoot = zero_octets 32, ExtrinsicHash = zero_octets 32,
     TimeSlotIndex = 0, hdr_EpochMarker = None, WinningTicketsMarker = None, OffendersMarkers = [], BlockAuthorIndex = 0,
     VRFSignature = zero_octets 96, BlockSealSignature = zero_octets 96\<rparr>"

definition Block_zero :: Block where
  "Block_zero = \<lparr>blk_Header = Header_zero, blk_Extrinsic = \<lparr>ET = [], EP = [], EG = [], EA = [],
     ED = \<lparr>Verdicts = [], Culprits = [], Faults = []\<rparr>\<rparr>\<rparr>"

definition Header_Bytes :: "Header \<Rightarrow> bytes jam_result" where
  "Header_Bytes h = Marshal (stack_depth Header_type) Header_type (Header_value h)"

definition Header_Hash :: "(bytes \<Rightarrow> Hash) \<Rightarrow> Header \<Rightarrow> Hash jam_result" where
  "Header_Hash HashData h =
     res_bind (Marshal (stack_depth Header_type) Header_type (Header_value h)) (\<lambda>jamBytes. ret (HashData jamBytes))"

definition HeaderFromBytes :: "bytes \<Rightarrow> Header jam_result" where
  "HeaderFromBytes data =
     res_bind (Unmarshal (stack_depth Header_type) Header_type data (Header_value Header_zero)) (\<lambda>v. ret (as_header v))"

definition Block_Bytes :: "Block \<Rightarrow> bytes jam_result" where
  "Block_Bytes b = Marshal (stack_depth Block_type) Block_type (Block_value b)"

definition BlockFromBytes :: "bytes \<Rightarrow> Block jam_result" where
  "BlockFromBytes data =
     res_bind (Unmarshal (stack_depth Block_type) Block_type data (Block_value Block_zero)) (\<lambda>v. ret (as_block v))"

text \<open>
  \<^verbatim>\<open>Encode\<close> has a pointer receiver and hands the pointer to the codec; \<open>None\<close> is the nil pointer.
\<close>

definition WorkReport_Encode :: "WorkReport option \<Rightarrow> bytes jam_result" where
  "WorkReport_Encode w =
     (case w of
        None \<Rightarrow> ret []
      | Some r \<Rightarrow> Marshal (stack_depth (TPtr WorkReport_type)) (TPtr WorkReport_type) (VPtr (Some (WorkReport_value r))))"

definition WorkReport_Hash :: "(bytes \<Rightarrow> Hash) \<Rightarrow> WorkReport option \<Rightarrow> Hash jam_result" where
  "WorkReport_Hash HashData w =
     res_bind (WorkReport_Encode w) (\<lambda>encodedData. ret (HashData encodedData))"

section \<open>Blocks the codec can carry\<close>

text \<open>
  The lengths that the array types of the source fix, slices below \<open>2 ^ 32\<close> entries, and the
  dictionary of a work report listed in the order of its keys. A result that is an error is one of
  the four errors.
\<close>

definition hashes_ok :: "nat \<Rightarrow> bytes list \<Rightarrow> bool" where
  "hashes_ok n hs \<longleftrightarrow> length hs < 2 ^ 32 \<and> (\<forall>h \<in> set hs. length h = n)"

definition wf_result :: "WorkResult \<Rightarrow> bool" where
  "wf_result r \<longleftrightarrow> length (ServiceHashCode r) = 32 \<and> length (res_PayloadHash r) = 32 \<and>
     (case res_Output r of Output b \<Rightarrow> length b < 2 ^ 32 | WorkResultError e \<Rightarrow> e \<in> {1, 2, 3, 4})"

definition wf_report :: "WorkReport \<Rightarrow> bool" where
  "wf_report w \<longleftrightarrow> hashes_ok 32 [spec_WorkPackageHash (Specification w), ErasureRoot (Specification w),
       SegmentRoot (Specification w), AuthorizerHash w, anchor_HeaderHash (rep_Context w),
       PosteriorStateRoot (rep_Context w), PosteriorBeefyRoot (rep_Context w), lookup_HeaderHash (rep_Context w)] \<and>
     hashes_ok 32 (PrerequisiteWorkPackage (rep_Context w)) \<and> length (rep_Output w) < 2 ^ 32 \<and>
     hashes_ok 32 (map fst (SegmentRootLookup w)) \<and> hashes_ok 32 (map snd (SegmentRootLookup w)) \<and>
     sorted (map (map uint \<circ> fst) (SegmentRootLookup w)) \<and> distinct (map fst (SegmentRootLookup w)) \<and>
     length (WorkResults w) < 2 ^ 32 \<and> (\<forall>r \<in> set (WorkResults w). wf_result r)"

definition wf_header :: "Header \<Rightarrow> bool" where
  "wf_header h \<longleftrightarrow> hashes_ok 32 [ParentHash h, PriorStateRoot h, ExtrinsicHash h] \<and>
     (\<forall>m. hdr_EpochMarker h = Some m \<longrightarrow> hashes_ok 32 (em_Entropy m # TicketsEntropy m # em_Keys m) \<and>
        length (em_Keys m) = NumberOfValidators) \<and>
     (\<forall>ts. WinningTicketsMarker h = Some ts \<longrightarrow> hashes_ok 32 (map Identifier ts) \<and> length ts = TimeslotsPerEpoch) \<and>
     hashes_ok 32 (OffendersMarkers h) \<and> hashes_ok 96 [VRFSignature h, BlockSealSignature h]"

definition wf_disputes :: "DisputeExtrinsic \<Rightarrow> bool" where
  "wf_disputes d \<longleftrightarrow> length (Verdicts d) < 2 ^ 32 \<and>
     (\<forall>v \<in> set (Verdicts d). length (v_ReportHash v) = 32 \<and> length (v_Judgements v) = ValidatorsSuperMajority \<and>
        hashes_ok 64 (map j_Signature (v_Judgements v))) \<and>
     hashes_ok 32 (map c_ReportHash (Culprits d)) \<and> hashes_ok 32 (map c_ValidatorEd25519PublicKey (Culprits d)) \<and>
     hashes_ok 64 (map c_Signature (Culprits d)) \<and>
     hashes_ok 32 (map f_ReportHash (Faults d)) \<and> hashes_ok 32 (map f_ValidatorEd25519PublicKey (Faults d)) \<and>
     hashes_ok 64 (map f_Signature (Faults d))"

definition wf_extrinsic :: "BlockExtrinsic \<Rightarrow> bool" where
  "wf_extrinsic e \<longleftrightarrow> hashes_ok ticketProofSize (map tp_Proof (ET e)) \<and>
     length (EP e) < 2 ^ 32 \<and> (\<forall>p \<in> set (EP e). length (pre_Data p) < 2 ^ 32) \<and>
     length (EG e) < 2 ^ 32 \<and> (\<forall>g \<in> set (EG e). wf_report (g_WorkReport g) \<and> hashes_ok 64 (map cred_Signature (Credentials g))) \<and>
     hashes_ok 32 (map Anchor (EA e)) \<and> hashes_ok AvailBitfieldBytes (map Bitfield (EA e)) \<and>
     hashes_ok 64 (map a_Signature (EA e)) \<and> wf_disputes (ED e)"

definition wf_block :: "Block \<Rightarrow> bool" where
  "wf_block b \<longleftrightarrow> wf_header (blk_Header b) \<and> wf_extrinsic (blk_Extrinsic b)"

lemma encodable_octets: "length h = n \<Longrightarrow> encodable (octets_type n) (hash_value h)"
  by (auto simp: hash_value_def unat_ucast_less unat64_less list_all_iff)

lemma ucast_back: "LENGTH('a) \<le> 64 \<Longrightarrow> ucast (ucast (x :: 'a::len word) :: u64) = x"
  by (rule bit_word_eqI) (auto simp: bit_simps)

lemma ucast_backs [simp]:
  "ucast (ucast (a :: u8) :: u64) = a" "ucast (ucast (b :: u16) :: u64) = b" "ucast (ucast (c :: u32) :: u64) = c"
  by (simp_all add: ucast_back)

lemma uint_ucast8: "uint (ucast (x :: u8) :: u64) = uint x"
  using order_less_le_trans [OF unsigned_less [of x, where 'a = int], of "2 ^ 64"]
  by (simp add: unsigned_ucast_eq take_bit_int_eq_self)

lemma map_key_rank_hash: "map_key_rank (hash_value h) = map uint h"
  by (induction h) (simp_all add: hash_value_def uint_ucast8)

lemma as_hash_value [simp]: "as_hash (hash_value h) = h"
  by (induction h) (simp_all add: hash_value_def as_list_def as_uint_def)

lemma hash_value_eq [simp]: "hash_value h = hash_value h' \<longleftrightarrow> h = h'"
  using as_hash_value by metis

text \<open>Each structure is read back from its value.\<close>

lemma fld_VStruct [simp]: "fld (VStruct vs) i = vs ! i"
  by (simp add: fld_def)

lemma as_simps [simp]:
  "as_uint (VUint x) = ucast x" "as_bool (VBool b) = b" "as_bytes (VBytes bs) = bs"
  "as_list f (VList vs) = map f vs" "as_ptr f (VPtr p) = map_option f p"
  "as_map f g (VMap kvs) = map (\<lambda>(k, w). (f k, g w)) kvs"
  by (simp_all add: as_uint_def as_bool_def as_bytes_def as_list_def as_ptr_def as_map_def)

lemma as_output_value [simp]: "as_output (WorkResultOutput_value r) = r"
  by (simp add: as_output_def WorkResultOutput_value_def split: WorkResultOutputOrError.split)

lemma as_context_value [simp]: "as_context (RefinementContext_value c) = c"
  by (simp add: as_context_def RefinementContext_value_def o_def)

lemma as_specification_value [simp]: "as_specification (WorkPackageSpecification_value x) = x"
  by (simp add: as_specification_def WorkPackageSpecification_value_def)

lemma as_result_value [simp]: "as_result (WorkResult_value r) = r"
  by (simp add: as_result_def WorkResult_value_def)

lemma as_report_value [simp]: "as_report (WorkReport_value w) = w"
  by (simp add: as_report_def WorkReport_value_def o_def case_prod_beta')

lemma as_guarantee_value [simp]: "as_guarantee (Guarantee_value g) = g"
  by (cases g) (auto simp: as_guarantee_def Guarantee_value_def intro!: map_idI)

lemma as_assurance_value [simp]: "as_assurance (Assurance_value a) = a"
  by (simp add: as_assurance_def Assurance_value_def)

lemma as_verdict_value [simp]: "as_verdict (Verdict_value v) = v"
  by (cases v) (auto simp: as_verdict_def Verdict_value_def intro!: map_idI)

lemma as_disputes_value [simp]: "as_disputes (DisputeExtrinsic_value d) = d"
  by (cases d) (auto simp: as_disputes_def DisputeExtrinsic_value_def intro!: map_idI)

lemma as_ticket_value [simp]: "as_ticket (Ticket_value t) = t"
  by (simp add: as_ticket_def Ticket_value_def)

lemma as_epoch_marker_value [simp]: "as_epoch_marker (EpochMarker_value m) = m"
  by (simp add: as_epoch_marker_def EpochMarker_value_def o_def)

lemma as_header_value [simp]: "as_header (Header_value h) = h"
  by (simp add: as_header_def Header_value_def o_def option.map_comp option.map_ident)

lemma as_extrinsic_value [simp]: "as_extrinsic (BlockExtrinsic_value e) = e"
  by (cases e) (auto simp: as_extrinsic_def BlockExtrinsic_value_def intro!: map_idI)

lemma as_block_value [simp]: "as_block (Block_value b) = b"
  by (simp add: as_block_def Block_value_def)

text \<open>Well-formed structures can be encoded.\<close>

lemma hashes_ok_nth: "hashes_ok n hs \<Longrightarrow> h \<in> set hs \<Longrightarrow> encodable (octets_type n) (hash_value h)"
  using encodable_octets unfolding hashes_ok_def by blast

lemma encodable_context:
  "hashes_ok 32 [anchor_HeaderHash c, PosteriorStateRoot c, PosteriorBeefyRoot c, lookup_HeaderHash c] \<Longrightarrow>
   hashes_ok 32 (PrerequisiteWorkPackage c) \<Longrightarrow> encodable RefinementContext_type (RefinementContext_value c)"
  by (auto simp: RefinementContext_type_def RefinementContext_value_def struct_type_def hashes_ok_def encodable_hash
      unat_ucast_less unat64_less list_all_iff)

lemma encodable_result: "wf_result r \<Longrightarrow> encodable WorkResult_type (WorkResult_value r)"
  by (auto simp: wf_result_def WorkResult_type_def WorkResult_value_def WorkResultOutput_type_def WorkResultOutput_value_def
      struct_type_def encodable_hash unat_ucast_less unat64_less split: WorkResultOutputOrError.splits)

lemma encodable_lookup:
  assumes "hashes_ok 32 (map fst m)" "hashes_ok 32 (map snd m)" "sorted (map (map uint \<circ> fst) m)" "distinct (map fst m)"
  shows "encodable (TMap hash_type hash_type) (VMap (map (\<lambda>(k, v). (hash_value k, hash_value v)) m))"
proof -
  let ?f = "\<lambda>(k, v). (hash_value k, hash_value v)"
  have "map fst (map ?f m) = map hash_value (map fst m)" by auto
  then have "distinct (map fst (map ?f m))"
    using assms(4) by (simp only: distinct_map) (simp add: inj_on_def)
  moreover have "map (map_key_rank \<circ> fst) (map ?f m) = map (map uint \<circ> fst) m"
    by (auto simp: map_key_rank_hash)
  moreover have "list_all (\<lambda>(k, w). encodable hash_type k \<and> encodable hash_type w) (map ?f m)"
    using assms(1,2) by (auto simp: hashes_ok_def list_all_iff encodable_hash)
  moreover have "sortable_key_type hash_type = None" by (simp add: hash_type_def)
  ultimately show ?thesis
    using assms(1,3) by (simp add: hashes_ok_def del: map_map)
qed

lemma encodable_report: "wf_report w \<Longrightarrow> encodable WorkReport_type (WorkReport_value w)"
  using encodable_context [of "rep_Context w"] encodable_lookup [of "SegmentRootLookup w"]
  by (auto simp: wf_report_def WorkReport_type_def WorkReport_value_def WorkPackageSpecification_type_def
      WorkPackageSpecification_value_def struct_type_def hashes_ok_def encodable_hash encodable_result unat_ucast_less
      unat64_less list_all_iff simp del: encodable.simps(10))

lemma encodable_header: "wf_header h \<Longrightarrow> encodable Header_type (Header_value h)"
  by (auto simp: wf_header_def Header_type_def Header_value_def EpochMarker_type_def EpochMarker_value_def Ticket_type_def
      Ticket_value_def struct_type_def hashes_ok_def encodable_hash unat_ucast_less unat64_less list_all_iff
      hash_value_def hash_type_def split: option.splits)

lemma encodable_guarantee:
  "wf_report (g_WorkReport g) \<Longrightarrow> hashes_ok 64 (map cred_Signature (Credentials g)) \<Longrightarrow>
   encodable Guarantee_type (Guarantee_value g)"
  by (auto simp: Guarantee_type_def Guarantee_value_def struct_type_def hashes_ok_def encodable_report unat_ucast_less
      unat64_less list_all_iff hash_value_def)

lemma encodable_disputes: "wf_disputes d \<Longrightarrow> encodable DisputeExtrinsic_type (DisputeExtrinsic_value d)"
  by (auto simp: wf_disputes_def DisputeExtrinsic_type_def DisputeExtrinsic_value_def Verdict_type_def Verdict_value_def
      struct_type_def hashes_ok_def encodable_hash unat_ucast_less unat64_less list_all_iff hash_value_def hash_type_def)

lemma encodable_assurance:
  "length (Anchor a) = 32 \<Longrightarrow> length (Bitfield a) = AvailBitfieldBytes \<Longrightarrow> length (a_Signature a) = 64 \<Longrightarrow>
   encodable Assurance_type (Assurance_value a)"
  by (auto simp: Assurance_type_def Assurance_value_def struct_type_def encodable_hash unat_ucast_less unat64_less
      list_all_iff hash_value_def hash_type_def)

lemma encodable_extrinsic: "wf_extrinsic e \<Longrightarrow> encodable BlockExtrinsic_type (BlockExtrinsic_value e)"
  by (auto simp: wf_extrinsic_def BlockExtrinsic_type_def BlockExtrinsic_value_def struct_type_def hashes_ok_def
      encodable_guarantee encodable_assurance encodable_disputes unat_ucast_less unat64_less list_all_iff hash_value_def)

lemma encodable_block: "wf_block b \<Longrightarrow> encodable Block_type (Block_value b)"
  by (simp add: wf_block_def Block_type_def Block_value_def struct_type_def encodable_header encodable_extrinsic)

text \<open>No encoding is empty: the decoder would read any other block from it.\<close>

lemma not_empty:
  assumes "encodable t v" "encodable t v'" "v \<noteq> v'" "marshal (stack_depth t) t v = ret bs"
  shows "bs \<noteq> []"
proof
  assume "bs = []"
  obtain cs where "marshal (stack_depth t) t v' = ret cs" using jam.encode_decode [OF assms(2)] by blast
  then show False using jam.prefix_free [OF assms(1,2,4), of cs cs "[]"] assms(3) \<open>bs = []\<close> by simp
qed

lemma wf_header_slot: "wf_header (h\<lparr>TimeSlotIndex := t\<rparr>) \<longleftrightarrow> wf_header h"
  by (simp add: wf_header_def)

lemma Header_value_inj: "Header_value h = Header_value h' \<longleftrightarrow> h = h'"
  using as_header_value by metis

lemma Block_value_inj: "Block_value b = Block_value b' \<longleftrightarrow> b = b'"
  using as_block_value by metis

lemma header_bytes_not_empty:
  assumes "wf_header h" "Header_Bytes h = ret bs"
  shows "bs \<noteq> []"
proof (rule not_empty)
  show "encodable Header_type (Header_value h)" using assms(1) by (rule encodable_header)
  show "encodable Header_type (Header_value (h\<lparr>TimeSlotIndex := TimeSlotIndex h + 1\<rparr>))"
    using assms(1) by (intro encodable_header) (simp add: wf_header_slot)
  show "Header_value h \<noteq> Header_value (h\<lparr>TimeSlotIndex := TimeSlotIndex h + 1\<rparr>)"
    unfolding Header_value_inj by (cases h) simp
  show "marshal (stack_depth Header_type) Header_type (Header_value h) = ret bs"
    using assms(2) by (simp add: Header_Bytes_def Marshal_def)
qed

lemma block_bytes_not_empty:
  assumes "wf_block b" "Block_Bytes b = ret bs"
  shows "bs \<noteq> []"
proof (rule not_empty)
  let ?h = "blk_Header b"
  let ?b = "b\<lparr>blk_Header := ?h\<lparr>TimeSlotIndex := TimeSlotIndex ?h + 1\<rparr>\<rparr>"
  show "encodable Block_type (Block_value b)" using assms(1) by (rule encodable_block)
  show "encodable Block_type (Block_value ?b)"
    using assms(1) by (intro encodable_block) (simp add: wf_block_def wf_header_slot)
  show "Block_value b \<noteq> Block_value ?b"
    unfolding Block_value_inj by (cases b, cases ?h) simp
  show "marshal (stack_depth Block_type) Block_type (Block_value b) = ret bs"
    using assms(2) by (simp add: Block_Bytes_def Marshal_def)
qed

lemma Header_roundtrip:
  assumes "wf_header h"
  shows "\<exists>bs. Header_Bytes h = ret bs \<and> Header_Hash HashData h = ret (HashData bs) \<and> HeaderFromBytes bs = ret h"
proof -
  obtain bs where bs: "marshal (stack_depth Header_type) Header_type (Header_value h) = ret bs"
    "\<forall>rest. unmarshal (stack_depth Header_type) Header_type (bs @ rest) = ret (Header_value h, rest)"
    using jam.encode_decode [OF encodable_header [OF assms]] by blast
  then have "bs \<noteq> []" using header_bytes_not_empty [OF assms] by (simp add: Header_Bytes_def Marshal_def)
  then show ?thesis
    using bs spec [OF bs(2), of "[]"] by (simp add: Header_Bytes_def Header_Hash_def HeaderFromBytes_def Unmarshal_def Marshal_def)
qed

text \<open>
  A block survives its encoding: one whose arrays have their lengths, whose slices are
  below \<open>2 ^ 32\<close> entries and whose dictionaries are listed in the order of their keys is encoded
  without error, and \<^verbatim>\<open>BlockFromBytes\<close> gives it back.
\<close>

lemma Block_roundtrip:
  assumes "wf_block b"
  shows "\<exists>bs. Block_Bytes b = ret bs \<and> BlockFromBytes bs = ret b"
proof -
  obtain bs where bs: "marshal (stack_depth Block_type) Block_type (Block_value b) = ret bs"
    "\<forall>rest. unmarshal (stack_depth Block_type) Block_type (bs @ rest) = ret (Block_value b, rest)"
    using jam.encode_decode [OF encodable_block [OF assms]] by blast
  then have "bs \<noteq> []" using block_bytes_not_empty [OF assms] by (simp add: Block_Bytes_def Marshal_def)
  then show ?thesis
    using bs spec [OF bs(2), of "[]"] by (simp add: Block_Bytes_def BlockFromBytes_def Unmarshal_def Marshal_def)
qed

text \<open>An array of octets is encoded as it is.\<close>

lemma serialize_octet: "serializeTrivialNatural (ucast (b :: u8)) 1 = [b]"
proof (rule nth_equalityI)
  show "serializeTrivialNatural (ucast b) 1 ! i = [b] ! i" if "i < length (serializeTrivialNatural (ucast b) 1)" for i
    using that by (intro bit_word_eqI) (simp add: bit_serializeTrivialNatural bit_ucast_iff)
qed simp

lemma encode_octets: "0 < n \<Longrightarrow> encode_all (marshal n (TPrim KUint8)) (map (\<lambda>b. VUint (ucast b)) (bs :: bytes)) = ret bs"
proof (induction bs)
  case (Cons b bs)
  have "marshal n (TPrim KUint8) (VUint (ucast b)) = ret [b]"
    using Cons.prems serialize_octet [of b]
    by (cases n) (simp_all add: marshal_switch_def encodeFixedWidth_def encodeFixedWidth_value_def)
  then show ?case using Cons by simp
qed simp

lemma marshal_octets:
  "2 \<le> n \<Longrightarrow> marshal n (octets_type k) (hash_value h) = ret h"
  by (cases n) (simp_all add: marshal_switch_def handleReflectTypes_encode_def encodeArray_def hash_value_def encode_octets)

text \<open>An empty block, for examples.\<close>

lemma Block_zero_wf: "wf_block Block_zero"
  by (simp add: wf_block_def Block_zero_def wf_header_def Header_zero_def wf_extrinsic_def wf_disputes_def hashes_ok_def
      zero_octets_def)

definition demo_report :: WorkReport where
  "demo_report = \<lparr>Specification = \<lparr>spec_WorkPackageHash = zero_octets 32, AuditableWorkBundleLength = 9,
       ErasureRoot = zero_octets 32, SegmentRoot = zero_octets 32, SegmentCount = 2\<rparr>,
     rep_Context = pkg_Context demo_package, CoreIndex = 3, AuthorizerHash = zero_octets 32, rep_Output = [7],
     SegmentRootLookup = [(zero_octets 32, zero_octets 32)],
     WorkResults = [NewSuccessfulWorkResult 7 (zero_octets 32) (zero_octets 32) 40 [5, 6],
       NewErrorWorkResult 8 (zero_octets 32) (zero_octets 32) 30 2]\<rparr>"

lemma demo_report_wf: "wf_report demo_report"
  by (simp add: wf_report_def demo_report_def hashes_ok_def zero_octets_def demo_package_def wf_result_def
      NewSuccessfulWorkResult_def NewErrorWorkResult_def)

section \<open>Properties\<close>

text \<open>
  \<^verbatim>\<open>Hash\<close> of a work report is not the hash of its encoding. The method hands its pointer receiver
  to the codec, which puts the marker of a pointer that is not nil, the octet 1, in front of the
  report.
\<close>

theorem WorkReport_Hash_marker:
  assumes "wf_report w"
  shows "\<exists>bs. Marshal (stack_depth WorkReport_type) WorkReport_type (WorkReport_value w) = ret bs \<and>
    WorkReport_Encode (Some w) = ret (1 # bs) \<and> WorkReport_Hash HashData (Some w) = ret (HashData (1 # bs))"
proof -
  obtain bs where "marshal (stack_depth WorkReport_type) WorkReport_type (WorkReport_value w) = ret bs"
    using jam.encode_decode [OF encodable_report [OF assms]] by blast
  then show ?thesis
    by (simp add: WorkReport_Encode_def WorkReport_Hash_def Marshal_def marshal_switch_def handleReflectTypes_encode_def
        writePointerMarker_def)
qed

theorem WorkReport_Hash_marker_witness:
  "wf_report demo_report \<and> (\<exists>bs. WorkReport_Hash (\<lambda>x. take 32 x) (Some demo_report) = ret (take 32 (1 # bs)))"
  using WorkReport_Hash_marker [OF demo_report_wf, of "\<lambda>x. take 32 x"] demo_report_wf by blast

end
