(* ===== verification/Bandersnatch_Vrf.thy ===== *)
theory Bandersnatch_Vrf
  imports Blocks
begin

text \<open>
  The wrappers of the bandersnatch library (\<^verbatim>\<open>internal/crypto/bandersnatch/bandersnatch.go\<close>). The
  library is a shared object that the program loads when it starts: a parameter, one field per
  function. A function that fills a buffer and returns a code is \<open>None\<close> for a code that is not 0,
  and otherwise the contents of the buffer.
\<close>

section \<open>The library\<close>

record VrfLibrary =
  newSecret :: "bytes \<Rightarrow> bytes option"
  secretPublic :: "bytes \<Rightarrow> bytes option"
  ietfVrfSign :: "bytes \<Rightarrow> bytes \<Rightarrow> bytes \<Rightarrow> bytes option"
  ietfVrfVerify :: "bytes \<Rightarrow> bytes \<Rightarrow> bytes \<Rightarrow> bytes \<Rightarrow> bytes option"
  ietfVrfOutputHash :: "bytes \<Rightarrow> bytes option"
  newRingVrfVerifier :: "bytes \<Rightarrow> nat option"
  ringVrfVerifierCommitment :: "nat \<Rightarrow> bytes option"
  ringVrfVerifierVerify :: "nat \<Rightarrow> bytes \<Rightarrow> bytes \<Rightarrow> bytes \<Rightarrow> bytes \<Rightarrow> bytes option"
  newRingVrfProver :: "bytes \<Rightarrow> bytes \<Rightarrow> nat \<Rightarrow> nat option"
  ringVrfProverSign :: "nat \<Rightarrow> bytes \<Rightarrow> bytes \<Rightarrow> bytes option"

section \<open>Keys and signatures\<close>

definition NewPrivateKeyFromSeed :: "VrfLibrary \<Rightarrow> bytes \<Rightarrow> string + bytes" where
  "NewPrivateKeyFromSeed lib seed =
     (case newSecret lib seed of None \<Rightarrow> Inl ''error generating private key'' | Some privateKey \<Rightarrow> Inr privateKey)"

definition Public :: "VrfLibrary \<Rightarrow> bytes \<Rightarrow> string + bytes" where
  "Public lib secret =
     (case secretPublic lib secret of None \<Rightarrow> Inl ''error generating private key'' | Some publicKey \<Rightarrow> Inr publicKey)"

definition Sign :: "VrfLibrary \<Rightarrow> bytes \<Rightarrow> bytes \<Rightarrow> bytes \<Rightarrow> string + bytes" where
  "Sign lib secret vrfInputData auxData =
     (case ietfVrfSign lib secret vrfInputData auxData of
        None \<Rightarrow> Inl ''error generating signature'' | Some signature \<Rightarrow> Inr signature)"

definition Verify :: "VrfLibrary \<Rightarrow> bytes \<Rightarrow> bytes \<Rightarrow> bytes \<Rightarrow> bytes \<Rightarrow> bool \<times> bytes" where
  "Verify lib public vrfInputData auxData signature =
     (case ietfVrfVerify lib public vrfInputData auxData signature of
        None \<Rightarrow> (False, zero_octets 32) | Some outputHash \<Rightarrow> (True, outputHash))"

definition OutputHash :: "VrfLibrary \<Rightarrow> bytes \<Rightarrow> string + bytes" where
  "OutputHash lib signature =
     (case ietfVrfOutputHash lib signature of None \<Rightarrow> Inl ''error getting output hash'' | Some outputHash \<Rightarrow> Inr outputHash)"

section \<open>Ring signatures\<close>

text \<open>
  A verifier and a prover hold an opaque pointer of the library, nil after \<^verbatim>\<open>Free\<close>: a number, or
  \<open>None\<close>. A key is an array of 32 octets, so that the keys are copied one after the other.
\<close>

type_synonym RingVrfVerifier = "nat option"
type_synonym RingVrfProver = "nat option"

definition flattenPublicKeys :: "bytes list \<Rightarrow> bytes" where
  "flattenPublicKeys keys = concat keys"

definition NewRingVerifier :: "VrfLibrary \<Rightarrow> bytes list \<Rightarrow> string + RingVrfVerifier" where
  "NewRingVerifier lib publicKeys =
     (let flatKeys = flattenPublicKeys publicKeys in
      case newRingVrfVerifier lib flatKeys of
        None \<Rightarrow> Inl ''unable to create RingVrfVerifier'' | Some ptr \<Rightarrow> Inr (Some ptr))"

definition Commitment :: "VrfLibrary \<Rightarrow> RingVrfVerifier \<Rightarrow> string + bytes" where
  "Commitment lib r =
     (case r of
        None \<Rightarrow> Inl ''nil RingVrfVerifier''
      | Some ptr \<Rightarrow>
          (case ringVrfVerifierCommitment lib ptr of
             None \<Rightarrow> Inl ''error getting ring commitment'' | Some commitment \<Rightarrow> Inr commitment))"

definition RingVrfVerifier_Verify ::
  "VrfLibrary \<Rightarrow> RingVrfVerifier \<Rightarrow> bytes \<Rightarrow> bytes \<Rightarrow> bytes \<Rightarrow> bytes \<Rightarrow> (bool \<times> bytes) option" where
  "RingVrfVerifier_Verify lib r vrfInputData auxData commitment signature =
     (case r of
        None \<Rightarrow> None
      | Some ptr \<Rightarrow>
          (case ringVrfVerifierVerify lib ptr vrfInputData auxData commitment signature of
             None \<Rightarrow> Some (False, zero_octets 32) | Some outputHash \<Rightarrow> Some (True, outputHash)))"

definition NewRingProver :: "VrfLibrary \<Rightarrow> bytes \<Rightarrow> bytes list \<Rightarrow> nat \<Rightarrow> string + RingVrfProver" where
  "NewRingProver lib secret publicKeys proverIdx =
     (let flatKeys = flattenPublicKeys publicKeys in
      case newRingVrfProver lib secret flatKeys proverIdx of
        None \<Rightarrow> Inl ''unable to create RingVrfProver'' | Some ptr \<Rightarrow> Inr (Some ptr))"

definition RingVrfProver_Sign :: "VrfLibrary \<Rightarrow> RingVrfProver \<Rightarrow> bytes \<Rightarrow> bytes \<Rightarrow> string + bytes" where
  "RingVrfProver_Sign lib r vrfInputData auxData =
     (case r of
        None \<Rightarrow> Inl ''nil RingVrfProver''
      | Some ptr \<Rightarrow>
          (case ringVrfProverSign lib ptr vrfInputData auxData of
             None \<Rightarrow> Inl ''error generating signature'' | Some signature \<Rightarrow> Inr signature))"

section \<open>Ties to the library\<close>

lemma Verify_iff: "fst (Verify lib pk m a s) \<longleftrightarrow> ietfVrfVerify lib pk m a s \<noteq> None"
  by (simp add: Verify_def split: option.split)

lemma Sign_iff: "Sign lib sk m a = Inr s \<longleftrightarrow> ietfVrfSign lib sk m a = Some s"
  by (simp add: Sign_def split: option.split)

lemma OutputHash_iff: "OutputHash lib s = Inr y \<longleftrightarrow> ietfVrfOutputHash lib s = Some y"
  by (simp add: OutputHash_def split: option.split)

lemma Public_iff: "Public lib sk = Inr pk \<longleftrightarrow> secretPublic lib sk = Some pk"
  by (simp add: Public_def split: option.split)

end
