(* ===== verification/Shuffling.thy ===== *)
theory Shuffling
  imports Jam_Roundtrip Service_Accounts "HOL-Library.Multiset"
begin

text \<open>
  The deterministic shuffle (\<^verbatim>\<open>internal/common/shuffling.go\<close>) that assigns validators to cores.
\<close>

section \<open>The shuffle\<close>

text \<open>
  The number of a place: four octets, at a place that depends on \<open>i\<close>, of the hash of the entropy
  and \<open>i / 8\<close>. A hash of the wrong length would be an index out of range, \<open>None\<close>.
\<close>

definition random_number :: "(bytes \<Rightarrow> Hash) \<Rightarrow> Hash \<Rightarrow> u32 \<Rightarrow> u32 jam_result" where
  "random_number HashData h i =
     (let k = i div 8 in
      res_bind (Marshal 1 (TPrim KUint32) (VUint (ucast k))) (\<lambda>kBytes.
        let hash = HashData (h @ kBytes); p = (4 * i) mod 32 in
        case those (map (\<lambda>j. go_index hash (unat ((p + j) mod 32))) [0, 1, 2, 3]) of
          None \<Rightarrow> None
        | Some b \<Rightarrow>
            res_bind (Unmarshal 1 (TPrim KUint32) b (VUint 0)) (\<lambda>v.
              case v of VUint rI \<Rightarrow> ret (ucast rI) | _ \<Rightarrow> None)))"

fun random_numbers :: "(u32 \<Rightarrow> u32 jam_result) \<Rightarrow> nat list \<Rightarrow> u32 list jam_result" where
  "random_numbers f [] = ret []"
| "random_numbers f (i # is) =
     res_bind (f (of_nat i)) (\<lambda>rI. res_bind (random_numbers f is) (\<lambda>rs. ret (rI # rs)))"

definition generateRandomNumbers :: "(bytes \<Rightarrow> Hash) \<Rightarrow> Hash \<Rightarrow> u32 \<Rightarrow> u32 list jam_result" where
  "generateRandomNumbers HashData h l = random_numbers (random_number HashData h) [0..<unat l]"

text \<open>
  \<open>None\<close> is the panic of \<^verbatim>\<open>r[0]\<close> without a number left, or of a remainder by a length that is a
  multiple of \<open>2 ^ 32\<close>.
\<close>

fun recursiveShuffle :: "u32 list \<Rightarrow> u32 list \<Rightarrow> u32 list option" where
  "recursiveShuffle [] r = Some []"
| "recursiveShuffle (x # xs) [] = None"
| "recursiveShuffle (x # xs) (r0 # rs) =
     (let s = x # xs; l = length s in
      if (of_nat l :: u32) = 0 then None
      else
        let index = unat (r0 mod of_nat l);
            head = s ! index;
            sPost = s[index := s ! (l - 1)];
            sPost = take (l - 1) sPost
        in map_option (\<lambda>rest. head # rest) (recursiveShuffle sPost rs))"

definition DeterministicShuffle :: "(bytes \<Rightarrow> Hash) \<Rightarrow> u32 list \<Rightarrow> Hash \<Rightarrow> u32 list jam_result" where
  "DeterministicShuffle HashData s h =
     res_bind (generateRandomNumbers HashData h (of_nat (length s))) (\<lambda>r.
       map_option Inr (recursiveShuffle s r))"

section \<open>Numbers and permutations\<close>

lemma random_numbers_ret:
  "(\<And>i. \<exists>x. f i = ret x) \<Longrightarrow> \<exists>rs. random_numbers f is = ret rs \<and> length rs = length is"
proof (induction "is")
  case (Cons i "is")
  then obtain x rs where "f (of_nat i) = ret x" "random_numbers f is = ret rs" "length rs = length is" by blast
  then show ?case by simp
qed simp

lemma marshal_u32: "Marshal 1 (TPrim KUint32) (VUint (ucast (k :: u32))) = ret (serializeTrivialNatural (ucast k) 4)"
  by (simp add: Marshal_def marshal_switch_def encodeFixedWidth_def encodeFixedWidth_value_def)

lemma unmarshal_u32:
  "length b = 4 \<Longrightarrow> Unmarshal 1 (TPrim KUint32) b dst = ret (VUint (ucast (deserializeTrivialNatural b :: u32)))"
  using br_Read_append [of b 4 "[]"]
  by (auto simp: Unmarshal_def unmarshal_switch_def decodeFixedWidth_def decodeFixedWidth_value_def fixedWidth_value_def)

lemma unat_mod_32: "unat (x mod 32 :: u32) < 32"
  by (simp add: unat_mod)

lemma random_number_ret:
  assumes "\<And>x. length (HashData x) = 32"
  shows "\<exists>x. random_number HashData h i = ret x"
  using assms unat_mod_32 by (simp add: random_number_def Let_def marshal_u32 go_index_def unmarshal_u32 del: One_nat_def)

lemma mset_take_one:
  assumes "index < length s"
  shows "mset (s ! index # take (length s - 1) (s[index := s ! (length s - 1)])) = mset s"
proof (cases s rule: rev_cases)
  case Nil
  then show ?thesis using assms by simp
next
  case (snoc ys y)
  show ?thesis
  proof (cases "index = length ys")
    case True
    then show ?thesis using snoc by simp
  next
    case False
    then have i: "index < length ys" using assms snoc by simp
    then have "mset (ys[index := y]) = add_mset y (mset ys - {#ys ! index#})" by (rule mset_update)
    then show ?thesis using i snoc by (simp add: nth_append list_update_append)
  qed
qed

lemma recursiveShuffle_permutes:
  assumes "length s \<le> length r" "length s < 2 ^ 32"
  shows "\<exists>t. recursiveShuffle s r = Some t \<and> mset t = mset s"
  using assms
proof (induction s r rule: recursiveShuffle.induct)
  case (3 x xs r0 rs)
  let ?s = "x # xs"
  let ?l = "length ?s"
  define index where "index = unat (r0 mod of_nat ?l)"
  have l: "unat (of_nat ?l :: u32) = ?l"
    using "3.prems"(2) by (simp only: unsigned_of_nat) (simp add: take_bit_nat_eq_self)
  then have nz: "(of_nat ?l :: u32) \<noteq> 0" by (metis unat_0 length_0_conv list.distinct(1))
  have idx: "index < ?l" unfolding index_def unat_mod l by simp
  have "\<exists>t. recursiveShuffle (take (?l - 1) (?s[index := ?s ! (?l - 1)])) rs = Some t \<and>
      mset t = mset (take (?l - 1) (?s[index := ?s ! (?l - 1)]))"
    using "3.IH" [OF refl refl nz index_def refl refl refl] "3.prems" by simp
  then obtain t where t: "recursiveShuffle (take (?l - 1) (?s[index := ?s ! (?l - 1)])) rs = Some t"
    "mset t = mset (take (?l - 1) (?s[index := ?s ! (?l - 1)]))" by blast
  have "recursiveShuffle ?s (r0 # rs) = Some (?s ! index # t)"
    using t(1) nz by (simp only: recursiveShuffle.simps Let_def if_False index_def option.map)
  moreover have "mset (?s ! index # t) = mset ?s"
    using mset_take_one [OF idx] t(2) by simp
  ultimately show ?case by blast
qed simp_all

text \<open>
  The deterministic shuffle is a permutation: for every sequence of fewer than \<open>2 ^ 32\<close> numbers
  and every entropy, it returns without an error or a panic, and its result has the same elements
  as often. That the hash function gives 32 octets is the type of its result.
\<close>

lemma DeterministicShuffle_permutes:
  assumes "\<And>x. length (HashData x) = 32" "length s < 2 ^ 32"
  shows "\<exists>t. DeterministicShuffle HashData s h = ret t \<and> mset t = mset s"
proof -
  have l: "unat (of_nat (length s) :: u32) = length s"
    using assms(2) by (simp only: unsigned_of_nat) (simp add: take_bit_nat_eq_self)
  obtain r where "generateRandomNumbers HashData h (of_nat (length s)) = ret r" "length r = length s"
    using random_numbers_ret [of "random_number HashData h" "[0..<length s]"] random_number_ret [OF assms(1)]
    by (auto simp: generateRandomNumbers_def l)
  then show ?thesis
    using recursiveShuffle_permutes [of s r] assms(2) by (auto simp: DeterministicShuffle_def)
qed

end
