(* ===== verification/Safrole.thy ===== *)
theory Safrole
  imports Bandersnatch_Vrf Shuffling
begin

text \<open>
  Block production (\<^verbatim>\<open>internal/safrole\<close>, \<^verbatim>\<open>internal/validator/validators.go\<close> and the Safrole part of
  \<^verbatim>\<open>internal/statetransition/state_transition.go\<close>): tickets, sealing keys, the rotation of validators and
  of entropy at the end of an epoch.
\<close>

section \<open>State\<close>

text \<open>
  The series of sealing keys is an interface value: nil, the tickets of an epoch, or fallback keys.
  A set of validators is an array of pointers, none of which is written through.
\<close>

datatype TicketsOrKeys = TicketsBodies "Ticket list" | EpochKeys "bytes list"

type_synonym ValidatorsData = "ValidatorKey option list"

record SafroleState =
  NextValidators :: ValidatorsData
  TicketAccumulator :: "Ticket list"
  SealingKeySeries :: "TicketsOrKeys option"
  RingCommitment :: bytes

record ValidatorState =
  CurrentValidators :: ValidatorsData
  ArchivedValidators :: ValidatorsData
  QueuedValidators :: ValidatorsData
  Safrole_State :: SafroleState

type_synonym EntropyPool = "Hash list"

definition SealingKeys_type :: jtype where
  "SealingKeys_type = TEnum [(0, Some (TArray TimeslotsPerEpoch Ticket_type)), (1, Some (TArray TimeslotsPerEpoch hash_type))]"

text \<open>A nil series has no index, which the codec reports as an error: an index outside the type.\<close>

definition SealingKeys_value :: "TicketsOrKeys option \<Rightarrow> jval" where
  "SealingKeys_value s =
     (case s of
        None \<Rightarrow> VEnum 2 None
      | Some (EpochKeys ks) \<Rightarrow> VEnum 1 (Some (VList (map hash_value ks)))
      | Some (TicketsBodies ts) \<Rightarrow> VEnum 0 (Some (VList (map Ticket_value ts))))"

definition MaxTicketExtrinsicSize :: nat where "MaxTicketExtrinsicSize = 16"
definition MaxTicketAttempts :: u8 where "MaxTicketAttempts = 2"
definition TicketSealContext :: string where "TicketSealContext = ''jam_ticket_seal''"

text \<open>The error of a transition: a message, an error of the codec, or an error with a message in front.\<close>

datatype st_error = Err string | Codec jam_error | Wrapped string st_error

definition lift_err :: "string + 'a \<Rightarrow> (st_error + 'a) option" where
  "lift_err r = (case r of Inl e \<Rightarrow> raise (Err e) | Inr x \<Rightarrow> ret x)"

definition lift_jam :: "'a jam_result \<Rightarrow> (st_error + 'a) option" where
  "lift_jam r = (case r of None \<Rightarrow> None | Some (Inl e) \<Rightarrow> raise (Codec e) | Some (Inr x) \<Rightarrow> ret x)"

section \<open>Rings and sealing keys\<close>

text \<open>
  A nil validator is dereferenced: \<open>None\<close>. \<^verbatim>\<open>defer ringVerifier.Free()\<close> comes before the check of the
  error, and \<^verbatim>\<open>Free\<close> reads through its receiver: when there is no verifier, the function that
  returns the error panics.
\<close>

definition validator_ring :: "ValidatorsData \<Rightarrow> bytes list option" where
  "validator_ring vs = those (map (map_option Bandersnatch) vs)"

definition RingVerifier :: "VrfLibrary \<Rightarrow> SafroleState \<Rightarrow> (string + RingVrfVerifier) option" where
  "RingVerifier lib state =
     (case validator_ring (NextValidators state) of None \<Rightarrow> None | Some ring \<Rightarrow> Some (NewRingVerifier lib ring))"

definition CalculateRingCommitment :: "VrfLibrary \<Rightarrow> SafroleState \<Rightarrow> (string + bytes) option" where
  "CalculateRingCommitment lib state =
     (case RingVerifier lib state of
        None \<Rightarrow> None
      | Some (Inl err) \<Rightarrow> None
      | Some (Inr ringVerifier) \<Rightarrow> Some (Commitment lib ringVerifier))"

definition fallback_key :: "(bytes \<Rightarrow> Hash) \<Rightarrow> Hash \<Rightarrow> ValidatorsData \<Rightarrow> u32 \<Rightarrow> (st_error + bytes) option" where
  "fallback_key HashData entropy currentValidators i =
     res_bind (lift_jam (Marshal 1 (TPrim KUint32) (uint_value i))) (\<lambda>iBytes.
       let data = entropy @ iBytes; hash = HashData data in
       res_bind (lift_jam (Unmarshal 1 (TPrim KUint32) hash (VUint 0))) (\<lambda>v.
         let index = as_uint v :: u32 in
         case go_index currentValidators (unat (index mod of_nat (length currentValidators))) of
           None \<Rightarrow> None
         | Some None \<Rightarrow> None
         | Some (Some vk) \<Rightarrow> ret (Bandersnatch vk)))"

fun res_map :: "('a \<Rightarrow> ('e + 'b) option) \<Rightarrow> 'a list \<Rightarrow> ('e + 'b list) option" where
  "res_map f [] = ret []"
| "res_map f (x # xs) = res_bind (f x) (\<lambda>y. res_bind (res_map f xs) (\<lambda>ys. ret (y # ys)))"

definition SelectFallbackKeys :: "(bytes \<Rightarrow> Hash) \<Rightarrow> Hash \<Rightarrow> ValidatorsData \<Rightarrow> (st_error + bytes list) option" where
  "SelectFallbackKeys HashData entropy currentValidators =
     res_map (\<lambda>i. fallback_key HashData entropy currentValidators (of_nat i)) [0..<TimeslotsPerEpoch]"

fun outside_in :: "Ticket list \<Rightarrow> nat \<Rightarrow> nat \<Rightarrow> int \<Rightarrow> nat \<Rightarrow> Ticket list option" where
  "outside_in tickets i left right 0 = Some []"
| "outside_in tickets i left right (Suc n) =
     (if i mod 2 = 0 then do {
        t \<leftarrow> go_index tickets left;
        rest \<leftarrow> outside_in tickets (i + 1) (left + 1) right n;
        Some (t # rest)
      }
      else if right < 0 then None
      else do {
        t \<leftarrow> go_index tickets (nat right);
        rest \<leftarrow> outside_in tickets (i + 1) left (right - 1) n;
        Some (t # rest)
      })"

definition OutsideInSequence :: "Ticket list \<Rightarrow> Ticket list option" where
  "OutsideInSequence tickets = (let n = length tickets in outside_in tickets 0 0 (int n - 1) n)"

text \<open>A conversion of a slice to an array of 32 octets panics on a shorter one.\<close>

definition to_array32 :: "bytes \<Rightarrow> bytes option" where
  "to_array32 key = (if length key < 32 then None else Some (take 32 key))"

definition nullified_key :: ValidatorKey where
  "nullified_key = \<lparr>Bandersnatch = zero_octets 32, Ed25519 = zero_octets 32, Bls = zero_octets 144, Metadata = zero_octets 128\<rparr>"

definition nullify :: "bytes set \<Rightarrow> ValidatorKey option \<Rightarrow> ValidatorKey option option" where
  "nullify offenderMap v =
     (case v of
        None \<Rightarrow> None
      | Some validator \<Rightarrow>
          (case to_array32 (Ed25519 validator) of
             None \<Rightarrow> None
           | Some key \<Rightarrow> Some (if key \<in> offenderMap then Some nullified_key else Some validator)))"

definition NullifyOffenders :: "ValidatorsData \<Rightarrow> bytes list \<Rightarrow> ValidatorsData option" where
  "NullifyOffenders queuedValidators offenders =
     (case those (map to_array32 offenders) of
        None \<Rightarrow> None
      | Some keys \<Rightarrow> those (map (nullify (set keys)) queuedValidators))"

section \<open>Tickets and the transition\<close>

record SafroleInput =
  TimeSlot :: Timeslot
  Tickets :: "TicketProof list"
  si_Entropy :: Hash
  Offenders :: "bytes list"

record SafroleOutput =
  EpochMark :: "EpochMarker option"
  WinningTicketMark :: "Ticket list option"

definition NewSafroleInputFromBlock :: "VrfLibrary \<Rightarrow> Block \<Rightarrow> (st_error + SafroleInput) option" where
  "NewSafroleInputFromBlock lib block =
     res_bind (lift_err (OutputHash lib (VRFSignature (blk_Header block)))) (\<lambda>entropy.
       ret \<lparr>TimeSlot = TimeSlotIndex (blk_Header block), Tickets = ET (blk_Extrinsic block), si_Entropy = entropy,
            Offenders = OffendersMarkers (blk_Header block)\<rparr>)"

definition ticket_of_proof ::
  "VrfLibrary \<Rightarrow> RingVrfVerifier \<Rightarrow> bytes \<Rightarrow> Hash \<Rightarrow> Hash set \<Rightarrow> TicketProof \<Rightarrow> (st_error + Ticket) option" where
  "ticket_of_proof lib ringVerifier ringCommitment entropy existingIds tp =
     (if MaxTicketAttempts \<le> tp_EntryIndex tp then raise (Err ''bad ticket attempt'')
      else
        let vrfInputData = go_bytes TicketSealContext @ entropy @ [tp_EntryIndex tp] in
        case RingVrfVerifier_Verify lib ringVerifier vrfInputData [] ringCommitment (tp_Proof tp) of
          None \<Rightarrow> None
        | Some (ok, outputHash) \<Rightarrow>
            if \<not> ok then raise (Err ''bad ticket proof'')
            else if outputHash \<in> existingIds then raise (Err ''duplicate ticket'')
            else ret \<lparr>Identifier = outputHash, EntryIndex = tp_EntryIndex tp\<rparr>)"

text \<open>
  \<^verbatim>\<open>bytes.Compare\<close> is the lexicographic order of octets, that of the type \<open>bytes\<close>.
\<close>

fun strictly_ascending :: "'a::ord list \<Rightarrow> bool" where
  "strictly_ascending (x # y # zs) = (x < y \<and> strictly_ascending (y # zs))"
| "strictly_ascending _ = True"

definition calculateTickets ::
  "VrfLibrary \<Rightarrow> SafroleState \<Rightarrow> EntropyPool \<Rightarrow> TicketProof list \<Rightarrow> (st_error + Ticket list) option" where
  "calculateTickets lib safstate entropyPool ticketProofs =
     (if MaxTicketExtrinsicSize < length ticketProofs then raise (Err ''too many tickets'')
      else
        case RingVerifier lib safstate of
          None \<Rightarrow> None
        | Some (Inl err) \<Rightarrow> None
        | Some (Inr ringVerifier) \<Rightarrow>
            let existingIds = Identifier ` set (TicketAccumulator safstate) in
            res_bind (res_map (ticket_of_proof lib ringVerifier (RingCommitment safstate) (entropyPool ! 2) existingIds)
              ticketProofs) (\<lambda>tickets.
                if \<not> strictly_ascending (map Identifier tickets) then raise (Err ''bad ticket order'')
                else ret tickets))"

definition rotateEntropyPool :: "EntropyPool \<Rightarrow> EntropyPool" where
  "rotateEntropyPool pool =
     (let pool = pool[3 := pool ! 2]; pool = pool[2 := pool ! 1]; pool = pool[1 := pool ! 0] in pool)"

definition calculateNewEntropyPool :: "(bytes \<Rightarrow> Hash) \<Rightarrow> Timeslot \<Rightarrow> Timeslot \<Rightarrow> Hash \<Rightarrow> EntropyPool \<Rightarrow> EntropyPool" where
  "calculateNewEntropyPool HashData currentTimeslot newTimeslot entropyInput entropyPool =
     (let newEntropyPool = (if ToEpoch newTimeslot > ToEpoch currentTimeslot then rotateEntropyPool entropyPool
                            else entropyPool)
      in newEntropyPool[0 := HashData (entropyPool ! 0 @ entropyInput)])"

text \<open>
  The tickets of the block join the accumulator, which keeps the lowest of them; \<^verbatim>\<open>sort.Slice\<close> may
  order equal identifiers as it likes, but there are none.
\<close>

definition submit_tickets ::
  "VrfLibrary \<Rightarrow> SafroleState \<Rightarrow> EntropyPool \<Rightarrow> TicketProof list \<Rightarrow> (st_error + SafroleState) option" where
  "submit_tickets lib st entropyPool ticketProofs =
     (if ticketProofs = [] then ret st
      else
        res_bind (calculateTickets lib st entropyPool ticketProofs) (\<lambda>tickets.
          let allTickets = TicketAccumulator st @ tickets;
              allTickets = sort_key Identifier allTickets;
              allTickets = (if TimeslotsPerEpoch < length allTickets then take TimeslotsPerEpoch allTickets else allTickets);
              existingIds = Identifier ` set allTickets
          in
          if \<exists>ticket \<in> set tickets. Identifier ticket \<notin> existingIds then raise (Err ''useless ticket'')
          else ret (st\<lparr>TicketAccumulator := allTickets\<rparr>)))"

definition sealing_keys ::
  "(bytes \<Rightarrow> Hash) \<Rightarrow> bool \<Rightarrow> Ticket list \<Rightarrow> Hash \<Rightarrow> ValidatorsData \<Rightarrow> (st_error + TicketsOrKeys) option" where
  "sealing_keys HashData useTickets tickets entropy currentValidators =
     (if useTickets then
        (case OutsideInSequence tickets of
           None \<Rightarrow> None
         | Some sealingTickets \<Rightarrow>
             if length sealingTickets < TimeslotsPerEpoch then None
             else ret (TicketsBodies (take TimeslotsPerEpoch sealingTickets)))
      else
        res_bind (SelectFallbackKeys HashData entropy currentValidators) (\<lambda>fallbackKeys. ret (EpochKeys fallbackKeys)))"

text \<open>
  The first block of an epoch. \<open>newState\<close> is the state with the tickets of the block, \<open>st\<close> the one
  before it.
\<close>

definition start_epoch ::
  "VrfLibrary \<Rightarrow> (bytes \<Rightarrow> Hash) \<Rightarrow> SafroleInput \<Rightarrow> Timeslot \<Rightarrow> EntropyPool \<Rightarrow> EntropyPool \<Rightarrow> ValidatorState \<Rightarrow>
    SafroleState \<Rightarrow> (st_error + ValidatorState \<times> EpochMarker) option" where
  "start_epoch lib HashData inp preTimeSlot entropyPool newEntropyPool st newState =
     (let epoch = ToEpoch (TimeSlot inp); preEpoch = ToEpoch preTimeSlot;
          ticketAccumulatorFull = length (TicketAccumulator (Safrole_State st)) = TimeslotsPerEpoch in
      case NullifyOffenders (QueuedValidators st) (Offenders inp) of
        None \<Rightarrow> None
      | Some nextValidators \<Rightarrow>
          let saf = newState\<lparr>NextValidators := nextValidators\<rparr>;
              currentValidators = NextValidators (Safrole_State st);
              archivedValidators = CurrentValidators st in
          (case CalculateRingCommitment lib saf of
             None \<Rightarrow> None
           | Some (Inl err) \<Rightarrow> raise (Err ''unable to calculate ring commitment'')
           | Some (Inr ringCommitment) \<Rightarrow>
               res_bind (sealing_keys HashData
                 (epoch = preEpoch + 1 \<and> \<not> IsTicketSubmissionPeriod preTimeSlot \<and> ticketAccumulatorFull)
                 (TicketAccumulator saf) (newEntropyPool ! 2) currentValidators) (\<lambda>series.
               case validator_ring nextValidators of
                 None \<Rightarrow> None
               | Some keys \<Rightarrow>
                   ret (\<lparr>CurrentValidators = currentValidators, ArchivedValidators = archivedValidators,
                         QueuedValidators = QueuedValidators st,
                         Safrole_State = \<lparr>NextValidators = nextValidators, TicketAccumulator = [],
                           SealingKeySeries = Some series, RingCommitment = ringCommitment\<rparr>\<rparr>,
                        \<lparr>em_Entropy = entropyPool ! 0, TicketsEntropy = entropyPool ! 1, em_Keys = keys\<rparr>))))"

definition winning_tickets :: "Ticket list \<Rightarrow> Ticket list option" where
  "winning_tickets tickets =
     (case OutsideInSequence tickets of
        None \<Rightarrow> None
      | Some winningTickets \<Rightarrow>
          if length winningTickets < TimeslotsPerEpoch then None else Some (take TimeslotsPerEpoch winningTickets))"

definition UpdateSafroleState ::
  "VrfLibrary \<Rightarrow> (bytes \<Rightarrow> Hash) \<Rightarrow> SafroleInput \<Rightarrow> Timeslot \<Rightarrow> EntropyPool \<Rightarrow> ValidatorState \<Rightarrow>
    (st_error + EntropyPool \<times> ValidatorState \<times> SafroleOutput) option" where
  "UpdateSafroleState lib HashData inp preTimeSlot entropyPool st =
     (if TimeSlot inp \<le> preTimeSlot then raise (Err ''bad slot'')
      else
        let nextTimeSlot = TimeSlot inp;
            newEntropyPool = calculateNewEntropyPool HashData preTimeSlot nextTimeSlot (si_Entropy inp) entropyPool in
        if \<not> IsTicketSubmissionPeriod nextTimeSlot \<and> Tickets inp \<noteq> [] then raise (Err ''unexpected ticket'')
        else
          res_bind (submit_tickets lib (Safrole_State st) entropyPool (Tickets inp)) (\<lambda>saf.
            let epoch = ToEpoch nextTimeSlot; preEpoch = ToEpoch preTimeSlot;
                ticketAccumulatorFull = length (TicketAccumulator (Safrole_State st)) = TimeslotsPerEpoch in
            if epoch > preEpoch then
              res_bind (start_epoch lib HashData inp preTimeSlot entropyPool newEntropyPool st saf) (\<lambda>(newState, mark).
                ret (newEntropyPool, newState, \<lparr>EpochMark = Some mark, WinningTicketMark = None\<rparr>))
            else if epoch = preEpoch \<and> IsWinningTicketMarkerPeriod nextTimeSlot preTimeSlot \<and> ticketAccumulatorFull then
              (case winning_tickets (TicketAccumulator saf) of
                 None \<Rightarrow> None
               | Some w \<Rightarrow> ret (newEntropyPool, st\<lparr>Safrole_State := saf\<rparr>, \<lparr>EpochMark = None, WinningTicketMark = Some w\<rparr>))
            else ret (newEntropyPool, st\<lparr>Safrole_State := saf\<rparr>, \<lparr>EpochMark = None, WinningTicketMark = None\<rparr>)))"

section \<open>The outside-in order\<close>

definition outside_in_index :: "nat \<Rightarrow> nat \<Rightarrow> nat" where
  "outside_in_index n i = (if even i then i div 2 else n - 1 - i div 2)"

lemma outside_in_suffix:
  "i + k = length ts \<Longrightarrow>
   outside_in ts i ((i + 1) div 2) (int (length ts) - 1 - int (i div 2)) k =
     Some (map (\<lambda>j. ts ! outside_in_index (length ts) j) [i..<length ts])"
proof (induction k arbitrary: i)
  case (Suc k)
  have IH: "outside_in ts (i + 1) ((i + 1 + 1) div 2) (int (length ts) - 1 - int ((i + 1) div 2)) k =
      Some (map (\<lambda>j. ts ! outside_in_index (length ts) j) [i + 1..<length ts])"
    using Suc.IH [of "i + 1"] Suc.prems by simp
  have i: "i < length ts" using Suc.prems by simp
  then have split: "map (\<lambda>j. ts ! outside_in_index (length ts) j) [i..<length ts] =
      ts ! outside_in_index (length ts) i # map (\<lambda>j. ts ! outside_in_index (length ts) j) [i + 1..<length ts]"
    by (simp add: upt_conv_Cons)
  show ?case
  proof (cases "even i")
    case True
    then have "(i + 1) div 2 = i div 2" "(i + 1 + 1) div 2 = i div 2 + 1" "i div 2 < length ts" using i by auto
    then show ?thesis using IH True split by (simp add: go_index_def outside_in_index_def)
  next
    case False
    then have h: "(i + 1) div 2 = i div 2 + 1" "(i + 1 + 1) div 2 = i div 2 + 1" "Suc (i div 2) < length ts"
      using i by (auto elim!: oddE)
    have "nat (int (length ts) - 1 - int (i div 2)) = length ts - 1 - i div 2" "length ts - 1 - i div 2 < length ts"
      "0 \<le> int (length ts) - 1 - int (i div 2)" "int (length ts) - 1 - int (i div 2) - 1 = int (length ts) - 1 - int (i div 2 + 1)"
      using h(3) by simp_all
    moreover have "outside_in_index (length ts) i = length ts - 1 - i div 2" "i mod 2 \<noteq> 0"
      using False by (simp_all add: outside_in_index_def even_iff_mod_2_eq_zero)
    ultimately show ?thesis
      using IH split unfolding h(1,2) outside_in.simps go_index_def by (simp del: One_nat_def)
  qed
qed simp

lemma OutsideInSequence_eq:
  "OutsideInSequence ts = Some (map (\<lambda>j. ts ! outside_in_index (length ts) j) [0..<length ts])"
  using outside_in_suffix [of 0 "length ts" ts] by (simp add: OutsideInSequence_def Let_def)

lemma outside_in_index_inj: "inj_on (outside_in_index n) {0..<n}"
  by (rule inj_onI) (auto simp: outside_in_index_def elim!: evenE oddE split: if_splits)

lemma outside_in_index_perm: "mset (map (outside_in_index n) [0..<n]) = mset [0..<n]"
proof -
  have "outside_in_index n ` {0..<n} \<subseteq> {0..<n}"
    by (auto simp: outside_in_index_def)
  then have "outside_in_index n ` {0..<n} = {0..<n}"
    by (intro endo_inj_surj outside_in_index_inj) simp_all
  then have "set (map (outside_in_index n) [0..<n]) = set [0..<n]" by simp
  moreover have "distinct (map (outside_in_index n) [0..<n])"
    by (simp add: distinct_map outside_in_index_inj)
  ultimately show ?thesis using set_eq_iff_mset_eq_distinct [of "map (outside_in_index n) [0..<n]" "[0..<n]"]
    by (simp only: distinct_upt)
qed

lemma OutsideInSequence_mset: "OutsideInSequence ts = Some us \<Longrightarrow> mset us = mset ts"
proof -
  assume "OutsideInSequence ts = Some us"
  then have "mset us = image_mset ((!) ts) (mset (map (outside_in_index (length ts)) [0..<length ts]))"
    by (simp add: OutsideInSequence_eq image_mset.compositionality o_def flip: mset_map)
  also have "\<dots> = mset (map ((!) ts) [0..<length ts])"
    unfolding outside_in_index_perm by simp
  finally show ?thesis by (simp add: map_nth)
qed

section \<open>The ticket accumulator\<close>

text \<open>
  The accumulator has at most an epoch of tickets, in ascending order of their identifiers.
\<close>

definition tickets_ok :: "Ticket list \<Rightarrow> bool" where
  "tickets_ok ts \<longleftrightarrow> strictly_ascending (map Identifier ts) \<and> length ts \<le> TimeslotsPerEpoch"

lemma strictly_ascending_iff: "strictly_ascending (xs :: 'a::linorder list) \<longleftrightarrow> sorted_wrt (<) xs"
  by (induction xs rule: strictly_ascending.induct) (auto intro: less_trans)

lemma strictly_ascending_sorted: "strictly_ascending (xs :: 'a::linorder list) \<longleftrightarrow> sorted xs \<and> distinct xs"
  by (simp add: strictly_ascending_iff strict_sorted_iff)

lemma res_map_ret:
  "res_map f xs = ret ys \<longleftrightarrow> length ys = length xs \<and> (\<forall>i < length xs. f (xs ! i) = ret (ys ! i))"
proof (induction xs arbitrary: ys)
  case (Cons x xs)
  show ?case
    by (cases ys) (auto simp: res_bind_ret_iff Cons.IH nth_Cons split: nat.splits)
qed auto

lemma res_map_ret_mem: "res_map f xs = ret ys \<Longrightarrow> y \<in> set ys \<Longrightarrow> \<exists>x \<in> set xs. f x = ret y"
  by (auto simp: res_map_ret in_set_conv_nth) (metis nth_mem)

lemma res_map_total: "(\<And>x. x \<in> set xs \<Longrightarrow> \<exists>y. f x = ret y) \<Longrightarrow> \<exists>ys. res_map f xs = ret ys"
proof (induction xs)
  case (Cons x xs)
  then obtain y ys where "f x = ret y" "res_map f xs = ret ys" by (meson list.set_intros)
  then show ?case by simp
qed simp

lemma ticket_of_proof_result:
  "ticket_of_proof lib rv c e ids tp = ret t \<Longrightarrow> Identifier t \<notin> ids \<and> EntryIndex t < MaxTicketAttempts"
  by (auto simp: ticket_of_proof_def Let_def not_le split: if_splits option.splits)

lemma calculateTickets_result:
  assumes "calculateTickets lib st pool proofs = ret tickets"
  shows "strictly_ascending (map Identifier tickets)" "length tickets = length proofs"
    "Identifier ` set tickets \<inter> Identifier ` set (TicketAccumulator st) = {}" "length proofs \<le> MaxTicketExtrinsicSize"
    "\<forall>t \<in> set tickets. EntryIndex t < MaxTicketAttempts"
proof -
  let ?ids = "Identifier ` set (TicketAccumulator st)"
  obtain rv where rv: "res_map (ticket_of_proof lib rv (RingCommitment st) (pool ! 2) ?ids) proofs = ret tickets"
    and r: "strictly_ascending (map Identifier tickets)" "length proofs \<le> MaxTicketExtrinsicSize"
    using assms by (auto simp: calculateTickets_def res_bind_ret_iff Let_def split: if_splits option.splits sum.splits)
  then show "strictly_ascending (map Identifier tickets)" "length proofs \<le> MaxTicketExtrinsicSize" by simp_all
  show "length tickets = length proofs" using rv by (simp add: res_map_ret)
  have "Identifier t \<notin> ?ids \<and> EntryIndex t < MaxTicketAttempts" if "t \<in> set tickets" for t
    using res_map_ret_mem [OF rv that] ticket_of_proof_result by blast
  then show "Identifier ` set tickets \<inter> ?ids = {}" "\<forall>t \<in> set tickets. EntryIndex t < MaxTicketAttempts" by auto
qed

lemma sort_tickets_ok:
  assumes "tickets_ok old" "strictly_ascending (map Identifier new)" "Identifier ` set new \<inter> Identifier ` set old = {}"
  shows "tickets_ok (take TimeslotsPerEpoch (sort_key Identifier (old @ new)))"
proof -
  let ?all = "sort_key Identifier (old @ new)"
  have "distinct (map Identifier (old @ new))"
    using assms by (auto simp: tickets_ok_def strictly_ascending_sorted)
  moreover have "mset (map Identifier ?all) = mset (map Identifier (old @ new))" by simp
  ultimately have "distinct (map Identifier ?all)" using mset_eq_imp_distinct_iff by blast
  then have "strictly_ascending (take TimeslotsPerEpoch (map Identifier ?all))"
    by (simp add: strictly_ascending_sorted sorted_wrt_take)
  then show ?thesis by (simp add: tickets_ok_def take_map)
qed

lemma submit_tickets_result:
  assumes "submit_tickets lib st pool proofs = ret st'" "tickets_ok (TicketAccumulator st)"
  shows "tickets_ok (TicketAccumulator st')" "NextValidators st' = NextValidators st"
    "SealingKeySeries st' = SealingKeySeries st" "RingCommitment st' = RingCommitment st"
    "\<exists>new. length new = length proofs \<and> Identifier ` set new \<subseteq> Identifier ` set (TicketAccumulator st') \<and>
      TicketAccumulator st' = take TimeslotsPerEpoch (sort_key Identifier (TicketAccumulator st @ new))"
proof -
  have sorted_old: "sort_key Identifier (TicketAccumulator st) = TicketAccumulator st"
    "length (TicketAccumulator st) \<le> TimeslotsPerEpoch"
    using assms(2) by (simp_all add: tickets_ok_def strictly_ascending_sorted sort_key_id_if_sorted)
  have "tickets_ok (TicketAccumulator st') \<and> NextValidators st' = NextValidators st \<and>
    SealingKeySeries st' = SealingKeySeries st \<and> RingCommitment st' = RingCommitment st \<and>
    (\<exists>new. length new = length proofs \<and> Identifier ` set new \<subseteq> Identifier ` set (TicketAccumulator st') \<and>
      TicketAccumulator st' = take TimeslotsPerEpoch (sort_key Identifier (TicketAccumulator st @ new)))"
  proof (cases "proofs = []")
    case True
    then have "st' = st" using assms(1) by (simp add: submit_tickets_def)
    then show ?thesis using True assms(2) sorted_old by (simp add: exI [of _ "[]"])
  next
    case False
    then obtain new where new: "calculateTickets lib st pool proofs = ret new"
      and st': "st' = st\<lparr>TicketAccumulator := take TimeslotsPerEpoch (sort_key Identifier (TicketAccumulator st @ new))\<rparr>"
      and kept: "\<forall>t \<in> set new. Identifier t \<in> Identifier ` set (TicketAccumulator st')"
      using assms(1) by (auto simp: submit_tickets_def res_bind_ret_iff Let_def split: if_splits)
    show ?thesis
      using calculateTickets_result [OF new] sort_tickets_ok [OF assms(2), of new] st' kept by (auto intro!: exI [of _ new])
  qed
  then show "tickets_ok (TicketAccumulator st')" "NextValidators st' = NextValidators st"
    "SealingKeySeries st' = SealingKeySeries st" "RingCommitment st' = RingCommitment st"
    "\<exists>new. length new = length proofs \<and> Identifier ` set new \<subseteq> Identifier ` set (TicketAccumulator st') \<and>
      TicketAccumulator st' = take TimeslotsPerEpoch (sort_key Identifier (TicketAccumulator st @ new))"
    by blast+
qed

section \<open>Validators\<close>

text \<open>
  A full set of validators: none is nil, and keys have their lengths.
\<close>

definition validators_ok :: "ValidatorsData \<Rightarrow> bool" where
  "validators_ok vs \<longleftrightarrow> length vs = NumberOfValidators \<and>
     (\<forall>v \<in> set vs. \<exists>k. v = Some k \<and> length (Ed25519 k) = 32 \<and> length (Bandersnatch k) = 32)"

lemma those_map: "(\<And>x. x \<in> set xs \<Longrightarrow> g x = Some (f x)) \<Longrightarrow> those (map g xs) = Some (map f xs)"
  by (induction xs) simp_all

lemma validator_ring_ok: "validators_ok vs \<Longrightarrow> validator_ring vs = Some (map (Bandersnatch \<circ> the) vs)"
  unfolding validator_ring_def by (rule those_map) (force simp: validators_ok_def)

lemma NullifyOffenders_eq:
  assumes "validators_ok vs" "\<forall>k \<in> set offenders. length k = 32"
  shows "NullifyOffenders vs offenders =
    Some (map (\<lambda>v. if Ed25519 (the v) \<in> set offenders then Some nullified_key else v) vs)"
proof -
  have keys: "those (map to_array32 offenders) = Some offenders"
    using those_map [of offenders to_array32 "\<lambda>k. k"] assms(2) by (simp add: to_array32_def)
  have "those (map (nullify (set offenders)) vs) =
      Some (map (\<lambda>v. if Ed25519 (the v) \<in> set offenders then Some nullified_key else v) vs)"
    using assms(1) by (intro those_map) (force simp: validators_ok_def nullify_def to_array32_def)
  then show ?thesis by (simp add: NullifyOffenders_def keys)
qed

lemma nullified_ok:
  assumes "validators_ok vs"
  shows "validators_ok (map (\<lambda>v. if Ed25519 (the v) \<in> set offenders then Some nullified_key else v) vs)"
  using assms by (auto simp: validators_ok_def nullified_key_def zero_octets_def)

lemma unmarshal_u32_prefix:
  assumes "4 \<le> length b"
  shows "Unmarshal 1 (TPrim KUint32) b dst = ret (VUint (ucast (deserializeTrivialNatural (take 4 b) :: u32)))"
  using br_Read_append [of "take 4 b" 4 "drop 4 b"] assms
  by (auto simp: Unmarshal_def unmarshal_switch_def decodeFixedWidth_def decodeFixedWidth_value_def fixedWidth_value_def)

text \<open>Every fallback key is the key of a current validator.\<close>

lemma fallback_key_ret:
  assumes "\<And>x. length (HashData x) = 32" "validators_ok vs"
  shows "\<exists>k. fallback_key HashData e vs i = ret k \<and> k \<in> Bandersnatch ` the ` set vs"
proof -
  have n: "length vs = 1023" using assms(2) by (simp add: validators_ok_def NumberOfValidators_def)
  define j where "j = unat ((deserializeTrivialNatural (take 4 (HashData (e @ serializeTrivialNatural (ucast i) 4))) :: u32) mod 1023)"
  have j: "j < length vs" unfolding n j_def by (simp add: unat_mod)
  then obtain k where k: "vs ! j = Some k" using assms(2) nth_mem [OF j] unfolding validators_ok_def by blast
  then have "fallback_key HashData e vs i = ret (Bandersnatch k)"
    using j assms(1) by (simp add: fallback_key_def lift_jam_def marshal_u32 unmarshal_u32_prefix Let_def n go_index_def
        as_uint_def flip: j_def del: One_nat_def)
  then show ?thesis using j k nth_mem [OF j] by (force intro!: image_eqI [where x = "Some k"])
qed

lemma SelectFallbackKeys_ret:
  assumes "\<And>x. length (HashData x) = 32" "validators_ok vs"
  shows "\<exists>ks. SelectFallbackKeys HashData e vs = ret ks \<and> length ks = TimeslotsPerEpoch \<and>
    set ks \<subseteq> Bandersnatch ` the ` set vs"
proof -
  let ?f = "\<lambda>i. fallback_key HashData e vs (of_nat i)"
  have f: "\<exists>y. ?f i = ret y \<and> y \<in> Bandersnatch ` the ` set vs" for i
    using assms fallback_key_ret [where HashData = HashData and vs = vs and e = e and i = "of_nat i"] by blast
  then obtain ks where ks: "res_map ?f [0..<TimeslotsPerEpoch] = ret ks"
    using res_map_total [of "[0..<TimeslotsPerEpoch]" ?f] by blast
  moreover have "k \<in> Bandersnatch ` the ` set vs" if k: "k \<in> set ks" for k
  proof -
    obtain i where "?f i = ret k" using res_map_ret_mem [OF ks k] by blast
    then show ?thesis using f [of i] by simp
  qed
  ultimately show ?thesis by (auto simp: SelectFallbackKeys_def res_map_ret)
qed

section \<open>An epoch starts\<close>

lemma start_epoch_result:
  assumes "start_epoch lib HashData inp pre pool pool' st saf = ret (st', mark)"
  shows "CurrentValidators st' = NextValidators (Safrole_State st)" "ArchivedValidators st' = CurrentValidators st"
    "QueuedValidators st' = QueuedValidators st" "TicketAccumulator (Safrole_State st') = []"
    "NullifyOffenders (QueuedValidators st) (Offenders inp) = Some (NextValidators (Safrole_State st'))"
    "em_Entropy mark = pool ! 0" "TicketsEntropy mark = pool ! 1"
    "validator_ring (NextValidators (Safrole_State st')) = Some (em_Keys mark)"
  using assms
  by (auto simp: start_epoch_def Let_def res_bind_ret_iff split: option.splits sum.splits)

lemma winning_tickets_ret:
  "length ts = TimeslotsPerEpoch \<Longrightarrow> \<exists>w. winning_tickets ts = Some w \<and> mset w = mset ts"
  using OutsideInSequence_mset [of ts] by (simp add: winning_tickets_def OutsideInSequence_eq)

lemma sealing_keys_ret:
  assumes "\<And>x. length (HashData x) = 32" "validators_ok vs" "useTickets \<Longrightarrow> length ts = TimeslotsPerEpoch"
  shows "\<exists>s. sealing_keys HashData useTickets ts e vs = ret s"
proof (cases useTickets)
  case True
  then show ?thesis using assms(3) by (simp add: sealing_keys_def OutsideInSequence_eq)
next
  case False
  obtain ks where "SelectFallbackKeys HashData e vs = ret ks"
    using assms(1,2) SelectFallbackKeys_ret [of HashData vs e] by blast
  then show ?thesis using False by (simp add: sealing_keys_def)
qed

text \<open>
  What the library promises for rings: a verifier for any ring of keys, and its commitment.
\<close>

definition rings_available :: "VrfLibrary \<Rightarrow> bool" where
  "rings_available lib \<longleftrightarrow> (\<forall>keys. \<exists>ptr. newRingVrfVerifier lib keys = Some ptr) \<and>
     (\<forall>ptr. \<exists>c. ringVrfVerifierCommitment lib ptr = Some c)"

lemma CalculateRingCommitment_ret:
  assumes "rings_available lib" "validators_ok (NextValidators saf)"
  shows "\<exists>c. CalculateRingCommitment lib saf = Some (Inr c)"
proof -
  obtain ptr where "newRingVrfVerifier lib (flattenPublicKeys (map (Bandersnatch \<circ> the) (NextValidators saf))) = Some ptr"
    using assms(1) unfolding rings_available_def by blast
  moreover obtain c where "ringVrfVerifierCommitment lib ptr = Some c"
    using assms(1) unfolding rings_available_def by blast
  ultimately show ?thesis
    by (simp add: CalculateRingCommitment_def RingVerifier_def validator_ring_ok [OF assms(2)] NewRingVerifier_def Let_def
        Commitment_def)
qed

lemma start_epoch_ret:
  assumes "\<And>x. length (HashData x) = 32" "rings_available lib" "validators_ok (QueuedValidators st)"
    "validators_ok (NextValidators (Safrole_State st))" "\<forall>k \<in> set (Offenders inp). length k = 32"
  shows "\<exists>r. start_epoch lib HashData inp pre pool pool' st (Safrole_State st) = ret r"
proof -
  define next' where "next' = map (\<lambda>v. if Ed25519 (the v) \<in> set (Offenders inp) then Some nullified_key else v) (QueuedValidators st)"
  have ok: "validators_ok next'" unfolding next'_def by (rule nullified_ok) (rule assms(3))
  have null: "NullifyOffenders (QueuedValidators st) (Offenders inp) = Some next'"
    unfolding next'_def by (rule NullifyOffenders_eq) (rule assms(3,5))+
  let ?saf = "Safrole_State st\<lparr>NextValidators := next'\<rparr>"
  let ?use = "ToEpoch (TimeSlot inp) = ToEpoch pre + 1 \<and> \<not> IsTicketSubmissionPeriod pre \<and>
    length (TicketAccumulator (Safrole_State st)) = TimeslotsPerEpoch"
  obtain c where c: "CalculateRingCommitment lib ?saf = Some (Inr c)"
    using CalculateRingCommitment_ret [OF assms(2), of ?saf] ok by auto
  obtain s where s: "sealing_keys HashData ?use (TicketAccumulator (Safrole_State st)) (pool' ! 2)
      (NextValidators (Safrole_State st)) = ret s"
    using sealing_keys_ret [of HashData "NextValidators (Safrole_State st)" ?use] assms(1,4) by blast
  show ?thesis
    using null c s validator_ring_ok [OF ok] by (simp add: start_epoch_def Let_def)
qed

section \<open>Properties\<close>

definition safrole_ok :: "ValidatorState \<Rightarrow> bool" where
  "safrole_ok st \<longleftrightarrow> tickets_ok (TicketAccumulator (Safrole_State st)) \<and> validators_ok (CurrentValidators st) \<and>
     validators_ok (ArchivedValidators st) \<and> validators_ok (QueuedValidators st) \<and>
     validators_ok (NextValidators (Safrole_State st))"

lemma new_entropy_pool:
  assumes "length pool = 4"
  shows "calculateNewEntropyPool HashData pre t y pool =
    (if ToEpoch t > ToEpoch pre then [HashData (pool ! 0 @ y), pool ! 0, pool ! 1, pool ! 2]
     else [HashData (pool ! 0 @ y), pool ! 1, pool ! 2, pool ! 3])"
proof -
  obtain a b c d where "pool = [a, b, c, d]"
    using assms by (auto simp: length_Suc_conv numeral_eq_Suc)
  then show ?thesis by (simp add: calculateNewEntropyPool_def rotateEntropyPool_def Let_def)
qed

text \<open>A library that accepts everything, and a state with one validator a thousand times, for examples.\<close>

definition demo_lib :: VrfLibrary where
  "demo_lib = \<lparr>newSecret = Some, secretPublic = (\<lambda>k. Some (go_copy (zero_octets 32) k)),
     ietfVrfSign = (\<lambda>k m a. Some (go_copy (zero_octets 32) k @ go_copy (zero_octets 64) m)),
     ietfVrfVerify = (\<lambda>k m a s. if take 32 s = k then Some (take 32 (drop 32 s)) else None),
     ietfVrfOutputHash = (\<lambda>s. Some (take 32 s)), newRingVrfVerifier = (\<lambda>ks. Some 0),
     ringVrfVerifierCommitment = (\<lambda>p. Some (zero_octets 144)),
     ringVrfVerifierVerify = (\<lambda>p m a c s. Some (take 32 s)), newRingVrfProver = (\<lambda>k ks i. Some 0),
     ringVrfProverSign = (\<lambda>p m a. Some (zero_octets 784))\<rparr>"

definition demo_validators :: ValidatorsData where
  "demo_validators = replicate NumberOfValidators (Some nullified_key)"

definition demo_state :: ValidatorState where
  "demo_state = \<lparr>CurrentValidators = demo_validators, ArchivedValidators = demo_validators, QueuedValidators = demo_validators,
     Safrole_State = \<lparr>NextValidators = demo_validators, TicketAccumulator = [], SealingKeySeries = None,
       RingCommitment = zero_octets 144\<rparr>\<rparr>"

definition demo_input :: "Timeslot \<Rightarrow> SafroleInput" where
  "demo_input t = \<lparr>TimeSlot = t, Tickets = [], si_Entropy = zero_octets 32, Offenders = []\<rparr>"

lemma demo_validators_ok: "validators_ok demo_validators"
  by (auto simp: validators_ok_def demo_validators_def nullified_key_def zero_octets_def NumberOfValidators_def)

lemma demo_state_ok: "safrole_ok demo_state"
  by (simp add: safrole_ok_def demo_state_def tickets_ok_def demo_validators_ok)


text \<open>
  \<^bold>\<open>Time always advances.\<close> A block without tickets in a later slot is never refused and never
  crashes the transition, whether or not it starts an epoch, provided the library can build rings
  and the validators are well-formed.
\<close>

theorem Safrole_advances:
  assumes "\<And>x. length (HashData x) = 32" "rings_available lib" "safrole_ok st" "\<forall>k \<in> set (Offenders inp). length k = 32"
    "pre < TimeSlot inp" "Tickets inp = []"
  shows "\<exists>pool' st' out. UpdateSafroleState lib HashData inp pre pool st = ret (pool', st', out)"
proof (cases "ToEpoch (TimeSlot inp) > ToEpoch pre")
  case True
  obtain st' mark where "start_epoch lib HashData inp pre pool
      (calculateNewEntropyPool HashData pre (TimeSlot inp) (si_Entropy inp) pool) st (Safrole_State st) = ret (st', mark)"
    using start_epoch_ret [of HashData lib st inp pre pool] assms(1-4) by (fastforce simp: safrole_ok_def)
  then show ?thesis using True assms(5,6) by (simp add: UpdateSafroleState_def submit_tickets_def Let_def)
next
  case False
  show ?thesis
  proof (cases "length (TicketAccumulator (Safrole_State st)) = TimeslotsPerEpoch")
    case True
    then show ?thesis using False assms(5,6) winning_tickets_ret [OF True]
      by (auto simp: UpdateSafroleState_def submit_tickets_def Let_def)
  next
    case notfull: False
    then show ?thesis using False assms(5,6) by (auto simp: UpdateSafroleState_def submit_tickets_def Let_def)
  qed
qed

theorem Safrole_advances_witness:
  "\<exists>pool' st' out. UpdateSafroleState demo_lib (\<lambda>x. zero_octets 32) (demo_input 600) 599
     (replicate 4 (zero_octets 32)) demo_state = ret (pool', st', out)"
  by (rule Safrole_advances)
    (simp_all add: zero_octets_def rings_available_def demo_lib_def demo_input_def demo_state_ok)


end
