(* ===== verification/Mountain_Range.thy ===== *)
theory Mountain_Range
  imports Work_Package
begin

text \<open>
  Merkle mountain ranges (\<^verbatim>\<open>internal/merkle/mountain_ranges/mmr.go\<close>): a list of peaks, some of them
  absent, to which leaves are appended.
\<close>

section \<open>Peaks\<close>

text \<open>
  A peak is a pointer to a hash, \<open>None\<close> for nil. The hashes pointed to are never overwritten.
\<close>

type_synonym peaks = "Hash option list"

definition replacePeakAt :: "peaks \<Rightarrow> nat \<Rightarrow> Hash option \<Rightarrow> peaks" where
  "replacePeakAt peaks index v = peaks[index := v]"

function placePeak :: "peaks \<Rightarrow> Hash \<Rightarrow> nat \<Rightarrow> (bytes \<Rightarrow> Hash) \<Rightarrow> peaks" where
  "placePeak peaks item position hashFunc =
     (if length peaks \<le> position then peaks @ [Some item]
      else case peaks ! position of
        None \<Rightarrow> replacePeakAt peaks position (Some item)
      | Some p \<Rightarrow>
          let combined = p @ item; hash = hashFunc combined in
          placePeak (replacePeakAt peaks position None) hash (position + 1) hashFunc)"
  by pat_completeness auto
termination
  by (relation "measure (\<lambda>(peaks, item, position, hashFunc). length peaks - position)") (auto simp: replacePeakAt_def)

declare placePeak.simps [simp del]

definition Append :: "peaks \<Rightarrow> Hash \<Rightarrow> (bytes \<Rightarrow> Hash) \<Rightarrow> peaks" where
  "Append r l hashFunc = placePeak r l 0 hashFunc"

definition peaks_type :: jtype where
  "peaks_type = TSlice (TPtr hash_type)"

definition peaks_value :: "peaks \<Rightarrow> jval" where
  "peaks_value ps = VList (map (\<lambda>p. VPtr (map_option hash_value p)) ps)"

definition MMR_Encode :: "peaks \<Rightarrow> bytes jam_result" where
  "MMR_Encode ps = Marshal 5 peaks_type (peaks_value ps)"

text \<open>
  \<^verbatim>\<open>SuperPeak\<close> calls itself on the peaks that are not nil, without the last one.
\<close>

function SuperPeak :: "peaks \<Rightarrow> (bytes \<Rightarrow> Hash) \<Rightarrow> Hash" where
  "SuperPeak peaks hashFunc =
     (let validPeaks = filter (\<lambda>peak. peak \<noteq> None) peaks in
      if length validPeaks = 0 then replicate 32 0
      else if length validPeaks = 1 then the (validPeaks ! 0)
      else
        let lastHash = the (validPeaks ! (length validPeaks - 1));
            subPeak = SuperPeak (take (length validPeaks - 1) validPeaks) hashFunc
        in hashFunc (go_bytes ''peak'' @ subPeak @ lastHash))"
  by pat_completeness auto
termination
proof (relation "measure (\<lambda>(peaks, hashFunc). length peaks)")
  fix peaks :: peaks and hashFunc validPeaks lastHash
  assume "validPeaks = filter (\<lambda>peak. peak \<noteq> None) peaks" "length validPeaks \<noteq> 0"
  then have "length validPeaks \<le> length peaks" "0 < length validPeaks" by simp_all
  then show "((take (length validPeaks - 1) validPeaks, hashFunc), peaks, hashFunc) \<in> measure (\<lambda>(peaks, hashFunc). length peaks)"
    by (cases validPeaks) auto
qed simp

declare SuperPeak.simps [simp del]

section \<open>What the peaks are\<close>

text \<open>
  The root of a perfect tree over \<open>2 ^ k\<close> leaves, and the peaks of a sequence of leaves: there is a
  peak at \<open>i\<close> if bit \<open>i\<close> of their number is set, over the leaves behind those of the higher peaks.
\<close>

fun perfect :: "(bytes \<Rightarrow> Hash) \<Rightarrow> nat \<Rightarrow> Hash list \<Rightarrow> Hash" where
  "perfect H 0 ls = hd ls"
| "perfect H (Suc k) ls = H (perfect H k (take (2 ^ k) ls) @ perfect H k (drop (2 ^ k) ls))"

definition behind :: "nat \<Rightarrow> 'a list \<Rightarrow> 'a list" where
  "behind i ls = take (2 ^ i) (drop (length ls div 2 ^ Suc i * 2 ^ Suc i) ls)"

definition peak_at :: "(bytes \<Rightarrow> Hash) \<Rightarrow> Hash list \<Rightarrow> nat \<Rightarrow> Hash option" where
  "peak_at H ls i = (if odd (length ls div 2 ^ i) then Some (perfect H i (behind i ls)) else None)"

definition mountain_range :: "(bytes \<Rightarrow> Hash) \<Rightarrow> Hash list \<Rightarrow> peaks" where
  "mountain_range H ls = foldl (\<lambda>r l. Append r l H) [] ls"


definition peaks_of :: "(bytes \<Rightarrow> Hash) \<Rightarrow> peaks \<Rightarrow> Hash list \<Rightarrow> bool" where
  "peaks_of H r ls \<longleftrightarrow> length ls < 2 ^ length r \<and> (r \<noteq> [] \<longrightarrow> 2 ^ (length r - 1) \<le> length ls) \<and>
     (\<forall>i < length r. r ! i = peak_at H ls i)"

section \<open>Carrying\<close>

text \<open>A number whose low \<open>p\<close> bits are all set, and its successor.\<close>

lemma low_ones:
  assumes "(n :: nat) mod 2 ^ p = 2 ^ p - 1"
  shows "n + 1 = (n div 2 ^ p + 1) * 2 ^ p"
proof -
  have "n div 2 ^ p * 2 ^ p + (2 ^ p - 1) = n" "1 \<le> (2 :: nat) ^ p"
    using assms div_mult_mod_eq [of n "2 ^ p"] by simp_all
  then show ?thesis unfolding add_mult_distrib by linarith
qed

lemma div_power_Suc: "(n :: nat) div 2 ^ Suc i = n div 2 ^ i div 2"
  by (simp only: power_Suc2 div_mult2_eq)

lemma odd_half: "odd (n :: nat) \<Longrightarrow> n = 2 * (n div 2) + 1"
  by (simp add: odd_two_times_div_two_succ)

lemma carry_below:
  assumes "(n :: nat) + 1 = (q + 1) * 2 ^ p" "i < p"
  shows "even ((n + 1) div 2 ^ i)"
proof -
  have "(2 :: nat) ^ p = 2 ^ (p - i) * 2 ^ i" using assms(2) by (simp flip: power_add)
  then have "(n + 1) div 2 ^ i = (q + 1) * 2 ^ (p - i)" using assms(1) by simp
  then show ?thesis using assms(2) by simp
qed

lemma carry_above:
  assumes "(n :: nat) mod 2 ^ p = 2 ^ p - 1" "even (n div 2 ^ p)" "p < i"
  shows "(n + 1) div 2 ^ i = n div 2 ^ i"
proof -
  have i: "(2 :: nat) ^ i = 2 ^ p * (2 * 2 ^ (i - Suc p))"
    using assms(3) by (simp flip: power_add power_Suc)
  have n1: "(n + 1) div 2 ^ p = n div 2 ^ p + 1" using low_ones [OF assms(1)] by simp
  show ?thesis
    unfolding i div_mult2_eq n1 using assms(2) by simp
qed

lemma behind_append:
  assumes "odd (length ls div 2 ^ i)" "(length ls + 1) div 2 ^ Suc i = length ls div 2 ^ Suc i"
  shows "behind i (ls @ [l]) = behind i ls"
proof -
  let ?n = "length ls"
  have "?n div 2 ^ i = 2 * (?n div 2 ^ Suc i) + 1"
    unfolding div_power_Suc using assms(1) by (rule odd_half)
  moreover have "?n div 2 ^ i * 2 ^ i \<le> ?n" by simp
  ultimately have "?n div 2 ^ Suc i * 2 ^ Suc i + 2 ^ i \<le> ?n" by (simp add: algebra_simps)
  then show ?thesis using assms(2) by (simp add: behind_def)
qed

text \<open>
  The number of leaves ends in \<open>p\<close> ones: appending a leaf fills the empty place \<open>p\<close> when the bit
  above them is clear, and joins the peak there with the carried one when it is set.
\<close>

lemma append_fills_place:
  assumes "length ls mod 2 ^ p = 2 ^ p - 1" "even (length ls div 2 ^ p)"
  shows "peak_at H (ls @ [l]) p = Some (perfect H p (drop (length ls + 1 - 2 ^ p) (ls @ [l])))"
    "p < i \<Longrightarrow> peak_at H (ls @ [l]) i = peak_at H ls i"
    "p < k \<Longrightarrow> length ls + 1 \<noteq> 2 ^ k"
proof -
  let ?n = "length ls"
  define q where "q = ?n div 2 ^ p"
  have n1: "?n + 1 = (q + 1) * 2 ^ p" using low_ones [OF assms(1)] by (simp add: q_def)
  have even: "even q" using assms(2) by (simp add: q_def)
  have "(?n + 1) div 2 ^ Suc p * 2 ^ Suc p = q * 2 ^ p"
    unfolding n1 div_power_Suc using even by simp
  moreover have "?n + 1 - 2 ^ p = q * 2 ^ p" unfolding n1 by simp
  moreover have "length (drop (q * 2 ^ p) (ls @ [l])) = 2 ^ p" using n1 by (simp add: algebra_simps)
  moreover have "length (ls @ [l]) = ?n + 1" by simp
  ultimately have "behind p (ls @ [l]) = drop (?n + 1 - 2 ^ p) (ls @ [l])"
    by (simp only: behind_def take_all order_refl)
  moreover have "odd ((?n + 1) div 2 ^ p)" unfolding n1 using even by simp
  ultimately show "peak_at H (ls @ [l]) p = Some (perfect H p (drop (?n + 1 - 2 ^ p) (ls @ [l])))"
    by (simp add: peak_at_def)
  show "peak_at H (ls @ [l]) i = peak_at H ls i" if "p < i"
    using carry_above [OF assms(1), of i] carry_above [OF assms(1), of "Suc i"] assms(2) that
      behind_append [of ls i l] by (simp add: peak_at_def)
  show "?n + 1 \<noteq> 2 ^ k" if "p < k"
  proof
    assume "?n + 1 = 2 ^ k"
    then have "(q + 1) * 2 ^ p = 2 ^ (k - p) * 2 ^ p" using n1 that by (simp flip: power_add)
    then have "q + 1 = 2 ^ (k - p)" by (metis mult_cancel2 power_not_zero zero_neq_numeral)
    moreover have "even ((2 :: nat) ^ (k - p))" using that by simp
    ultimately show False using even by (metis even_plus_one_iff)
  qed
qed

lemma append_joins_peaks:
  assumes "length ls mod 2 ^ p = 2 ^ p - 1" "odd (length ls div 2 ^ p)"
  shows "perfect H (Suc p) (drop (length ls + 1 - 2 ^ Suc p) (ls @ [l])) =
      H (perfect H p (behind p ls) @ perfect H p (drop (length ls + 1 - 2 ^ p) (ls @ [l])))"
    "length ls mod 2 ^ Suc p = 2 ^ Suc p - 1"
proof -
  let ?n = "length ls"
  have q: "?n div 2 ^ p = 2 * (?n div 2 ^ Suc p) + 1"
    using odd_half [OF assms(2)] unfolding div_power_Suc .
  have n1: "?n + 1 = (?n div 2 ^ p + 1) * 2 ^ p" using low_ones [OF assms(1)] by simp
  have le: "?n div 2 ^ Suc p * 2 ^ Suc p + 2 ^ Suc p = ?n + 1"
    unfolding n1 q by (simp add: algebra_simps)
  then have off: "?n + 1 - 2 ^ Suc p = ?n div 2 ^ Suc p * 2 ^ Suc p" by linarith
  have "take (2 ^ p) (drop (?n + 1 - 2 ^ Suc p) (ls @ [l])) = behind p ls"
    using le one_le_power [of "2 :: nat" p] unfolding off behind_def by simp
  moreover have "drop (2 ^ p) (drop (?n + 1 - 2 ^ Suc p) (ls @ [l])) = drop (?n + 1 - 2 ^ p) (ls @ [l])"
    using le by (simp add: off)
  ultimately show "perfect H (Suc p) (drop (?n + 1 - 2 ^ Suc p) (ls @ [l])) =
      H (perfect H p (behind p ls) @ perfect H p (drop (?n + 1 - 2 ^ p) (ls @ [l])))"
    by (simp only: perfect.simps)
  show "?n mod 2 ^ Suc p = 2 ^ Suc p - 1"
    using le div_mult_mod_eq [of ?n "2 ^ Suc p"] by linarith
qed

lemma placePeak_peaks_of:
  assumes "length ls mod 2 ^ p = 2 ^ p - 1" "p \<le> length r" "\<forall>i < p. r ! i = None"
    "\<forall>i. p \<le> i \<longrightarrow> i < length r \<longrightarrow> r ! i = peak_at H ls i"
    "length ls < 2 ^ length r" "r \<noteq> [] \<longrightarrow> 2 ^ (length r - 1) \<le> length ls"
    "item = perfect H p (drop (length ls + 1 - 2 ^ p) (ls @ [l]))"
  shows "peaks_of H (placePeak r item p H) (ls @ [l])"
  using assms
proof (induction r item p H rule: placePeak.induct)
  case (1 r item p H)
  let ?n = "length ls"
  have n1: "?n + 1 = (?n div 2 ^ p + 1) * 2 ^ p" using low_ones [OF "1.prems"(1)] by simp
  have below: "peak_at H (ls @ [l]) i = None" if "i < p" for i
    using carry_below [OF n1 that] by (simp add: peak_at_def)
  consider "length r \<le> p" | "p < length r" "even (?n div 2 ^ p)" | "p < length r" "odd (?n div 2 ^ p)"
    by fastforce
  then show ?case
  proof cases
    case 1
    then have p: "p = length r" using "1.prems"(2) by simp
    then have n: "?n + 1 = 2 ^ p" using n1 "1.prems"(5) by simp
    then have "peak_at H (ls @ [l]) p = Some item"
      using "1.prems"(7) by (simp add: peak_at_def behind_def)
    moreover have "placePeak r item p H = r @ [Some item]" using 1 by (simp add: placePeak.simps)
    ultimately show ?thesis
      using n p below "1.prems"(3) by (auto simp: peaks_of_def nth_append less_Suc_eq)
  next
    case 2
    note fill = append_fills_place [OF "1.prems"(1) 2(2)]
    have "r ! p = None" using 2 "1.prems"(4) by (simp add: peak_at_def)
    then have place: "placePeak r item p H = r[p := Some item]"
      using 2 by (simp add: placePeak.simps replacePeakAt_def)
    have "?n + 1 < 2 ^ length r" using fill(3) [OF 2(1)] "1.prems"(5) by linarith
    moreover have "r[p := Some item] ! i = peak_at H (ls @ [l]) i" if "i < length r" for i
      using fill(1) [of H l] fill(2) [of i H l] below [of i] "1.prems"(3,4,7) 2 that
      by (cases i p rule: linorder_cases) simp_all
    ultimately show ?thesis using place "1.prems"(6) by (auto simp: peaks_of_def)
  next
    case 3
    note join = append_joins_peaks [OF "1.prems"(1) 3(2)]
    define pk where "pk = perfect H p (behind p ls)"
    have some: "r ! p = Some pk" using 3 "1.prems"(4) by (simp add: peak_at_def pk_def)
    have item: "H (pk @ item) = perfect H (Suc p) (drop (?n + 1 - 2 ^ Suc p) (ls @ [l]))"
      unfolding join(1) pk_def "1.prems"(7) ..
    have "peaks_of H (placePeak (replacePeakAt r p None) (H (pk @ item)) (p + 1) H) (ls @ [l])"
      using "1.IH" [of pk] join(2) some item 3 "1.prems"(3-6)
      by (auto simp: replacePeakAt_def nth_list_update less_Suc_eq)
    then show ?thesis using 3 some by (simp add: placePeak.simps [of r])
  qed
qed

lemma mountain_range_peaks: "peaks_of H (mountain_range H ls) ls"
proof (induction ls rule: rev_induct)
  case Nil
  show ?case by (simp add: mountain_range_def peaks_of_def)
next
  case (snoc l ls)
  then have "peaks_of H (placePeak (mountain_range H ls) l 0 H) (ls @ [l])"
    by (intro placePeak_peaks_of) (auto simp: peaks_of_def)
  then show ?case by (simp add: mountain_range_def Append_def)
qed

section \<open>Properties\<close>

text \<open>
  \<^bold>\<open>Appending leaves counts in binary.\<close> After any leaves, there is a peak at \<open>i\<close> exactly if bit
  \<open>i\<close> of their number is set, it is the root of the perfect tree over its \<open>2 ^ i\<close> leaves, and the
  list of peaks is no longer than the number of bits.
\<close>

theorem mountain_range_counts:
  "length ls < 2 ^ length (mountain_range H ls) \<and>
   (\<forall>i < length (mountain_range H ls).
      mountain_range H ls ! i =
        (if odd (length ls div 2 ^ i)
         then Some (perfect H i (take (2 ^ i) (drop (length ls div 2 ^ Suc i * 2 ^ Suc i) ls))) else None)) \<and>
   (mountain_range H ls \<noteq> [] \<longrightarrow> last (mountain_range H ls) \<noteq> None)"
proof -
  let ?r = "mountain_range H ls"
  have r: "length ls < 2 ^ length ?r" "?r \<noteq> [] \<longrightarrow> 2 ^ (length ?r - 1) \<le> length ls"
    "\<forall>i < length ?r. ?r ! i = peak_at H ls i"
    using mountain_range_peaks [of H ls] by (simp_all add: peaks_of_def)
  have "last ?r \<noteq> None" if "?r \<noteq> []"
  proof -
    have "length ls < 2 * 2 ^ (length ?r - 1)"
      using r(1) that by (cases "length ?r") simp_all
    then have "length ls div 2 ^ (length ?r - 1) = 1"
      using r(2) that by (intro div_nat_eqI) simp_all
    then show ?thesis using r(3) that by (simp add: last_conv_nth peak_at_def)
  qed
  then show ?thesis using r by (simp add: peak_at_def behind_def)
qed

theorem mountain_range_counts_witness:
  "length (replicate 5 (replicate 32 (1 :: u8))) < 2 ^ length (mountain_range (take 32) (replicate 5 (replicate 32 1))) \<and>
   last (mountain_range (take 32) (replicate 5 (replicate 32 1))) \<noteq> None"
proof -
  have "mountain_range (take 32) (replicate 5 (replicate 32 1)) \<noteq> []" by code_simp
  then show ?thesis using mountain_range_counts [of "replicate 5 (replicate 32 1)" "take 32"] by blast
qed

end
