(* ===== verification/Jam_State.thy ===== *)
theory Jam_State
  imports Safrole Mountain_Range
begin

text \<open>
  The state of the chain (\<^verbatim>\<open>internal/state\<close>) and the statistics of validators
  (\<^verbatim>\<open>internal/validator/validators.go\<close>).
\<close>

section \<open>Constants\<close>

definition MaxTimeslotsForPreimage :: Timeslot where "MaxTimeslotsForPreimage = 14400"
definition MaxRecentBlocks :: nat where "MaxRecentBlocks = 8"
definition MaxAuthorizersPerCore :: nat where "MaxAuthorizersPerCore = 8"
definition SignatureContextGuarantee :: string where "SignatureContextGuarantee = ''jam_guarantee''"
definition SignatureContextAvailable :: string where "SignatureContextAvailable = ''jam_available''"
definition SignatureContextValid :: string where "SignatureContextValid = ''jam_valid''"
definition SignatureContextInvalid :: string where "SignatureContextInvalid = ''jam_invalid''"
definition WorkReportTimeoutPeriod :: Timeslot where "WorkReportTimeoutPeriod = 5"
definition ValidatorRotationPeriod :: Timeslot where "ValidatorRotationPeriod = 10"
definition WorkReportMaxSumOfDependencies :: nat where "WorkReportMaxSumOfDependencies = 8"

section \<open>The structures\<close>

text \<open>
  An array is a list of its length. A map whose values are empty structures is a set, and a map that
  is only read is the list of its entries. The dictionary of services and the gas of privileged
  services are references into the heap.
\<close>

record Assignment =
  as_WorkReport :: "WorkReport option"
  as_Time :: Timeslot

record Judgements =
  BadWorkReports :: "Hash list"
  GoodWorkReports :: "Hash list"
  WonkyWorkReports :: "Hash list"
  OffendingValidators :: "bytes list"

type_synonym CoreAssignments = "Assignment option list"
type_synonym PendingQueues = "Hash list list"
type_synonym AuthorizersPool = "Hash list list"

record WorkReportWithUnAccumulatedDependencies =
  dep_WorkReport :: WorkReport
  Dependencies :: "Hash set"

type_synonym AccQueue = "WorkReportWithUnAccumulatedDependencies list list"
type_synonym AccHistory = "Hash set list"

record BlockState =
  bs_HeaderHash :: Hash
  StateRoot :: Hash
  AccumulationResultMMR :: peaks
  WorkReportHashes :: "(Hash \<times> Hash) list"

record ValidatorStatistics =
  NumOfBlocks :: u32
  NumOfTickets :: u64
  NumOfPreimages :: u64
  NumOfBytesAllPreimages :: u64
  NumOfGuaranteedReports :: u64
  NumOfAvailabilityAssurances :: u64

type_synonym ValidatorStatisticsState = "ValidatorStatistics list \<times> ValidatorStatistics list"

record State =
  Services :: ref
  st_PrivilegedServices :: PrivilegedServices
  st_ValidatorState :: ValidatorState
  st_EntropyPool :: EntropyPool
  CoreAuthorizersPool :: AuthorizersPool
  st_PendingAuthorizersQueues :: PendingQueues
  st_CoreAssignments :: CoreAssignments
  RecentBlocks :: "BlockState list"
  TimeslotIndex :: Timeslot
  PastJudgements :: Judgements
  st_ValidatorStatistics :: ValidatorStatisticsState
  AccumulationQueue :: AccQueue
  AccumulationHistory :: AccHistory

definition ValidatorStatistics_zero :: ValidatorStatistics where
  "ValidatorStatistics_zero = \<lparr>NumOfBlocks = 0, NumOfTickets = 0, NumOfPreimages = 0, NumOfBytesAllPreimages = 0,
     NumOfGuaranteedReports = 0, NumOfAvailabilityAssurances = 0\<rparr>"

text \<open>A state with nothing in it but validators and the fallback keys of an epoch, for examples.\<close>

definition demo_key :: ValidatorKey where
  "demo_key = nullified_key\<lparr>Bandersnatch := replicate 32 1, Ed25519 := replicate 32 1\<rparr>"

definition demo_chain :: State where
  "demo_chain = \<lparr>Services = None, st_PrivilegedServices = \<lparr>ManagerServiceId = 0, AssignServiceId = 0,
       DesignateServiceId = 0, AmountOfGasPerServiceId = None\<rparr>,
     st_ValidatorState = \<lparr>CurrentValidators = replicate NumberOfValidators (Some demo_key),
       ArchivedValidators = replicate NumberOfValidators (Some demo_key),
       QueuedValidators = replicate NumberOfValidators (Some demo_key),
       Safrole_State = \<lparr>NextValidators = replicate NumberOfValidators (Some demo_key), TicketAccumulator = [],
         SealingKeySeries = Some (EpochKeys (replicate TimeslotsPerEpoch (replicate 32 1))),
         RingCommitment = zero_octets 144\<rparr>\<rparr>,
     st_EntropyPool = replicate 4 (zero_octets 32), CoreAuthorizersPool = replicate TotalNumberOfCores [],
     st_PendingAuthorizersQueues = replicate TotalNumberOfCores (replicate PendingAuthorizersQueueSize (zero_octets 32)),
     st_CoreAssignments = replicate TotalNumberOfCores None, RecentBlocks = [], TimeslotIndex = 0,
     PastJudgements = \<lparr>BadWorkReports = [], GoodWorkReports = [], WonkyWorkReports = [], OffendingValidators = []\<rparr>,
     st_ValidatorStatistics = (replicate NumberOfValidators ValidatorStatistics_zero, replicate NumberOfValidators ValidatorStatistics_zero),
     AccumulationQueue = replicate TimeslotsPerEpoch [], AccumulationHistory = replicate TimeslotsPerEpoch {}\<rparr>"

end
