(* ===== verification/Block_Seal.thy ===== *)
theory Block_Seal
  imports Jam_State
begin

text \<open>
  The seal of a block (\<^verbatim>\<open>internal/state/block_seal.go\<close>): signing a header with the ticket or the
  fallback key of its slot, and verifying it.
\<close>

section \<open>Signing\<close>

definition FallbackSealContext :: string where "FallbackSealContext = ''jam_fallback_seal''"
definition EntropyContext :: string where "EntropyContext = ''jam_entropy''"

definition ErrBlockSealInvalidAuthor :: st_error where
  "ErrBlockSealInvalidAuthor = Err ''invalid block seal author''"

datatype TicketOrKey = TicketOf Ticket | KeyOf bytes

text \<open>
  The two arrays have one entry per slot of an epoch.
\<close>

definition getWinningTicketOrKey :: "Header \<Rightarrow> State \<Rightarrow> (st_error + TicketOrKey) option" where
  "getWinningTicketOrKey header state =
     (let index = unat (TimeslotInEpoch (TimeSlotIndex header));
          sealingKeys = SealingKeySeries (Safrole_State (st_ValidatorState state)) in
      case sealingKeys of
        Some (TicketsBodies v) \<Rightarrow> map_option (Inr \<circ> TicketOf) (go_index v index)
      | Some (EpochKeys v) \<Rightarrow> map_option (Inr \<circ> KeyOf) (go_index v index)
      | None \<Rightarrow> raise (Err ''unexpected type in TicketsOrKeys: %T''))"

definition buildTicketSealContext :: "Hash \<Rightarrow> u8 \<Rightarrow> bytes" where
  "buildTicketSealContext entropy ticketAttempt = (go_bytes TicketSealContext @ entropy) @ [ticketAttempt]"

definition buildTicketFallbackContext :: "Hash \<Rightarrow> bytes" where
  "buildTicketFallbackContext entropy = go_bytes FallbackSealContext @ entropy"

definition buildVRFContext :: "Hash \<Rightarrow> bytes" where
  "buildVRFContext sealOutputHash = go_bytes EntropyContext @ sealOutputHash"

definition signBlockVRFS :: "VrfLibrary \<Rightarrow> Hash \<Rightarrow> bytes \<Rightarrow> (st_error + bytes) option" where
  "signBlockVRFS lib sealOutputHash privateKey =
     (let vrfContext = buildVRFContext sealOutputHash in lift_err (Sign lib privateKey vrfContext []))"

definition encodeUnsealedHeader :: "Header \<Rightarrow> (st_error + bytes) option" where
  "encodeUnsealedHeader header =
     res_bind (lift_jam (Marshal (stack_depth Header_type) Header_type (Header_value header))) (\<lambda>bytes.
       if length bytes < 96 then None else ret (take (length bytes - 96) bytes))"

definition SignBlockWithTicket ::
  "VrfLibrary \<Rightarrow> Header \<Rightarrow> Ticket \<Rightarrow> bytes \<Rightarrow> Hash \<Rightarrow> (st_error + bytes \<times> bytes) option" where
  "SignBlockWithTicket lib header ticket privateKey entropy =
     (let sealContext = buildTicketSealContext entropy (EntryIndex ticket) in
      res_bind (lift_err (Sign lib privateKey sealContext [])) (\<lambda>sealVRFSignature.
      res_bind (lift_err (OutputHash lib sealVRFSignature)) (\<lambda>sealOutputHash.
        if sealOutputHash \<noteq> Identifier ticket then raise ErrBlockSealInvalidAuthor
        else
          res_bind (signBlockVRFS lib sealOutputHash privateKey) (\<lambda>vrfSignature.
          let header = header\<lparr>VRFSignature := vrfSignature\<rparr> in
          res_bind (encodeUnsealedHeader header) (\<lambda>unsealedHeader.
          res_bind (lift_err (Sign lib privateKey sealContext unsealedHeader)) (\<lambda>sealSignature.
            ret (sealSignature, vrfSignature)))))))"

definition SignBlockWithFallback ::
  "VrfLibrary \<Rightarrow> Header \<Rightarrow> bytes \<Rightarrow> bytes \<Rightarrow> Hash \<Rightarrow> (st_error + bytes \<times> bytes) option" where
  "SignBlockWithFallback lib header winningKey privateKey entropy =
     res_bind (lift_err (Public lib privateKey)) (\<lambda>ownerPublicKey.
       if ownerPublicKey \<noteq> winningKey then raise ErrBlockSealInvalidAuthor
       else
         let sealContext = buildTicketFallbackContext entropy in
         res_bind (lift_err (Sign lib privateKey sealContext [])) (\<lambda>sealVRFSignature.
         res_bind (lift_err (OutputHash lib sealVRFSignature)) (\<lambda>sealOutputHash.
         res_bind (signBlockVRFS lib sealOutputHash privateKey) (\<lambda>vrfSignature.
         let header = header\<lparr>VRFSignature := vrfSignature\<rparr> in
         res_bind (encodeUnsealedHeader header) (\<lambda>unsealedHeader.
         res_bind (lift_err (Sign lib privateKey sealContext unsealedHeader)) (\<lambda>sealSignature.
           ret (sealSignature, vrfSignature)))))))"

definition SignBlock ::
  "VrfLibrary \<Rightarrow> Header \<Rightarrow> TicketOrKey \<Rightarrow> bytes \<Rightarrow> Hash \<Rightarrow> (st_error + bytes \<times> bytes) option" where
  "SignBlock lib header ticketOrKey privateKey entropy =
     (case ticketOrKey of
        TicketOf tok \<Rightarrow> SignBlockWithTicket lib header tok privateKey entropy
      | KeyOf tok \<Rightarrow> SignBlockWithFallback lib header tok privateKey entropy)"

definition SealBlock :: "VrfLibrary \<Rightarrow> Header \<Rightarrow> State \<Rightarrow> bytes \<Rightarrow> (st_error + Header) option" where
  "SealBlock lib header state privateKey =
     res_bind (getWinningTicketOrKey header state) (\<lambda>winningTicketOrKey.
       let entropy = st_EntropyPool state ! 3 in
       res_bind (SignBlock lib header winningTicketOrKey privateKey entropy) (\<lambda>(sealSignature, vrfSignature).
         ret (header\<lparr>BlockSealSignature := sealSignature, VRFSignature := vrfSignature\<rparr>)))"

section \<open>Verifying\<close>

fun sealing_key :: "VrfLibrary \<Rightarrow> bytes \<Rightarrow> bytes \<Rightarrow> bytes \<Rightarrow> ValidatorsData \<Rightarrow> bytes" where
  "sealing_key lib sealContext unsealedHeader signature [] = zero_octets 32"
| "sealing_key lib sealContext unsealedHeader signature (None # vs) = sealing_key lib sealContext unsealedHeader signature vs"
| "sealing_key lib sealContext unsealedHeader signature (Some keys # vs) =
     (if fst (Verify lib (Bandersnatch keys) sealContext unsealedHeader signature) then Bandersnatch keys
      else sealing_key lib sealContext unsealedHeader signature vs)"

definition VerifyBlockSignatures ::
  "VrfLibrary \<Rightarrow> Header \<Rightarrow> TicketOrKey \<Rightarrow> ValidatorsData \<Rightarrow> Hash \<Rightarrow> (st_error + bool) option" where
  "VerifyBlockSignatures lib header ticketOrKey currentValidators entropy =
     res_bind (encodeUnsealedHeader header) (\<lambda>unsealedHeader.
     res_bind (lift_err (OutputHash lib (BlockSealSignature header))) (\<lambda>sealOutputHash.
       case ticketOrKey of
         TicketOf tok \<Rightarrow>
           if sealOutputHash \<noteq> Identifier tok then ret False
           else
             let sealContext = buildTicketSealContext entropy (EntryIndex tok);
                 publicKey = sealing_key lib sealContext unsealedHeader (BlockSealSignature header) currentValidators in
             if publicKey = zero_octets 32 then ret False
             else if \<not> fst (Verify lib publicKey (buildVRFContext sealOutputHash) [] (VRFSignature header)) then ret False
             else ret True
       | KeyOf tok \<Rightarrow>
           if \<not> fst (Verify lib tok (buildTicketFallbackContext entropy) unsealedHeader (BlockSealSignature header)) then ret False
           else if \<not> fst (Verify lib tok (buildVRFContext sealOutputHash) [] (VRFSignature header)) then ret False
           else ret True))"

definition VerifyBlockSeal :: "VrfLibrary \<Rightarrow> Header \<Rightarrow> State \<Rightarrow> (st_error + bool) option" where
  "VerifyBlockSeal lib header state =
     res_bind (getWinningTicketOrKey header state) (\<lambda>winningTicketOrKey.
       let entropy = st_EntropyPool state ! 3 in
       VerifyBlockSignatures lib header winningTicketOrKey (CurrentValidators (st_ValidatorState state)) entropy)"

section \<open>The unsealed header\<close>

lemma encode_all_append:
  "encode_all f (xs @ ys) = res_bind (encode_all f xs) (\<lambda>bs. res_bind (encode_all f ys) (\<lambda>cs. ret (bs @ cs)))"
  by (induction xs) (auto simp: res_bind_def split: option.splits sum.splits)

text \<open>
  The encoding of a header ends with the octets of its seal.
\<close>

lemma header_ends_with_seal:
  "\<exists>p. \<forall>s. Marshal (stack_depth Header_type) Header_type (Header_value (h\<lparr>BlockSealSignature := s\<rparr>)) =
     res_bind p (\<lambda>bs. ret (bs @ s))"
proof -
  define d where "d = stack_depth Header_type - 1"
  have d: "stack_depth Header_type = Suc d" "2 \<le> d"
    by (simp_all add: d_def Header_type_def struct_type_def hash_type_def EpochMarker_type_def Ticket_type_def)
  define fs where "fs = butlast (case Header_type of TStruct fs \<Rightarrow> fs | _ \<Rightarrow> [])"
  define vs where "vs = butlast (case Header_value h of VStruct vs \<Rightarrow> vs | _ \<Rightarrow> [])"
  have ty: "Header_type = TStruct (fs @ [(NoTag, octets_type 96)])" "length fs = 9"
    by (simp_all add: fs_def Header_type_def struct_type_def)
  have v: "Header_value (h\<lparr>BlockSealSignature := s\<rparr>) = VStruct (vs @ [hash_value s])" "length vs = 9" for s
    by (simp_all add: vs_def Header_value_def)
  have "Marshal (stack_depth Header_type) Header_type (Header_value (h\<lparr>BlockSealSignature := s\<rparr>)) =
      res_bind (encode_all (encodeStruct_field (marshal d)) (zip fs vs)) (\<lambda>bs. ret (bs @ s))" for s
    unfolding v(1) d(1) unfolding ty(1) using ty(2) v(2) d(2)
    by (simp add: Marshal_def marshal_switch_def handleReflectTypes_encode_def encodeStruct_def encode_all_append
        encodeStruct_field_def marshal_octets)
  then show ?thesis by blast
qed

lemma encodeUnsealedHeader_ignores_seal:
  assumes "length s = 96" "length (BlockSealSignature h) = 96"
  shows "encodeUnsealedHeader (h\<lparr>BlockSealSignature := s\<rparr>) = encodeUnsealedHeader h"
proof -
  obtain p where "\<And>s. Marshal (stack_depth Header_type) Header_type (Header_value (h\<lparr>BlockSealSignature := s\<rparr>)) =
     res_bind p (\<lambda>bs. ret (bs @ s))"
    using header_ends_with_seal by blast
  note p = this [of s] this [of "BlockSealSignature h"]
  show ?thesis using p assms
    by (cases p rule: option.exhaust) (auto simp: encodeUnsealedHeader_def lift_jam_def res_bind_def split: sum.split)
qed

lemma encodeUnsealedHeader_ret:
  assumes "wf_header h"
  shows "\<exists>u. encodeUnsealedHeader h = ret u"
proof -
  obtain bs where bs: "Marshal (stack_depth Header_type) Header_type (Header_value h) = ret bs"
    using Header_roundtrip [OF assms] by (auto simp: Header_Bytes_def)
  obtain p where "\<And>s. Marshal (stack_depth Header_type) Header_type (Header_value (h\<lparr>BlockSealSignature := s\<rparr>)) =
     res_bind p (\<lambda>bs. ret (bs @ s))"
    using header_ends_with_seal by blast
  from this [of "BlockSealSignature h"] have "res_bind p (\<lambda>bs. ret (bs @ BlockSealSignature h)) = ret bs"
    using bs by simp
  then obtain cs where "bs = cs @ BlockSealSignature h" by (auto simp: res_bind_ret_iff)
  moreover have "length (BlockSealSignature h) = 96" using assms by (simp add: wf_header_def hashes_ok_def)
  ultimately show ?thesis using bs by (simp add: encodeUnsealedHeader_def lift_jam_def)
qed

section \<open>Properties\<close>

text \<open>
  What the program relies on of the signatures: a signature has 96 octets; it verifies under the public
  key of its signer and under no other key; and its output hash depends on the key and the input
  only, not on the auxiliary data.
\<close>

definition signature_scheme :: "VrfLibrary \<Rightarrow> bool" where
  "signature_scheme lib \<longleftrightarrow>
     (\<forall>sk m a s. ietfVrfSign lib sk m a = Some s \<longrightarrow> length s = 96) \<and>
     (\<forall>sk m a s pk. ietfVrfSign lib sk m a = Some s \<longrightarrow>
        (ietfVrfVerify lib pk m a s \<noteq> None \<longleftrightarrow> secretPublic lib sk = Some pk)) \<and>
     (\<forall>sk m a a' s s'. ietfVrfSign lib sk m a = Some s \<longrightarrow> ietfVrfSign lib sk m a' = Some s' \<longrightarrow>
        ietfVrfOutputHash lib s = ietfVrfOutputHash lib s')"

lemma lift_err_ret [simp]: "lift_err r = ret x \<longleftrightarrow> r = Inr x"
  by (auto simp: lift_err_def split: sum.splits)

lemma sealing_key_found:
  assumes "\<And>k. fst (Verify lib k c u s) \<longleftrightarrow> k = pk" "Some v \<in> set vs" "Bandersnatch v = pk"
  shows "sealing_key lib c u s vs = pk"
  using assms(2)
proof (induction vs)
  case (Cons x vs)
  then show ?case using assms(1,3) by (cases x) auto
qed simp

lemma sealing_key_mem:
  "sealing_key lib c u s vs \<noteq> zero_octets 32 \<Longrightarrow>
   \<exists>v. Some v \<in> set vs \<and> sealing_key lib c u s vs = Bandersnatch v \<and> fst (Verify lib (Bandersnatch v) c u s)"
  by (induction lib c u s vs rule: sealing_key.induct) (auto split: if_splits)

text \<open>
  Both ways of signing leave the same: a signature of the unsealed header, with the other signature
  in it, over the context of the seal, and the other signature over the output hash of the seal.
\<close>

definition seal_context :: "TicketOrKey \<Rightarrow> Hash \<Rightarrow> bytes" where
  "seal_context tok entropy =
     (case tok of TicketOf t \<Rightarrow> buildTicketSealContext entropy (EntryIndex t) | KeyOf k \<Rightarrow> buildTicketFallbackContext entropy)"

lemma SignBlock_result:
  assumes "signature_scheme lib" "SignBlock lib h tok sk e = ret (seal, vrf)" "length (BlockSealSignature h) = 96"
  obtains u y where "encodeUnsealedHeader (h\<lparr>BlockSealSignature := seal, VRFSignature := vrf\<rparr>) = ret u"
    "ietfVrfSign lib sk (seal_context tok e) u = Some seal" "ietfVrfOutputHash lib seal = Some y"
    "ietfVrfSign lib sk (buildVRFContext y) [] = Some vrf"
    "(case tok of TicketOf t \<Rightarrow> y = Identifier t | KeyOf k \<Rightarrow> secretPublic lib sk = Some k)"
proof -
  obtain u y s0 where r: "encodeUnsealedHeader (h\<lparr>VRFSignature := vrf\<rparr>) = ret u"
    "ietfVrfSign lib sk (seal_context tok e) u = Some seal" "ietfVrfSign lib sk (seal_context tok e) [] = Some s0"
    "ietfVrfOutputHash lib s0 = Some y" "ietfVrfSign lib sk (buildVRFContext y) [] = Some vrf"
    "(case tok of TicketOf t \<Rightarrow> y = Identifier t | KeyOf k \<Rightarrow> secretPublic lib sk = Some k)"
    using assms(2)
    by (auto simp: SignBlock_def SignBlockWithTicket_def SignBlockWithFallback_def signBlockVRFS_def seal_context_def Let_def
        res_bind_ret_iff Sign_iff OutputHash_iff Public_iff split: TicketOrKey.splits if_splits)
  have "length seal = 96" using assms(1) r(2) unfolding signature_scheme_def by blast
  then have "encodeUnsealedHeader (h\<lparr>VRFSignature := vrf, BlockSealSignature := seal\<rparr>) = ret u"
    using r(1) encodeUnsealedHeader_ignores_seal [of seal "h\<lparr>VRFSignature := vrf\<rparr>"] assms(3) by simp
  moreover have "h\<lparr>VRFSignature := vrf, BlockSealSignature := seal\<rparr> = h\<lparr>BlockSealSignature := seal, VRFSignature := vrf\<rparr>"
    by simp
  moreover have "ietfVrfOutputHash lib seal = Some y"
    using assms(1) r(2,3,4) unfolding signature_scheme_def by metis
  ultimately show thesis using that r by simp
qed

lemma demo_lib_scheme: "signature_scheme demo_lib"
  by (simp add: signature_scheme_def demo_lib_def)

lemma demo_lib_simps:
  assumes "length k = 32"
  shows "Sign demo_lib k m a = Inr (k @ go_copy (zero_octets 64) m)" "Public demo_lib k = Inr k"
  using assms by (simp_all add: Sign_def Public_def demo_lib_def go_copy_same_length)

lemma demo_output: "OutputHash demo_lib s = Inr (take 32 s)"
  by (simp add: OutputHash_def demo_lib_def)

lemma Header_zero_wf: "length s = 96 \<Longrightarrow> wf_header (Header_zero\<lparr>VRFSignature := s\<rparr>)"
  by (simp add: wf_header_def Header_zero_def hashes_ok_def)

lemma demo_winner: "getWinningTicketOrKey Header_zero demo_chain = ret (KeyOf (replicate 32 1))"
  by (simp add: getWinningTicketOrKey_def demo_chain_def Header_zero_def TimeslotInEpoch_def go_index_def TimeslotsPerEpoch_def)

lemma demo_seal: "\<exists>h'. SealBlock demo_lib Header_zero demo_chain (replicate 32 1) = ret h'"
proof -
  define k :: bytes where "k = replicate 32 1"
  have k: "length k = 32" by (simp add: k_def)
  define vrf where "vrf = k @ go_copy (zero_octets 64) (buildVRFContext k)"
  have "length vrf = 96" using k by (simp add: vrf_def)
  then obtain u where "encodeUnsealedHeader (Header_zero\<lparr>VRFSignature := vrf\<rparr>) = ret u"
    using encodeUnsealedHeader_ret [OF Header_zero_wf] by blast
  then show ?thesis
    unfolding k_def [symmetric] SealBlock_def demo_winner
    by (simp add: SignBlock_def SignBlockWithFallback_def signBlockVRFS_def lift_err_def Let_def demo_lib_simps demo_output k vrf_def
      flip: k_def)
qed



text \<open>
  C8: \<^bold>\<open>a verified seal has an author.\<close> When \<^verbatim>\<open>VerifyBlockSeal\<close> accepts a header, one key verifies both of
  its signatures: the fallback key of the slot, or the key of a current validator that made a seal
  with the identifier of the ticket of the slot.
\<close>

theorem verified_seal_has_author:
  assumes "VerifyBlockSeal lib h st = ret True"
  shows "\<exists>tok u y k. getWinningTicketOrKey h st = ret tok \<and> encodeUnsealedHeader h = ret u \<and>
    ietfVrfOutputHash lib (BlockSealSignature h) = Some y \<and>
    ietfVrfVerify lib k (seal_context tok (st_EntropyPool st ! 3)) u (BlockSealSignature h) \<noteq> None \<and>
    ietfVrfVerify lib k (buildVRFContext y) [] (VRFSignature h) \<noteq> None \<and>
    (case tok of
       TicketOf t \<Rightarrow> y = Identifier t \<and> (\<exists>v. Some v \<in> set (CurrentValidators (st_ValidatorState st)) \<and> k = Bandersnatch v)
     | KeyOf key \<Rightarrow> k = key)"
proof -
  obtain tok u y where r: "getWinningTicketOrKey h st = ret tok" "encodeUnsealedHeader h = ret u"
    "ietfVrfOutputHash lib (BlockSealSignature h) = Some y"
    using assms by (auto simp: VerifyBlockSeal_def VerifyBlockSignatures_def Let_def res_bind_ret_iff OutputHash_iff)
  show ?thesis
  proof (cases tok)
    case (TicketOf t)
    let ?k = "sealing_key lib (seal_context tok (st_EntropyPool st ! 3)) u (BlockSealSignature h)
      (CurrentValidators (st_ValidatorState st))"
    have k: "?k \<noteq> zero_octets 32" "y = Identifier t" "fst (Verify lib ?k (buildVRFContext y) [] (VRFSignature h))"
      using assms r TicketOf
      by (auto simp: VerifyBlockSeal_def VerifyBlockSignatures_def Let_def lift_err_def OutputHash_def seal_context_def
          split: if_splits)
    then show ?thesis using r TicketOf sealing_key_mem [OF k(1)] unfolding Verify_iff by fastforce
  next
    case (KeyOf key)
    have "fst (Verify lib key (seal_context tok (st_EntropyPool st ! 3)) u (BlockSealSignature h))"
      "fst (Verify lib key (buildVRFContext y) [] (VRFSignature h))"
      using assms r KeyOf
      by (auto simp: VerifyBlockSeal_def VerifyBlockSignatures_def Let_def lift_err_def OutputHash_def seal_context_def
          split: if_splits)
    then show ?thesis using r KeyOf unfolding Verify_iff by auto
  qed
qed

theorem verified_seal_has_author_witness:
  "\<exists>y k. ietfVrfOutputHash demo_lib (replicate 96 1) = Some y \<and>
     ietfVrfVerify demo_lib k (buildVRFContext y) [] (replicate 96 1) \<noteq> None"
proof -
  let ?h = "Header_zero\<lparr>VRFSignature := replicate 96 1, BlockSealSignature := replicate 96 1\<rparr>"
  have "wf_header ?h" by (simp add: wf_header_def Header_zero_def hashes_ok_def zero_octets_def)
  then obtain u where "encodeUnsealedHeader ?h = ret u" using encodeUnsealedHeader_ret by blast
  then have "VerifyBlockSeal demo_lib ?h demo_chain = ret True"
    by (simp add: VerifyBlockSeal_def VerifyBlockSignatures_def getWinningTicketOrKey_def demo_chain_def Header_zero_def
        TimeslotInEpoch_def go_index_def TimeslotsPerEpoch_def lift_err_def OutputHash_def Verify_def demo_lib_def)
  from verified_seal_has_author [OF this] show ?thesis by auto
qed

end
