(* ===== verification/Disputes.thy ===== *)
theory Disputes
  imports Jam_State
begin

text \<open>
  Disputes (\<^verbatim>\<open>CalculateNewJudgements\<close> and its helpers in
  \<^verbatim>\<open>internal/statetransition/state_transition.go\<close>): the verdicts, culprits and faults of a block, checked and
  added to the judgements of the state.
\<close>

section \<open>Signatures and sequences of checks\<close>

text \<open>
  \<^verbatim>\<open>ed25519.Verify\<close> panics on a public key that does not have 32 octets; the check of the signature
  itself is a parameter.
\<close>

type_synonym ed25519 = "bytes \<Rightarrow> bytes \<Rightarrow> bytes \<Rightarrow> bool"

definition ed25519_Verify :: "ed25519 \<Rightarrow> bytes \<Rightarrow> bytes \<Rightarrow> bytes \<Rightarrow> bool option" where
  "ed25519_Verify check publicKey message sig = (if length publicKey \<noteq> 32 then None else Some (check publicKey message sig))"

type_synonym st_check = "(st_error + unit) option"

fun check_all :: "('a \<Rightarrow> st_check) \<Rightarrow> 'a list \<Rightarrow> st_check" where
  "check_all f [] = ret ()"
| "check_all f (x # xs) = res_bind (f x) (\<lambda>_. check_all f xs)"

definition require :: "bool \<Rightarrow> string \<Rightarrow> st_check" where
  "require b e = (if b then ret () else raise (Err e))"

definition require_signature :: "ed25519 \<Rightarrow> bytes \<Rightarrow> bytes \<Rightarrow> bytes \<Rightarrow> st_check" where
  "require_signature check publicKey message sig =
     (case ed25519_Verify check publicKey message sig of None \<Rightarrow> None | Some ok \<Rightarrow> require ok ''bad signature'')"

lemma require_ret [simp]: "require b e = ret u \<longleftrightarrow> b"
  by (simp add: require_def)

lemma check_all_ret [simp]: "check_all f xs = ret u \<longleftrightarrow> (\<forall>x \<in> set xs. f x = ret ())"
  by (induction xs) (auto simp: res_bind_ret_iff)

lemma require_signature_ret [simp]:
  "require_signature check k m s = ret u \<longleftrightarrow> length k = 32 \<and> check k m s"
  by (auto simp: require_signature_def ed25519_Verify_def split: if_splits)

section \<open>The checks\<close>

definition contains :: "Hash list \<Rightarrow> Hash \<Rightarrow> bool" where
  "contains hashes item = list_ex (\<lambda>hash. hash = item) hashes"

definition containsKey :: "bytes list \<Rightarrow> bytes \<Rightarrow> bool" where
  "containsKey keys key = list_ex (\<lambda>k. k = key) keys"

definition verifySortedUnique :: "DisputeExtrinsic \<Rightarrow> st_check" where
  "verifySortedUnique disputes =
     res_bind (require (strictly_ascending (map f_ValidatorEd25519PublicKey (Faults disputes))) ''faults not sorted unique'') (\<lambda>_.
     res_bind (require (strictly_ascending (map v_ReportHash (Verdicts disputes))) ''verdicts not sorted unique'') (\<lambda>_.
       check_all (\<lambda>verdict. require (strictly_ascending (map j_ValidatorIndex (v_Judgements verdict)))
         ''judgements not sorted unique'') (Verdicts disputes)))"

definition vote_context :: "bool \<Rightarrow> string" where
  "vote_context isValid = (if \<not> isValid then SignatureContextInvalid else SignatureContextValid)"

definition verify_judgement :: "ed25519 \<Rightarrow> Verdict \<Rightarrow> ValidatorsData \<Rightarrow> Judgement \<Rightarrow> st_check" where
  "verify_judgement check verdict validatorSet judgment =
     (if j_ValidatorIndex judgment \<ge> of_nat (length validatorSet) then raise (Err ''invalid validator index'')
      else
        let message = go_bytes (vote_context (j_IsValid judgment)) @ v_ReportHash verdict in
        case go_index validatorSet (unat (j_ValidatorIndex judgment)) of
          Some (Some vk) \<Rightarrow> require_signature check (Ed25519 vk) message (j_Signature judgment)
        | _ \<Rightarrow> None)"

definition verifyVerdictSignatures ::
  "ed25519 \<Rightarrow> Timeslot \<Rightarrow> Verdict \<Rightarrow> ValidatorsData \<Rightarrow> ValidatorsData \<Rightarrow> st_check" where
  "verifyVerdictSignatures check newTimeslot verdict currentValidators archivedValidators =
     (let currentEpoch = ToEpoch newTimeslot;
          validatorSet = (if EpochIndex verdict \<noteq> currentEpoch then archivedValidators else currentValidators) in
      res_bind (check_all (verify_judgement check verdict validatorSet) (v_Judgements verdict)) (\<lambda>_.
      res_bind (require (\<not> EpochIndex verdict > currentEpoch) ''bad judgement age'') (\<lambda>_.
        require (\<not> currentEpoch - EpochIndex verdict > 1) ''bad judgement age'')))"

definition verifyAllSignatures :: "ed25519 \<Rightarrow> Timeslot \<Rightarrow> DisputeExtrinsic \<Rightarrow> ValidatorState \<Rightarrow> st_check" where
  "verifyAllSignatures check newTimeslot disputes validators =
     res_bind (check_all (\<lambda>verdict. verifyVerdictSignatures check newTimeslot verdict (CurrentValidators validators)
       (ArchivedValidators validators)) (Verdicts disputes)) (\<lambda>_.
     res_bind (check_all (\<lambda>culprit. require_signature check (c_ValidatorEd25519PublicKey culprit)
       (go_bytes SignatureContextGuarantee @ c_ReportHash culprit) (c_Signature culprit)) (Culprits disputes)) (\<lambda>_.
       check_all (\<lambda>fault. require_signature check (f_ValidatorEd25519PublicKey fault)
         (go_bytes (vote_context (f_IsValid fault)) @ f_ReportHash fault) (f_Signature fault)) (Faults disputes)))"

definition verifyNotAlreadyOffending :: "Fault list \<Rightarrow> bytes list \<Rightarrow> st_check" where
  "verifyNotAlreadyOffending faults offendingValidators =
     check_all (\<lambda>fault. require (\<not> containsKey offendingValidators (f_ValidatorEd25519PublicKey fault))
       ''offender already reported'') faults"

definition verifyNotAlreadyJudged :: "Verdict list \<Rightarrow> Judgements \<Rightarrow> st_check" where
  "verifyNotAlreadyJudged verdicts stateJudgements =
     check_all (\<lambda>verdict. let reportHash = v_ReportHash verdict in
       require (\<not> (contains (GoodWorkReports stateJudgements) reportHash \<or>
         contains (BadWorkReports stateJudgements) reportHash \<or> contains (WonkyWorkReports stateJudgements) reportHash))
         ''already judged'') verdicts"

definition copyJudgements :: "Judgements \<Rightarrow> Judgements" where
  "copyJudgements j = \<lparr>BadWorkReports = BadWorkReports j, GoodWorkReports = GoodWorkReports j,
     WonkyWorkReports = WonkyWorkReports j, OffendingValidators = OffendingValidators j\<rparr>"

text \<open>
  The loops over verdicts that stop at the first one with the hash of the report.
\<close>

definition verdict_of :: "Verdict list \<Rightarrow> Hash \<Rightarrow> Verdict option" where
  "verdict_of verdicts reportHash = List.find (\<lambda>verdict. v_ReportHash verdict = reportHash) verdicts"

definition verifyFaults :: "ed25519 \<Rightarrow> Fault list \<Rightarrow> Verdict list \<Rightarrow> bytes list \<Rightarrow> st_check" where
  "verifyFaults check faults verdicts offendingValidators =
     check_all (\<lambda>fault.
       let allPositive = (case verdict_of verdicts (f_ReportHash fault) of
              None \<Rightarrow> False
            | Some verdict \<Rightarrow> CountPositiveJudgments (v_Judgements verdict) = length (v_Judgements verdict)) in
       res_bind (require (f_IsValid fault \<noteq> allPositive) ''fault verdict wrong'') (\<lambda>_.
       res_bind (require (\<not> containsKey offendingValidators (f_ValidatorEd25519PublicKey fault)) ''offender already reported'') (\<lambda>_.
         require_signature check (f_ValidatorEd25519PublicKey fault)
           (go_bytes (vote_context (f_IsValid fault)) @ f_ReportHash fault) (f_Signature fault)))) faults"

definition verifyCulprits :: "ed25519 \<Rightarrow> Culprit list \<Rightarrow> Hash list \<Rightarrow> bytes list \<Rightarrow> st_check" where
  "verifyCulprits check culprits badReports offendingValidators =
     res_bind (require (strictly_ascending (map c_ValidatorEd25519PublicKey culprits)) ''culprits not sorted unique'') (\<lambda>_.
       check_all (\<lambda>culprit.
         res_bind (require_signature check (c_ValidatorEd25519PublicKey culprit)
           (go_bytes SignatureContextGuarantee @ c_ReportHash culprit) (c_Signature culprit)) (\<lambda>_.
         res_bind (require (contains badReports (c_ReportHash culprit)) ''culprits verdict not bad'') (\<lambda>_.
           require (\<not> containsKey offendingValidators (c_ValidatorEd25519PublicKey culprit)) ''offender already reported'')))
         culprits)"

section \<open>The judgements\<close>

definition append_key :: "bytes list \<Rightarrow> bytes \<Rightarrow> bytes list" where
  "append_key ks k = (if \<not> containsKey ks k then ks @ [k] else ks)"

definition processPositiveVerdict :: "Verdict \<Rightarrow> Fault list \<Rightarrow> Judgements \<Rightarrow> (st_error + Judgements) option" where
  "processPositiveVerdict verdict faults newJudgements =
     (let validFaults = filter (\<lambda>fault. \<not> (f_ReportHash fault \<noteq> v_ReportHash verdict \<or> f_IsValid fault)) faults;
          newJudgements = newJudgements\<lparr>OffendingValidators :=
            foldl (\<lambda>ks fault. append_key ks (f_ValidatorEd25519PublicKey fault)) (OffendingValidators newJudgements) validFaults\<rparr>
      in
      if length validFaults = 0 then raise (Err ''not enough faults'')
      else ret (newJudgements\<lparr>GoodWorkReports := GoodWorkReports newJudgements @ [v_ReportHash verdict]\<rparr>))"

definition processNegativeVerdict :: "Verdict \<Rightarrow> Culprit list \<Rightarrow> Judgements \<Rightarrow> (st_error + Judgements) option" where
  "processNegativeVerdict verdict culprits newJudgements =
     (if length culprits < 2 then raise (Err ''not enough culprits'')
      else ret (newJudgements\<lparr>BadWorkReports := BadWorkReports newJudgements @ [v_ReportHash verdict]\<rparr>))"

definition processWonkyVerdict :: "Verdict \<Rightarrow> Judgements \<Rightarrow> Judgements" where
  "processWonkyVerdict verdict newJudgements =
     newJudgements\<lparr>WonkyWorkReports := WonkyWorkReports newJudgements @ [v_ReportHash verdict]\<rparr>"

definition process_verdict :: "DisputeExtrinsic \<Rightarrow> Verdict \<Rightarrow> Judgements \<Rightarrow> (st_error + Judgements) option" where
  "process_verdict disputes verdict newJudgements =
     (let V = NumberOfValidators; twoThirdsPlusOne = (2 * V div 3) + 1; oneThird = V div 3;
          positiveJudgments = CountPositiveJudgments (v_Judgements verdict) in
      if positiveJudgments = twoThirdsPlusOne then processPositiveVerdict verdict (Faults disputes) newJudgements
      else if positiveJudgments = 0 then processNegativeVerdict verdict (Culprits disputes) newJudgements
      else if positiveJudgments = oneThird then ret (processWonkyVerdict verdict newJudgements)
      else raise (Err ''bad vote split''))"

fun res_fold :: "('a \<Rightarrow> 's \<Rightarrow> ('e + 's) option) \<Rightarrow> 'a list \<Rightarrow> 's \<Rightarrow> ('e + 's) option" where
  "res_fold f [] s = ret s"
| "res_fold f (x # xs) s = res_bind (f x s) (res_fold f xs)"

definition processVerdicts :: "DisputeExtrinsic \<Rightarrow> Judgements \<Rightarrow> (st_error + Judgements) option" where
  "processVerdicts disputes newJudgements = res_fold (process_verdict disputes) (Verdicts disputes) newJudgements"

definition processCulprits :: "ed25519 \<Rightarrow> Culprit list \<Rightarrow> Verdict list \<Rightarrow> Judgements \<Rightarrow> (st_error + Judgements) option" where
  "processCulprits check culprits verdicts newJudgements =
     res_bind (check_all (\<lambda>culprit.
       case verdict_of verdicts (c_ReportHash culprit) of
         None \<Rightarrow> raise (Err ''culprits verdict not bad'')
       | Some verdict \<Rightarrow> require (\<not> CountPositiveJudgments (v_Judgements verdict) > 0) ''bad vote split'') culprits) (\<lambda>_.
     res_bind (verifyCulprits check culprits (BadWorkReports newJudgements) (OffendingValidators newJudgements)) (\<lambda>_.
       ret (newJudgements\<lparr>OffendingValidators :=
         foldl (\<lambda>ks culprit. append_key ks (c_ValidatorEd25519PublicKey culprit)) (OffendingValidators newJudgements) culprits\<rparr>)))"

text \<open>Every error returns the judgements of the state beside it.\<close>

definition CalculateNewJudgements ::
  "ed25519 \<Rightarrow> Timeslot \<Rightarrow> DisputeExtrinsic \<Rightarrow> Judgements \<Rightarrow> ValidatorState \<Rightarrow> (st_error + Judgements) option" where
  "CalculateNewJudgements check newTimeslot disputes stateJudgements validators =
     res_bind (verifySortedUnique disputes) (\<lambda>_.
     res_bind (verifyAllSignatures check newTimeslot disputes validators) (\<lambda>_.
     res_bind (verifyNotAlreadyOffending (Faults disputes) (OffendingValidators stateJudgements)) (\<lambda>_.
     res_bind (verifyNotAlreadyJudged (Verdicts disputes) stateJudgements) (\<lambda>_.
       let newJudgements = copyJudgements stateJudgements in
       res_bind (verifyFaults check (Faults disputes) (Verdicts disputes) (OffendingValidators stateJudgements)) (\<lambda>_.
       res_bind (processVerdicts disputes newJudgements) (\<lambda>newJudgements.
         processCulprits check (Culprits disputes) (Verdicts disputes) newJudgements))))))"

section \<open>What the loops collect\<close>

abbreviation votes :: "Verdict \<Rightarrow> nat" where
  "votes v \<equiv> CountPositiveJudgments (v_Judgements v)"

lemma contains_iff [simp]: "contains hs h \<longleftrightarrow> h \<in> set hs" "containsKey ks k \<longleftrightarrow> k \<in> set ks"
  by (auto simp: contains_def containsKey_def list_ex_iff)

lemma copyJudgements_id [simp]: "copyJudgements j = j"
  by (cases j) (simp add: copyJudgements_def)

lemma append_keys:
  "set (foldl (\<lambda>ks x. append_key ks (f x)) ks xs) = set ks \<union> f ` set xs"
  "distinct ks \<Longrightarrow> distinct (foldl (\<lambda>ks x. append_key ks (f x)) ks xs)"
  by (induction xs arbitrary: ks) (auto simp: append_key_def)

lemma vote_counts: "ValidatorsSuperMajority = 683" "NumberOfValidators div 3 = 341" "2 * NumberOfValidators div 3 + 1 = 683"
  by (simp_all add: ValidatorsSuperMajority_def NumberOfValidators_def)

lemma process_verdict_result:
  assumes "process_verdict d v j = ret j'"
  shows "votes v \<in> {683, 0, 341} \<and>
    GoodWorkReports j' = GoodWorkReports j @ (if votes v = 683 then [v_ReportHash v] else []) \<and>
    BadWorkReports j' = BadWorkReports j @ (if votes v = 0 then [v_ReportHash v] else []) \<and>
    WonkyWorkReports j' = WonkyWorkReports j @ (if votes v = 341 then [v_ReportHash v] else []) \<and>
    set (OffendingValidators j') = set (OffendingValidators j) \<union> f_ValidatorEd25519PublicKey `
      {f \<in> set (Faults d). \<not> f_IsValid f \<and> votes v = 683 \<and> v_ReportHash v = f_ReportHash f} \<and>
    (distinct (OffendingValidators j) \<longrightarrow> distinct (OffendingValidators j'))"
  using assms
  by (auto simp: process_verdict_def processPositiveVerdict_def processNegativeVerdict_def processWonkyVerdict_def Let_def
      NumberOfValidators_def append_keys split: if_splits)

lemma processVerdicts_result:
  "res_fold (process_verdict d) vs j = ret j' \<Longrightarrow>
    (\<forall>v \<in> set vs. votes v \<in> {683, 0, 341}) \<and>
    GoodWorkReports j' = GoodWorkReports j @ map v_ReportHash (filter (\<lambda>v. votes v = 683) vs) \<and>
    BadWorkReports j' = BadWorkReports j @ map v_ReportHash (filter (\<lambda>v. votes v = 0) vs) \<and>
    WonkyWorkReports j' = WonkyWorkReports j @ map v_ReportHash (filter (\<lambda>v. votes v = 341) vs) \<and>
    set (OffendingValidators j') = set (OffendingValidators j) \<union> f_ValidatorEd25519PublicKey `
      {f \<in> set (Faults d). \<not> f_IsValid f \<and> (\<exists>v \<in> set vs. votes v = 683 \<and> v_ReportHash v = f_ReportHash f)} \<and>
    (distinct (OffendingValidators j) \<longrightarrow> distinct (OffendingValidators j'))"
proof (induction vs arbitrary: j)
  case (Cons v vs)
  then obtain j1 where "process_verdict d v j = ret j1" "res_fold (process_verdict d) vs j1 = ret j'"
    by (auto simp: res_bind_ret_iff)
  then show ?case using process_verdict_result [of d v j j1] Cons.IH [of j1] by auto
qed simp

text \<open>
  Three groups of verdicts with distinct reports, none of which is judged, keep the judged reports
  distinct.
\<close>

lemma judged_once:
  assumes "distinct (g @ b @ w)" "distinct (map h vs)" "h ` set vs \<inter> set (g @ b @ w) = {}"
    "\<And>v. \<not> (P v \<and> Q v)" "\<And>v. \<not> (P v \<and> R v)" "\<And>v. \<not> (Q v \<and> R v)"
  shows "distinct ((g @ map h (filter P vs)) @ (b @ map h (filter Q vs)) @ (w @ map h (filter R vs)))"
proof -
  have inj: "v = v'" if "v \<in> set vs" "v' \<in> set vs" "h v = h v'" for v v'
    using assms(2) that by (auto simp: distinct_map dest: inj_onD)
  have part: "distinct (map h (filter P' vs))" "set (map h (filter P' vs)) \<inter> set (g @ b @ w) = {}" for P'
    using assms(2,3) by (auto simp: distinct_map inj_on_filter_key_eq intro: inj_on_subset)
  have sep: "set (map h (filter P' vs)) \<inter> set (map h (filter Q' vs)) = {}" if "\<And>v. \<not> (P' v \<and> Q' v)" for P' Q'
    unfolding disjoint_iff using that by (auto, metis inj)
  show ?thesis
    using assms(1) part [of P] part [of Q] part [of R] sep [of P Q, OF assms(4)] sep [of P R, OF assms(5)] sep [of Q R, OF assms(6)]
    by auto
qed

text \<open>A verdict of 683 negative votes with its two culprits, for examples.\<close>

definition demo_disputes :: DisputeExtrinsic where
  "demo_disputes = \<lparr>Verdicts = [\<lparr>v_ReportHash = replicate 32 7, EpochIndex = 0, v_Judgements =
       map (\<lambda>i. \<lparr>j_IsValid = False, j_ValidatorIndex = of_nat i, j_Signature = zero_octets 64\<rparr>) [0..<ValidatorsSuperMajority]\<rparr>],
     Culprits = [\<lparr>c_ReportHash = replicate 32 7, c_ValidatorEd25519PublicKey = replicate 32 1, c_Signature = zero_octets 64\<rparr>,
       \<lparr>c_ReportHash = replicate 32 7, c_ValidatorEd25519PublicKey = replicate 32 2, c_Signature = zero_octets 64\<rparr>],
     Faults = []\<rparr>"

abbreviation any_signature :: ed25519 where
  "any_signature \<equiv> \<lambda>key message sig. True"

lemma CountPositiveJudgments_eq: "CountPositiveJudgments js = length (filter j_IsValid js)"
proof -
  have "foldl (\<lambda>count j. if j_IsValid j then count + 1 else count) n js = n + length (filter j_IsValid js)" for n :: nat
    by (induction js arbitrary: n) simp_all
  then show ?thesis by (simp add: CountPositiveJudgments_def)
qed

lemma unat16_small: "i < 683 \<Longrightarrow> unat (of_nat i :: u16) = i"
  by (simp add: unsigned_of_nat take_bit_nat_eq_self)

lemma demo_indices: "strictly_ascending (map (\<lambda>i. of_nat i :: u16) [0..<683])"
  by (auto simp: strictly_ascending_iff sorted_wrt_map sorted_wrt_iff_nth_less word_less_nat_alt unat16_small)

lemma demo_judgement:
  "i < 683 \<Longrightarrow> verify_judgement any_signature v (CurrentValidators (st_ValidatorState demo_chain))
     \<lparr>j_IsValid = b, j_ValidatorIndex = of_nat i, j_Signature = s\<rparr> = ret ()"
  by (simp add: verify_judgement_def demo_chain_def NumberOfValidators_def word_le_nat_alt unat16_small go_index_def
      demo_key_def require_signature_def ed25519_Verify_def require_def)

lemma demo_accepted:
  "CalculateNewJudgements any_signature 0 demo_disputes (PastJudgements demo_chain) (st_ValidatorState demo_chain) =
     ret \<lparr>BadWorkReports = [replicate 32 7], GoodWorkReports = [], WonkyWorkReports = [],
          OffendingValidators = [replicate 32 1, replicate 32 2]\<rparr>"
proof -
  have votes: "votes (hd (Verdicts demo_disputes)) = 0"
    by (simp add: demo_disputes_def CountPositiveJudgments_eq filter_empty_conv)
  have order: "(replicate 32 1 :: bytes) < replicate 32 2" by (simp add: numeral_eq_Suc)
  have "verifySortedUnique demo_disputes = ret ()"
    using demo_indices by (simp add: verifySortedUnique_def demo_disputes_def require_def o_def vote_counts)
  moreover have "verifyAllSignatures any_signature 0 demo_disputes (st_ValidatorState demo_chain) = ret ()"
    using demo_judgement by (simp add: verifyAllSignatures_def demo_disputes_def verifyVerdictSignatures_def ToEpoch_def
        res_bind_ret_iff vote_counts)
  ultimately show ?thesis
    using votes order
    by (simp add: CalculateNewJudgements_def verifyNotAlreadyOffending_def verifyNotAlreadyJudged_def verifyFaults_def
        processVerdicts_def process_verdict_def processNegativeVerdict_def processCulprits_def verdict_of_def verifyCulprits_def
        NumberOfValidators_def demo_disputes_def demo_chain_def require_def require_signature_def ed25519_Verify_def append_key_def)
qed

section \<open>Properties\<close>

text \<open>
  C9: \<^bold>\<open>a report is judged once.\<close> When the disputes of a block are accepted, every verdict has 683, 341
  or no positive votes, and its report is added to the good, wonky or bad reports. Reports judged
  earlier keep their judgement, and no report appears twice, in one list or in two. The new offenders
  are the culprits and the validators that voted against a good report; a fault that voted for a bad
  report adds nobody.
\<close>

theorem judgements_grow:
  assumes "CalculateNewJudgements check t d j st = ret j'"
    "distinct (GoodWorkReports j @ BadWorkReports j @ WonkyWorkReports j)" "distinct (OffendingValidators j)"
  shows "distinct (GoodWorkReports j' @ BadWorkReports j' @ WonkyWorkReports j') \<and> distinct (OffendingValidators j') \<and>
    (\<forall>v \<in> set (Verdicts d). votes v \<in> {ValidatorsSuperMajority, 0, NumberOfValidators div 3}) \<and>
    GoodWorkReports j' = GoodWorkReports j @ map v_ReportHash (filter (\<lambda>v. votes v = ValidatorsSuperMajority) (Verdicts d)) \<and>
    BadWorkReports j' = BadWorkReports j @ map v_ReportHash (filter (\<lambda>v. votes v = 0) (Verdicts d)) \<and>
    WonkyWorkReports j' = WonkyWorkReports j @ map v_ReportHash (filter (\<lambda>v. votes v = NumberOfValidators div 3) (Verdicts d)) \<and>
    set (OffendingValidators j') = set (OffendingValidators j) \<union>
      f_ValidatorEd25519PublicKey ` {f \<in> set (Faults d). \<not> f_IsValid f \<and>
        (\<exists>v \<in> set (Verdicts d). votes v = ValidatorsSuperMajority \<and> v_ReportHash v = f_ReportHash f)} \<union>
      c_ValidatorEd25519PublicKey ` set (Culprits d)"
proof -
  obtain j1 where sorted: "distinct (map v_ReportHash (Verdicts d))"
    and new: "v_ReportHash ` set (Verdicts d) \<inter> set (GoodWorkReports j @ BadWorkReports j @ WonkyWorkReports j) = {}"
    and j1: "res_fold (process_verdict d) (Verdicts d) j = ret j1"
    and j': "j' = j1\<lparr>OffendingValidators := foldl (\<lambda>ks c. append_key ks (c_ValidatorEd25519PublicKey c)) (OffendingValidators j1)
      (Culprits d)\<rparr>"
    using assms(1)
    by (auto simp: CalculateNewJudgements_def verifySortedUnique_def verifyNotAlreadyJudged_def processVerdicts_def
        processCulprits_def Let_def res_bind_ret_iff strictly_ascending_sorted)
  note r = processVerdicts_result [OF j1]
  have "distinct (GoodWorkReports j1 @ BadWorkReports j1 @ WonkyWorkReports j1)"
    unfolding r [THEN conjunct2, THEN conjunct1] r [THEN conjunct2, THEN conjunct2, THEN conjunct1]
      r [THEN conjunct2, THEN conjunct2, THEN conjunct2, THEN conjunct1]
    by (rule judged_once [OF assms(2) sorted new]) auto
  then show ?thesis using r assms(3) j' by (auto simp: vote_counts append_keys)
qed

text \<open>
  C10: \<^bold>\<open>an accepted verdict is signed.\<close> The judgements of an accepted verdict come from validators with
  ascending, hence distinct, indices, each within its set: the current one if the verdict is of the
  current epoch, else the archived one; each is signed for the vote and the report; and the epoch of the
  verdict is the current one or the one before it.
\<close>

theorem accepted_verdicts_signed:
  assumes "CalculateNewJudgements check t d j st = ret j'" "v \<in> set (Verdicts d)" "g \<in> set (v_Judgements v)"
    "length (CurrentValidators st) = NumberOfValidators" "length (ArchivedValidators st) = NumberOfValidators"
  shows "strictly_ascending (map j_ValidatorIndex (v_Judgements v)) \<and> unat (j_ValidatorIndex g) < NumberOfValidators \<and>
    (unat (EpochIndex v) = unat (ToEpoch t) \<or> unat (EpochIndex v) + 1 = unat (ToEpoch t)) \<and>
    (\<exists>k. (if EpochIndex v = ToEpoch t then CurrentValidators st else ArchivedValidators st) ! unat (j_ValidatorIndex g) = Some k \<and>
      check (Ed25519 k) (go_bytes (vote_context (j_IsValid g)) @ v_ReportHash v) (j_Signature g))"
proof -
  let ?set = "if EpochIndex v \<noteq> ToEpoch t then ArchivedValidators st else CurrentValidators st"
  have sorted: "strictly_ascending (map j_ValidatorIndex (v_Judgements v))"
    and vs: "verifyVerdictSignatures check t v (CurrentValidators st) (ArchivedValidators st) = ret ()"
    using assms(1,2)
    by (auto simp: CalculateNewJudgements_def verifySortedUnique_def verifyAllSignatures_def res_bind_ret_iff Let_def)
  have ages: "EpochIndex v \<le> ToEpoch t" "ToEpoch t - EpochIndex v \<le> 1"
    and g: "verify_judgement check v ?set g = ret ()"
    using vs assms(3) by (auto simp: verifyVerdictSignatures_def Let_def res_bind_ret_iff not_less)
  have "unat (ToEpoch t - EpochIndex v) = unat (ToEpoch t) - unat (EpochIndex v)" using ages(1) by (rule unat_sub)
  then have "unat (ToEpoch t) - unat (EpochIndex v) \<le> 1" "unat (EpochIndex v) \<le> unat (ToEpoch t)"
    using ages by (simp_all add: word_le_nat_alt)
  then have epoch: "unat (EpochIndex v) = unat (ToEpoch t) \<or> unat (EpochIndex v) + 1 = unat (ToEpoch t)" by linarith
  have n: "length ?set = 1023" using assms(4,5) by (simp add: NumberOfValidators_def)
  have "unat (j_ValidatorIndex g) < 1023" "\<exists>k. ?set ! unat (j_ValidatorIndex g) = Some k \<and>
      check (Ed25519 k) (go_bytes (vote_context (j_IsValid g)) @ v_ReportHash v) (j_Signature g)"
    using g unfolding verify_judgement_def n
    by (auto simp: Let_def not_le word_less_nat_alt go_index_def split: if_splits option.splits)
  then show ?thesis using sorted epoch by (auto simp: NumberOfValidators_def)
qed

theorem judgements_grow_witness:
  "BadWorkReports (PastJudgements demo_chain) = [] \<and>
   (\<exists>j'. CalculateNewJudgements any_signature 0 demo_disputes (PastJudgements demo_chain) (st_ValidatorState demo_chain) = ret j' \<and>
     BadWorkReports j' = map v_ReportHash (filter (\<lambda>v. votes v = 0) (Verdicts demo_disputes)) \<and> distinct (OffendingValidators j'))"
  using judgements_grow [OF demo_accepted] demo_accepted by (auto simp: demo_chain_def)

theorem accepted_verdicts_signed_witness:
  "\<exists>v g. v \<in> set (Verdicts demo_disputes) \<and> g \<in> set (v_Judgements v) \<and> unat (j_ValidatorIndex g) < NumberOfValidators"
proof -
  let ?v = "hd (Verdicts demo_disputes)"
  have "?v \<in> set (Verdicts demo_disputes)" by (simp add: demo_disputes_def)
  moreover have "hd (v_Judgements ?v) \<in> set (v_Judgements ?v)"
    by (rule hd_in_set) (simp add: demo_disputes_def vote_counts)
  moreover have "length (CurrentValidators (st_ValidatorState demo_chain)) = NumberOfValidators"
    "length (ArchivedValidators (st_ValidatorState demo_chain)) = NumberOfValidators" by (simp_all add: demo_chain_def)
  ultimately show ?thesis using accepted_verdicts_signed [OF demo_accepted] by blast
qed

end
