(* ===== verification/Availability.thy ===== *)
theory Availability
  imports Disputes
begin

text \<open>
  Reports that wait on the cores (the intermediate assignments of
  \<^verbatim>\<open>internal/statetransition/state_transition.go\<close>): verdicts clear reports, assurances make them available,
  and reports that wait too long are dropped.
\<close>

section \<open>Assignments\<close>

text \<open>\<open>Time + WorkReportTimeoutPeriod\<close> is a sum of timeslots, which wraps.\<close>

definition isAssignmentStale :: "Assignment option \<Rightarrow> Timeslot \<Rightarrow> bool" where
  "isAssignmentStale currentAssignment newTimeslot =
     (case currentAssignment of None \<Rightarrow> False | Some a \<Rightarrow> newTimeslot \<ge> as_Time a + WorkReportTimeoutPeriod)"

definition isAssignmentValid :: "Assignment option \<Rightarrow> Timeslot \<Rightarrow> bool" where
  "isAssignmentValid currentAssignment newTimeslot =
     (case currentAssignment of
        None \<Rightarrow> True
      | Some a \<Rightarrow> as_WorkReport a = None \<or> isAssignmentStale currentAssignment newTimeslot)"

text \<open>
  A verdict without a supermajority clears the cores whose report it names. A report that cannot be
  encoded stays: its error is passed over.
\<close>

definition clear_judged :: "(bytes \<Rightarrow> Hash) \<Rightarrow> Hash \<Rightarrow> Assignment option \<Rightarrow> Assignment option option" where
  "clear_judged HashData reportHash assignment =
     (case assignment of
        None \<Rightarrow> Some None
      | Some a \<Rightarrow>
          (case WorkReport_Hash HashData (as_WorkReport a) of
             None \<Rightarrow> None
           | Some (Inl err) \<Rightarrow> Some assignment
           | Some (Inr hash) \<Rightarrow> Some (if hash = reportHash then None else assignment)))"

fun CalculateIntermediateCoreAssignmentsFromVerdicts ::
  "(bytes \<Rightarrow> Hash) \<Rightarrow> Verdict list \<Rightarrow> CoreAssignments \<Rightarrow> CoreAssignments option" where
  "CalculateIntermediateCoreAssignmentsFromVerdicts HashData [] newAssignments = Some newAssignments"
| "CalculateIntermediateCoreAssignmentsFromVerdicts HashData (verdict # vs) newAssignments =
     (let positiveJudgments = CountPositiveJudgments (v_Judgements verdict) in
      if positiveJudgments < ValidatorsSuperMajority then
        (case those (map (clear_judged HashData (v_ReportHash verdict)) newAssignments) of
           None \<Rightarrow> None
         | Some cleared \<Rightarrow> CalculateIntermediateCoreAssignmentsFromVerdicts HashData vs cleared)
      else CalculateIntermediateCoreAssignmentsFromVerdicts HashData vs newAssignments)"

definition CalculateIntermediateCoreAssignmentsFromExtrinsics ::
  "(bytes \<Rightarrow> Hash) \<Rightarrow> DisputeExtrinsic \<Rightarrow> CoreAssignments \<Rightarrow> CoreAssignments option" where
  "CalculateIntermediateCoreAssignmentsFromExtrinsics HashData disputes coreAssignments =
     CalculateIntermediateCoreAssignmentsFromVerdicts HashData (Verdicts disputes) coreAssignments"

section \<open>Assurances\<close>

text \<open>
  The assurances of one core: \<^verbatim>\<open>availabilityCounts\<close> has an entry for it when the number is not 0.
\<close>

definition count_assurance :: "Assignment option \<Rightarrow> Timeslot \<Rightarrow> u16 \<Rightarrow> Assurance \<Rightarrow> nat \<Rightarrow> (st_error + nat) option" where
  "count_assurance assignment slot coreIndex assurance n =
     (case HasAssuranceForCore assurance coreIndex of
        None \<Rightarrow> None
      | Some False \<Rightarrow> ret n
      | Some True \<Rightarrow>
          if assignment = None then raise (Err ''core not engaged'')
          else if isAssignmentStale assignment slot then raise (Err ''report timeout'')
          else ret (n + 1))"

definition core_availability ::
  "Assurance list \<Rightarrow> Timeslot \<Rightarrow> nat \<times> Assignment option \<Rightarrow> (st_error + nat) option" where
  "core_availability assurances slot = (\<lambda>(coreIndex, assignment).
     res_fold (count_assurance assignment slot (of_nat coreIndex)) assurances 0)"

text \<open>The assignment that a core keeps, and the report that leaves it.\<close>

definition update_core :: "Timeslot \<Rightarrow> nat \<Rightarrow> Assignment option \<Rightarrow> Assignment option \<times> WorkReport option list" where
  "update_core slot availCountForCore assignment =
     (let (a, removed) =
        (case assignment of
           Some x \<Rightarrow> if availCountForCore > AvailabilityThreshold then (None, [as_WorkReport x]) else (assignment, [])
         | None \<Rightarrow> (assignment, []))
      in (if isAssignmentStale a slot then None else a, removed))"

definition CalculateIntermediateCoreAssignmentsFromAvailability ::
  "Assurance list \<Rightarrow> CoreAssignments \<Rightarrow> Header \<Rightarrow> (st_error + CoreAssignments \<times> WorkReport option list) option" where
  "CalculateIntermediateCoreAssignmentsFromAvailability assurances coreAssignments header =
     res_bind (res_map (core_availability assurances (TimeSlotIndex header)) (zip [0..<TotalNumberOfCores] coreAssignments)) (\<lambda>counts.
       let updated = map (\<lambda>(n, a). update_core (TimeSlotIndex header) n a) (zip counts coreAssignments)
       in ret (map fst updated, concat (map snd updated)))"

text \<open>\<^verbatim>\<open>slices.IsSortedFunc\<close> lets equal neighbours pass.\<close>

definition assuranceIsOrderedByValidatorIndex :: "Assurance list \<Rightarrow> bool" where
  "assuranceIsOrderedByValidatorIndex assurances = sorted (map a_ValidatorIndex assurances)"

definition assurance_message :: "(bytes \<Rightarrow> Hash) \<Rightarrow> Hash \<Rightarrow> Assurance \<Rightarrow> (st_error + bytes) option" where
  "assurance_message HashData parentHash assurance =
     res_bind (lift_jam (Marshal (stack_depth hash_type) hash_type (hash_value parentHash))) (\<lambda>b.
     res_bind (lift_jam (Marshal (stack_depth (octets_type AvailBitfieldBytes)) (octets_type AvailBitfieldBytes)
         (hash_value (Bitfield assurance)))) (\<lambda>b'.
       ret (go_bytes SignatureContextAvailable @ HashData (b @ b'))))"

definition verify_assurance ::
  "ed25519 \<Rightarrow> (bytes \<Rightarrow> Hash) \<Rightarrow> ValidatorsData \<Rightarrow> Header \<Rightarrow> Assurance \<Rightarrow> st_check" where
  "verify_assurance check HashData validators header assurance =
     (if unat (a_ValidatorIndex assurance) \<ge> NumberOfValidators then raise (Err ''bad validator index'')
      else case go_index validators (unat (a_ValidatorIndex assurance)) of
        None \<Rightarrow> None
      | Some None \<Rightarrow> raise (Err ''bad validator index'')
      | Some (Some vk) \<Rightarrow>
          if Anchor assurance \<noteq> ParentHash header then raise (Err ''bad attestation parent'')
          else
            res_bind (assurance_message HashData (ParentHash header) assurance) (\<lambda>message.
              require_signature check (Ed25519 vk) message (a_Signature assurance)))"

definition validateAssurancesSignature ::
  "ed25519 \<Rightarrow> (bytes \<Rightarrow> Hash) \<Rightarrow> ValidatorsData \<Rightarrow> Header \<Rightarrow> Assurance list \<Rightarrow> st_check" where
  "validateAssurancesSignature check HashData validators header assurances =
     check_all (verify_assurance check HashData validators header) assurances"

definition CalculateIntermediateCoreFromAssurances ::
  "ed25519 \<Rightarrow> (bytes \<Rightarrow> Hash) \<Rightarrow> ValidatorsData \<Rightarrow> CoreAssignments \<Rightarrow> Header \<Rightarrow> Assurance list \<Rightarrow>
   (st_error + CoreAssignments \<times> WorkReport option list) option" where
  "CalculateIntermediateCoreFromAssurances check HashData validators assignments header assurances =
     res_bind (validateAssurancesSignature check HashData validators header assurances) (\<lambda>_.
       if \<not> assuranceIsOrderedByValidatorIndex assurances then raise (Err ''bad order'')
       else CalculateIntermediateCoreAssignmentsFromAvailability assurances assignments header)"

text \<open>
  An assignment without a report is dereferenced: \<open>None\<close>.
\<close>

definition GetAvailableWorkReports :: "CoreAssignments \<Rightarrow> WorkReport list option" where
  "GetAvailableWorkReports coreAssignments = those (map as_WorkReport (List.map_filter id coreAssignments))"

text \<open>An earlier form of the same selection: the assignments with enough assurances, unchanged.\<close>

definition verifyAvailability :: "Assurance list \<Rightarrow> CoreAssignments \<Rightarrow> CoreAssignments option" where
  "verifyAvailability assurances assignments =
     those (map (\<lambda>(coreIndex, assignment).
       map_option (\<lambda>set_bits. if length (filter id set_bits) > 2 * NumberOfValidators div 3 then assignment else None)
         (those (map (\<lambda>a. HasAssuranceForCore a (of_nat coreIndex)) assurances)))
       (zip [0..<TotalNumberOfCores] assignments))"

section \<open>What the loops compute\<close>

definition assured :: "Assurance list \<Rightarrow> nat \<Rightarrow> nat" where
  "assured assurances c = length (filter (\<lambda>a. HasAssuranceForCore a (of_nat c) = Some True) assurances)"

lemma count_assurances:
  "res_fold (count_assurance assignment slot c) xs n = ret m \<longleftrightarrow>
   (\<forall>x \<in> set xs. HasAssuranceForCore x c \<noteq> None) \<and>
   (\<forall>x \<in> set xs. HasAssuranceForCore x c = Some True \<longrightarrow> assignment \<noteq> None \<and> \<not> isAssignmentStale assignment slot) \<and>
   m = n + length (filter (\<lambda>a. HasAssuranceForCore a c = Some True) xs)"
  by (induction xs arbitrary: n) (auto simp: count_assurance_def res_bind_ret_iff split: option.splits bool.splits)

lemma availability_counts:
  assumes "length assignments = TotalNumberOfCores"
  shows "res_map (core_availability assurances slot) (zip [0..<TotalNumberOfCores] assignments) = ret counts \<longleftrightarrow>
    (\<forall>c < TotalNumberOfCores. \<forall>a \<in> set assurances. HasAssuranceForCore a (of_nat c) \<noteq> None) \<and>
    (\<forall>c < TotalNumberOfCores. 0 < assured assurances c \<longrightarrow>
       assignments ! c \<noteq> None \<and> \<not> isAssignmentStale (assignments ! c) slot) \<and>
    counts = map (assured assurances) [0..<TotalNumberOfCores]"
proof -
  let ?N = TotalNumberOfCores
  have one: "core_availability assurances slot (zip [0..<?N] assignments ! c) = ret (counts ! c) \<longleftrightarrow>
      (\<forall>a \<in> set assurances. HasAssuranceForCore a (of_nat c) \<noteq> None) \<and>
      (0 < assured assurances c \<longrightarrow> assignments ! c \<noteq> None \<and> \<not> isAssignmentStale (assignments ! c) slot) \<and>
      counts ! c = assured assurances c" if "c < ?N" for c
  proof -
    have "0 < assured assurances c \<longleftrightarrow> (\<exists>a \<in> set assurances. HasAssuranceForCore a (of_nat c) = Some True)"
      unfolding assured_def by (simp add: filter_empty_conv)
    then show ?thesis
      using that assms by (auto simp: core_availability_def count_assurances assured_def simp del: not_None_eq)
  qed
  have "counts = map (assured assurances) [0..<?N] \<longleftrightarrow> length counts = ?N \<and> (\<forall>c < ?N. counts ! c = assured assurances c)"
    by (auto simp: list_eq_iff_nth_eq)
  moreover have "length (zip [0..<?N] assignments) = ?N" using assms by simp
  ultimately show ?thesis unfolding res_map_ret using one by auto
qed

lemma update_core_eq:
  "fst (update_core slot n a) = (if AvailabilityThreshold < n \<or> isAssignmentStale a slot then None else a)"
  "a \<noteq> None \<Longrightarrow> snd (update_core slot n a) = (if AvailabilityThreshold < n then [as_WorkReport (the a)] else [])"
  "\<not> AvailabilityThreshold < n \<Longrightarrow> snd (update_core slot n a) = []"
  by (auto simp: update_core_def isAssignmentStale_def split: option.splits)

lemma concat_map_filter: "concat (map (\<lambda>x. if P x then [f x] else []) xs) = map f (filter P xs)"
  by (induction xs) auto

lemma availability_result:
  assumes "length assignments = TotalNumberOfCores"
    "CalculateIntermediateCoreAssignmentsFromAvailability assurances assignments header = ret (assignments', removed)"
  shows "length assignments' = TotalNumberOfCores"
    "removed = map (\<lambda>c. as_WorkReport (the (assignments ! c)))
       (filter (\<lambda>c. AvailabilityThreshold < assured assurances c) [0..<TotalNumberOfCores])"
    "\<forall>c < TotalNumberOfCores. assignments' ! c =
       (if AvailabilityThreshold < assured assurances c \<or> isAssignmentStale (assignments ! c) (TimeSlotIndex header)
        then None else assignments ! c)"
    "\<forall>c < TotalNumberOfCores. 0 < assured assurances c \<longrightarrow>
       assignments ! c \<noteq> None \<and> \<not> isAssignmentStale (assignments ! c) (TimeSlotIndex header)"
proof -
  let ?cs = "[0..<TotalNumberOfCores]"
  let ?u = "\<lambda>c. update_core (TimeSlotIndex header) (assured assurances c) (assignments ! c)"
  have engaged: "\<forall>c < TotalNumberOfCores. 0 < assured assurances c \<longrightarrow>
       assignments ! c \<noteq> None \<and> \<not> isAssignmentStale (assignments ! c) (TimeSlotIndex header)"
    using assms(2) by (auto simp: CalculateIntermediateCoreAssignmentsFromAvailability_def res_bind_ret_iff availability_counts [OF assms(1)])
  have zip: "map (\<lambda>(n, a). update_core (TimeSlotIndex header) n a) (zip (map (assured assurances) ?cs) assignments) = map ?u ?cs"
    using assms(1) by (auto simp: list_eq_iff_nth_eq)
  have res: "assignments' = map fst (map ?u ?cs)" "removed = concat (map snd (map ?u ?cs))"
    using assms(2) unfolding zip [symmetric]
    by (auto simp: CalculateIntermediateCoreAssignmentsFromAvailability_def res_bind_ret_iff availability_counts [OF assms(1)] Let_def
        simp del: map_map)
  have "map (\<lambda>c. snd (?u c)) ?cs =
      map (\<lambda>c. if AvailabilityThreshold < assured assurances c then [as_WorkReport (the (assignments ! c))] else []) ?cs"
    using engaged by (intro map_cong) (auto simp: update_core_eq(2,3) split: if_splits)
  then show "removed = map (\<lambda>c. as_WorkReport (the (assignments ! c)))
       (filter (\<lambda>c. AvailabilityThreshold < assured assurances c) ?cs)"
    unfolding res(2) by (simp only: map_map o_def concat_map_filter)
  show "length assignments' = TotalNumberOfCores"
    "\<forall>c < TotalNumberOfCores. assignments' ! c =
       (if AvailabilityThreshold < assured assurances c \<or> isAssignmentStale (assignments ! c) (TimeSlotIndex header)
        then None else assignments ! c)"
    unfolding res(1) by (simp_all add: update_core_eq(1))
  show "\<forall>c < TotalNumberOfCores. 0 < assured assurances c \<longrightarrow>
       assignments ! c \<noteq> None \<and> \<not> isAssignmentStale (assignments ! c) (TimeSlotIndex header)" by (rule engaged)
qed

lemma those_nth:
  "those xs = Some ys \<longleftrightarrow> length ys = length xs \<and> (\<forall>i < length xs. xs ! i = Some (ys ! i))"
proof (induction xs arbitrary: ys)
  case (Cons x xs)
  show ?case
  proof (cases ys)
    case (Cons y ys')
    then show ?thesis by (cases x) (auto simp: Cons.IH nth_Cons split: nat.splits)
  qed (auto split: option.splits)
qed auto

lemma assurance_message_eq:
  "assurance_message HashData parentHash a = ret (go_bytes SignatureContextAvailable @ HashData (parentHash @ Bitfield a))"
proof -
  have "Marshal (stack_depth (octets_type n)) (octets_type n) (hash_value h) = ret h" for n h
    unfolding Marshal_def by (rule marshal_octets) simp
  then show ?thesis by (simp add: assurance_message_def hash_type_def lift_jam_def)
qed

definition disputed :: "(bytes \<Rightarrow> Hash) \<Rightarrow> Verdict list \<Rightarrow> Assignment option \<Rightarrow> bool" where
  "disputed HashData vs assignment \<longleftrightarrow>
     (\<exists>v \<in> set vs. \<exists>a. CountPositiveJudgments (v_Judgements v) < ValidatorsSuperMajority \<and> assignment = Some a \<and>
        WorkReport_Hash HashData (as_WorkReport a) = ret (v_ReportHash v))"

lemma clear_judged_result:
  "clear_judged HashData h a = Some a' \<Longrightarrow>
   a' = (if \<exists>x. a = Some x \<and> WorkReport_Hash HashData (as_WorkReport x) = ret h then None else a)"
  by (auto simp: clear_judged_def split: option.splits sum.splits if_splits)

lemma verdicts_clear:
  "CalculateIntermediateCoreAssignmentsFromVerdicts HashData vs assignments = Some assignments' \<Longrightarrow>
   assignments' = map (\<lambda>a. if disputed HashData vs a then None else a) assignments"
proof (induction vs arbitrary: assignments)
  case Nil
  then show ?case by (simp add: disputed_def)
next
  case (Cons v vs)
  show ?case
  proof (cases "CountPositiveJudgments (v_Judgements v) < ValidatorsSuperMajority")
    case True
    then obtain cleared where c: "those (map (clear_judged HashData (v_ReportHash v)) assignments) = Some cleared"
      and rest: "assignments' = map (\<lambda>a. if disputed HashData vs a then None else a) cleared"
      using Cons.prems Cons.IH by (auto simp: Let_def split: option.splits)
    have "cleared = map (\<lambda>a. if \<exists>x. a = Some x \<and> WorkReport_Hash HashData (as_WorkReport x) = ret (v_ReportHash v)
        then None else a) assignments"
      using c clear_judged_result by (force simp: those_nth intro!: nth_equalityI)
    then show ?thesis using True unfolding rest by (auto simp: disputed_def)
  next
    case False
    then have "disputed HashData (v # vs) = disputed HashData vs" by (auto simp: disputed_def fun_eq_iff)
    then show ?thesis using False Cons by simp
  qed
qed

lemma clears_returns:
  assumes "\<And>a. Some a \<in> set assignments \<Longrightarrow> \<exists>h. WorkReport_Hash HashData (as_WorkReport a) = ret h"
  shows "\<exists>cleared. those (map (clear_judged HashData h) assignments) = Some cleared \<and> set cleared \<subseteq> insert None (set assignments)"
  using assms
proof (induction assignments)
  case (Cons a assignments)
  obtain cleared where c: "those (map (clear_judged HashData h) assignments) = Some cleared"
    "set cleared \<subseteq> insert None (set assignments)" using Cons by auto
  have "\<exists>a'. clear_judged HashData h a = Some a' \<and> a' \<in> {None, a}"
  proof (cases a)
    case (Some x)
    then obtain hx where "WorkReport_Hash HashData (as_WorkReport x) = ret hx" using Cons.prems by auto
    then show ?thesis using Some by (simp add: clear_judged_def)
  qed (simp add: clear_judged_def)
  then show ?case using c by auto
qed simp

lemma verdicts_return:
  "(\<And>a. Some a \<in> set assignments \<Longrightarrow> \<exists>h. WorkReport_Hash HashData (as_WorkReport a) = ret h) \<Longrightarrow>
   \<exists>assignments'. CalculateIntermediateCoreAssignmentsFromVerdicts HashData vs assignments = Some assignments'"
proof (induction vs arbitrary: assignments)
  case (Cons v vs)
  obtain cleared where c: "those (map (clear_judged HashData (v_ReportHash v)) assignments) = Some cleared"
    "set cleared \<subseteq> insert None (set assignments)" using clears_returns [OF Cons.prems] by blast
  have "\<exists>x. CalculateIntermediateCoreAssignmentsFromVerdicts HashData vs cleared = Some x"
    using c(2) Cons.prems by (intro Cons.IH) blast
  then show ?case using c(1) Cons by (simp add: Let_def)
qed simp

text \<open>An assurance that is accepted alone is accepted any number of times.\<close>

lemma repeated_accepted:
  assumes "683 \<le> n" "CalculateIntermediateCoreFromAssurances check HashData validators assignments header [a] = ret r"
    "length assignments = TotalNumberOfCores" "c < TotalNumberOfCores" "HasAssuranceForCore a (of_nat c) = Some True"
  shows "\<exists>assignments' removed. CalculateIntermediateCoreFromAssurances check HashData validators assignments header (replicate n a) =
    ret (assignments', removed) \<and> as_WorkReport (the (assignments ! c)) \<in> set removed"
proof -
  let ?slot = "TimeSlotIndex header"
  have count: "assured (replicate n a) c = n * assured [a] c" for c by (simp add: assured_def filter_replicate)
  have sig: "verify_assurance check HashData validators header a = ret ()"
    and "\<exists>counts. res_map (core_availability [a] ?slot) (zip [0..<TotalNumberOfCores] assignments) = ret counts"
    using assms(2) by (auto simp: CalculateIntermediateCoreFromAssurances_def validateAssurancesSignature_def res_bind_ret_iff
        CalculateIntermediateCoreAssignmentsFromAvailability_def split: if_splits)
  then have "\<exists>counts. res_map (core_availability (replicate n a) ?slot) (zip [0..<TotalNumberOfCores] assignments) = ret counts"
    unfolding availability_counts [OF assms(3)] count by auto
  then obtain as' rs where r: "CalculateIntermediateCoreAssignmentsFromAvailability (replicate n a) assignments header = ret (as', rs)"
    by (auto simp: CalculateIntermediateCoreAssignmentsFromAvailability_def Let_def)
  have "AvailabilityThreshold < assured (replicate n a) c"
    using assms(1,5) by (simp add: assured_def filter_replicate AvailabilityThreshold_def NumberOfValidators_def)
  then have "as_WorkReport (the (assignments ! c)) \<in> set rs"
    using assms(4) unfolding availability_result(2) [OF assms(3) r] by auto
  then show ?thesis
    using r sig by (simp add: CalculateIntermediateCoreFromAssurances_def validateAssurancesSignature_def assuranceIsOrderedByValidatorIndex_def
        res_bind_ret_iff)
qed

section \<open>An example\<close>

text \<open>A core with a report, and an assurance of that core.\<close>

definition demo_assignments :: CoreAssignments where
  "demo_assignments = (replicate TotalNumberOfCores None)[3 := Some \<lparr>as_WorkReport = Some demo_report, as_Time = 7\<rparr>]"

definition demo_assurance :: Assurance where
  "demo_assurance = \<lparr>Anchor = zero_octets 32, Bitfield = 8 # zero_octets 42, a_ValidatorIndex = 5, a_Signature = zero_octets 64\<rparr>"

lemma less_eq_8_cases: "(c :: nat) < 8 \<longleftrightarrow> c = 0 \<or> c = 1 \<or> c = 2 \<or> c = 3 \<or> c = 4 \<or> c = 5 \<or> c = 6 \<or> c = 7"
  by auto

lemma demo_assurance_core: "c < TotalNumberOfCores \<Longrightarrow> HasAssuranceForCore demo_assurance (of_nat c) = Some (c = 3)"
proof -
  assume c: "c < TotalNumberOfCores"
  then have u: "unat (of_nat c :: u16) = c" by (simp add: TotalNumberOfCores_def unat_of_nat take_bit_nat_eq_self)
  have "unat ((of_nat c :: u16) div 8) = c div 8" "unat ((of_nat c :: u16) mod 8) = c mod 8"
    by (simp_all add: unat_div unat_mod u)
  moreover have "go_index (8 # zero_octets 42) (c div 8) = Some (if c < 8 then 8 else 0)"
    using c by (auto simp: go_index_def zero_octets_def TotalNumberOfCores_def nth_Cons split: nat.splits)
  moreover have "c < 8 \<Longrightarrow> ((8 :: u8) AND shl 1 c \<noteq> 0) = (c = 3)"
    by (auto simp: less_eq_8_cases)
  ultimately show ?thesis
    by (simp add: HasAssuranceForCore_def demo_assurance_def Let_def)
qed

lemma demo_availability:
  assumes "n \<noteq> 0"
  shows "\<exists>r. CalculateIntermediateCoreFromAssurances any_signature (\<lambda>x. zero_octets 32) (replicate NumberOfValidators (Some demo_key))
    demo_assignments (Header_zero\<lparr>TimeSlotIndex := 9\<rparr>) (replicate n demo_assurance) = ret r"
proof -
  have len: "length demo_assignments = TotalNumberOfCores" by (simp add: demo_assignments_def)
  have count: "assured (replicate n demo_assurance) c = (if c = 3 then n else 0)" if "c < TotalNumberOfCores" for c
    using demo_assurance_core [OF that] by (simp add: assured_def filter_replicate)
  have fresh: "demo_assignments ! 3 \<noteq> None" "\<not> isAssignmentStale (demo_assignments ! 3) 9"
    by (simp_all add: demo_assignments_def TotalNumberOfCores_def isAssignmentStale_def WorkReportTimeoutPeriod_def)
  have "\<exists>counts. res_map (core_availability (replicate n demo_assurance) 9) (zip [0..<TotalNumberOfCores] demo_assignments) = ret counts"
    unfolding availability_counts [OF len] using count fresh demo_assurance_core by auto
  moreover have "verify_assurance any_signature (\<lambda>x. zero_octets 32) (replicate NumberOfValidators (Some demo_key))
      (Header_zero\<lparr>TimeSlotIndex := 9\<rparr>) demo_assurance = ret ()"
    by (simp add: verify_assurance_def demo_assurance_def NumberOfValidators_def go_index_def Header_zero_def assurance_message_eq
        demo_key_def)
  ultimately show ?thesis
    by (auto simp: CalculateIntermediateCoreFromAssurances_def validateAssurancesSignature_def assuranceIsOrderedByValidatorIndex_def
        CalculateIntermediateCoreAssignmentsFromAvailability_def Let_def res_bind_ret_iff)
qed

section \<open>Properties\<close>



text \<open>
  C39: \<^bold>\<open>One validator can make a report available.\<close> Assurances are only checked to be in ascending order
  of the validators, not in strictly ascending order: an assurance that is accepted alone is also
  accepted 683 times in one block, and then the reports of all cores it names become available.
\<close>

theorem repeated_assurance_counts:
  assumes "CalculateIntermediateCoreFromAssurances check HashData validators assignments header [a] = ret r"
    "length assignments = TotalNumberOfCores" "c < TotalNumberOfCores" "HasAssuranceForCore a (of_nat c) = Some True"
  shows "\<exists>assignments' removed. CalculateIntermediateCoreFromAssurances check HashData validators assignments header (replicate 683 a) =
    ret (assignments', removed) \<and> as_WorkReport (the (assignments ! c)) \<in> set removed"
  by (rule repeated_accepted [OF _ assms]) simp

theorem repeated_assurance_counts_witness:
  "\<exists>assignments' removed. CalculateIntermediateCoreFromAssurances any_signature (\<lambda>x. zero_octets 32)
      (replicate NumberOfValidators (Some demo_key)) demo_assignments (Header_zero\<lparr>TimeSlotIndex := 9\<rparr>) (replicate 683 demo_assurance) =
    ret (assignments', removed) \<and> Some demo_report \<in> set removed"
proof -
  obtain r where r: "CalculateIntermediateCoreFromAssurances any_signature (\<lambda>x. zero_octets 32)
      (replicate NumberOfValidators (Some demo_key)) demo_assignments (Header_zero\<lparr>TimeSlotIndex := 9\<rparr>) [demo_assurance] = ret r"
    using demo_availability [of 1] by auto
  have c: "length demo_assignments = TotalNumberOfCores" "3 < TotalNumberOfCores" "as_WorkReport (the (demo_assignments ! 3)) = Some demo_report"
    by (simp_all add: demo_assignments_def TotalNumberOfCores_def)
  have "HasAssuranceForCore demo_assurance (of_nat 3) = Some True" using demo_assurance_core [OF c(2)] by simp
  from repeated_assurance_counts [OF r c(1,2) this] show ?thesis unfolding c(3) .
qed

text \<open>
  \<^bold>\<open>A disputed report leaves its core.\<close> When the reports on the cores can be hashed, the verdicts of a
  block clear exactly the cores whose report has the hash of a verdict without a supermajority of
  positive votes.
\<close>

theorem disputed_reports_leave:
  assumes "\<And>a. Some a \<in> set assignments \<Longrightarrow> \<exists>h. WorkReport_Hash HashData (as_WorkReport a) = ret h"
  shows "CalculateIntermediateCoreAssignmentsFromExtrinsics HashData disputes assignments =
    Some (map (\<lambda>a. if disputed HashData (Verdicts disputes) a then None else a) assignments)"
  using verdicts_return [of assignments HashData "Verdicts disputes"] verdicts_clear [of HashData "Verdicts disputes" assignments] assms
  by (auto simp: CalculateIntermediateCoreAssignmentsFromExtrinsics_def)

theorem disputed_reports_leave_witness:
  "CalculateIntermediateCoreAssignmentsFromExtrinsics (\<lambda>x. replicate 32 7) demo_disputes
     [Some \<lparr>as_WorkReport = None, as_Time = 7\<rparr>, None] = Some [None, None]"
proof -
  have h: "WorkReport_Hash (\<lambda>x. replicate 32 7) None = ret (replicate 32 7)"
    by (simp add: WorkReport_Hash_def WorkReport_Encode_def)
  let ?v = "Verdicts demo_disputes ! 0"
  have v: "?v \<in> set (Verdicts demo_disputes)" "v_ReportHash ?v = replicate 32 7" "CountPositiveJudgments (v_Judgements ?v) = 0"
    by (simp_all add: CountPositiveJudgments_eq demo_disputes_def filter_empty_conv del: upt_conv_Cons)
  then have "disputed (\<lambda>x. replicate 32 7) (Verdicts demo_disputes) (Some \<lparr>as_WorkReport = None, as_Time = 7\<rparr>)"
    unfolding disputed_def using h by (intro bexI [OF _ v(1)]) (simp add: vote_counts(1))
  moreover have "\<not> disputed (\<lambda>x. replicate 32 7) (Verdicts demo_disputes) None" by (simp add: disputed_def)
  ultimately show ?thesis
    using h disputed_reports_leave [of "[Some \<lparr>as_WorkReport = None, as_Time = 7\<rparr>, None]" "\<lambda>x. replicate 32 7" demo_disputes] by auto
qed

end
