(* ===== verification/Chain_Store.thy ===== *)
theory Chain_Store
  imports Blocks
begin

text \<open>
  The store of blocks and headers (\<^verbatim>\<open>internal/store/chain.go\<close>) over the key-value store
  (\<^verbatim>\<open>pkg/db/pebble\<close>).
\<close>

section \<open>The key-value store\<close>

text \<open>
  The database is a library: a parameter, with the state \<open>'s\<close>. A batch is the list of the changes
  that \<^verbatim>\<open>Commit\<close> makes at once, \<open>None\<close> deleting a key; an iterator over a range of keys gives the
  values that it meets one after the other, each with the error it may have.
\<close>

datatype db_error = ErrClosed | ErrNotFound | ErrBatchDone | DbErr string

record 's Pebble =
  peb_Get :: "'s \<Rightarrow> bytes \<Rightarrow> db_error + bytes"
  peb_Set :: "'s \<Rightarrow> bytes \<Rightarrow> bytes \<Rightarrow> db_error + 's"
  peb_Delete :: "'s \<Rightarrow> bytes \<Rightarrow> db_error + 's"
  peb_Commit :: "'s \<Rightarrow> (bytes \<times> bytes option) list \<Rightarrow> db_error + 's"
  peb_NewIter :: "'s \<Rightarrow> bytes \<Rightarrow> bytes \<Rightarrow> db_error + (db_error + bytes) list"
  peb_Close :: "'s \<Rightarrow> db_error option"

record 's KV =
  kv_db :: 's
  kv_closed :: bool

definition KV_Get :: "'s Pebble \<Rightarrow> 's KV \<Rightarrow> bytes \<Rightarrow> db_error + bytes" where
  "KV_Get P p key =
     (if kv_closed p then Inl ErrClosed
      else case peb_Get P (kv_db p) key of
        Inl err \<Rightarrow> if err = ErrNotFound then Inl ErrNotFound else Inl (DbErr ''pebble get failed: %w'')
      | Inr v \<Rightarrow> Inr v)"

definition KV_Put :: "'s Pebble \<Rightarrow> 's KV \<Rightarrow> bytes \<Rightarrow> bytes \<Rightarrow> db_error + 's KV" where
  "KV_Put P p key v =
     (if kv_closed p then Inl ErrClosed
      else map_sum id (\<lambda>s. p\<lparr>kv_db := s\<rparr>) (peb_Set P (kv_db p) key v))"

definition KV_Delete :: "'s Pebble \<Rightarrow> 's KV \<Rightarrow> bytes \<Rightarrow> db_error + 's KV" where
  "KV_Delete P p key =
     (if kv_closed p then Inl ErrClosed
      else map_sum id (\<lambda>s. p\<lparr>kv_db := s\<rparr>) (peb_Delete P (kv_db p) key))"

definition KV_Close :: "'s Pebble \<Rightarrow> 's KV \<Rightarrow> 's KV \<times> db_error option" where
  "KV_Close P p = (if kv_closed p then (p, None) else (p\<lparr>kv_closed := True\<rparr>, peb_Close P (kv_db p)))"

record Batch =
  batch_ops :: "(bytes \<times> bytes option) list"
  batch_done :: bool

definition KV_NewBatch :: Batch where
  "KV_NewBatch = \<lparr>batch_ops = [], batch_done = False\<rparr>"

definition Batch_Put :: "Batch \<Rightarrow> bytes \<Rightarrow> bytes \<Rightarrow> db_error + Batch" where
  "Batch_Put b key v = (if batch_done b then Inl ErrBatchDone else Inr (b\<lparr>batch_ops := batch_ops b @ [(key, Some v)]\<rparr>))"

definition Batch_Delete :: "Batch \<Rightarrow> bytes \<Rightarrow> db_error + Batch" where
  "Batch_Delete b key = (if batch_done b then Inl ErrBatchDone else Inr (b\<lparr>batch_ops := batch_ops b @ [(key, None)]\<rparr>))"

definition Batch_Commit :: "'s Pebble \<Rightarrow> Batch \<Rightarrow> 's KV \<Rightarrow> db_error + Batch \<times> 's KV" where
  "Batch_Commit P b p =
     (if batch_done b then Inl ErrBatchDone
      else map_sum id (\<lambda>s. (b\<lparr>batch_done := True\<rparr>, p\<lparr>kv_db := s\<rparr>)) (peb_Commit P (kv_db p) (batch_ops b)))"

definition KV_NewIterator :: "'s Pebble \<Rightarrow> 's KV \<Rightarrow> bytes \<Rightarrow> bytes \<Rightarrow> db_error + (db_error + bytes) list" where
  "KV_NewIterator P p start end' =
     map_sum (\<lambda>err. DbErr ''failed to create iterator with error %w'') id (peb_NewIter P (kv_db p) start end')"

section \<open>Blocks and headers\<close>

text \<open>
  The errors of the chain, with the message that the source puts in front of one from below.
\<close>

datatype chain_error =
    ErrBlockNotFound | ErrHeaderNotFound | ErrChainClosed
  | OfDb string db_error | OfCodec string jam_error | OfChain string chain_error

record 's Chain =
  chain_db :: "'s KV"
  chain_closed :: bool

type_synonym 'a chain_result = "(chain_error + 'a) option"

definition prefixHeader :: u8 where "prefixHeader = 1"
definition prefixBlock :: u8 where "prefixBlock = 2"

definition makeKey :: "u8 \<Rightarrow> bytes \<Rightarrow> bytes" where
  "makeKey prefix hash = prefix # hash"

definition PrefixToString :: "u8 \<Rightarrow> string" where
  "PrefixToString p = (if p = prefixHeader then ''header'' else if p = prefixBlock then ''block'' else ''unknown'')"

definition of_codec :: "string \<Rightarrow> 'a jam_result \<Rightarrow> 'a chain_result" where
  "of_codec m r = (case r of None \<Rightarrow> None | Some (Inl e) \<Rightarrow> raise (OfCodec m e) | Some (Inr x) \<Rightarrow> ret x)"

definition of_db :: "string \<Rightarrow> db_error + 'a \<Rightarrow> 'a chain_result" where
  "of_db m r = (case r of Inl e \<Rightarrow> raise (OfDb m e) | Inr x \<Rightarrow> ret x)"

definition PutHeader :: "(bytes \<Rightarrow> Hash) \<Rightarrow> 's Pebble \<Rightarrow> 's Chain \<Rightarrow> Header \<Rightarrow> 's Chain chain_result" where
  "PutHeader HashData P c h =
     (if chain_closed c then raise ErrChainClosed
      else
        res_bind (of_codec ''marshal header: %w'' (Header_Bytes h)) (\<lambda>bytes.
        res_bind (of_codec ''hash header: %w'' (Header_Hash HashData h)) (\<lambda>hash.
        res_bind (of_db ''store header: %w'' (KV_Put P (chain_db c) (makeKey prefixHeader hash) bytes)) (\<lambda>db.
          ret (c\<lparr>chain_db := db\<rparr>)))))"

definition GetHeader :: "'s Pebble \<Rightarrow> 's Chain \<Rightarrow> Hash \<Rightarrow> Header chain_result" where
  "GetHeader P c hash =
     (if chain_closed c then raise ErrChainClosed
      else case KV_Get P (chain_db c) (makeKey prefixHeader hash) of
        Inl err \<Rightarrow> if err = ErrNotFound then raise ErrHeaderNotFound else raise (OfDb ''get header: %w'' err)
      | Inr headerBytes \<Rightarrow> of_codec [] (HeaderFromBytes headerBytes))"

text \<open>
  The iteration over headers. The zero header that comes back without an error when none matches is
  not told apart from a match by the error.
\<close>

fun find_header :: "(Header \<Rightarrow> bool) \<Rightarrow> (db_error + bytes) list \<Rightarrow> Header chain_result" where
  "find_header fn [] = ret Header_zero"
| "find_header fn (v # vs) =
     res_bind (of_db ''get header value: %w'' v) (\<lambda>headerBytes.
     res_bind (of_codec ''parse header from bytes: %w'' (HeaderFromBytes headerBytes)) (\<lambda>header.
       if fn header then ret header else find_header fn vs))"

definition FindHeader :: "'s Pebble \<Rightarrow> 's Chain \<Rightarrow> (Header \<Rightarrow> bool) \<Rightarrow> Header chain_result" where
  "FindHeader P c fn =
     (if chain_closed c then raise ErrChainClosed
      else
        res_bind (of_db ''create iterator: %w'' (KV_NewIterator P (chain_db c) [prefixHeader] [prefixHeader + 1]))
          (find_header fn))"

definition PutBlock :: "(bytes \<Rightarrow> Hash) \<Rightarrow> 's Pebble \<Rightarrow> 's Chain \<Rightarrow> Block \<Rightarrow> 's Chain chain_result" where
  "PutBlock HashData P c b =
     (if chain_closed c then raise ErrChainClosed
      else
        let batch = KV_NewBatch in
        res_bind (of_codec ''hash header: %w'' (Header_Hash HashData (blk_Header b))) (\<lambda>headerHash.
        res_bind (of_codec ''marshal header: %w'' (Header_Bytes (blk_Header b))) (\<lambda>headerBytes.
        res_bind (of_db ''store header: %w'' (Batch_Put batch (makeKey prefixHeader headerHash) headerBytes)) (\<lambda>batch.
        res_bind (of_codec ''marshal block: %w'' (Block_Bytes b)) (\<lambda>blockBytes.
        res_bind (of_db ''store block: %w'' (Batch_Put batch (makeKey prefixBlock headerHash) blockBytes)) (\<lambda>batch.
        res_bind (of_db ''commit batch: %w'' (Batch_Commit P batch (chain_db c))) (\<lambda>(batch, db).
          ret (c\<lparr>chain_db := db\<rparr>))))))))"

definition GetBlock :: "'s Pebble \<Rightarrow> 's Chain \<Rightarrow> Hash \<Rightarrow> Block chain_result" where
  "GetBlock P c hash =
     (if chain_closed c then raise ErrChainClosed
      else case KV_Get P (chain_db c) (makeKey prefixBlock hash) of
        Inl err \<Rightarrow> if err = ErrNotFound then raise ErrBlockNotFound else raise (OfDb ''get block: %w'' err)
      | Inr blockBytes \<Rightarrow> of_codec [] (BlockFromBytes blockBytes))"

text \<open>Values that cannot be read or parsed are logged and skipped.\<close>

fun find_children :: "Hash \<Rightarrow> (db_error + bytes) list \<Rightarrow> Block list option" where
  "find_children parentHash [] = Some []"
| "find_children parentHash (Inl err # vs) = find_children parentHash vs"
| "find_children parentHash (Inr blockBytes # vs) =
     (case BlockFromBytes blockBytes of
        None \<Rightarrow> None
      | Some (Inl err) \<Rightarrow> find_children parentHash vs
      | Some (Inr b) \<Rightarrow>
          map_option (\<lambda>bs. if ParentHash (blk_Header b) = parentHash then b # bs else bs) (find_children parentHash vs))"

definition FindChildren :: "'s Pebble \<Rightarrow> 's Chain \<Rightarrow> Hash \<Rightarrow> Block list chain_result" where
  "FindChildren P c parentHash =
     (if chain_closed c then raise ErrChainClosed
      else
        res_bind (of_db ''create iterator: %w'' (KV_NewIterator P (chain_db c) [prefixBlock] [prefixBlock + 1])) (\<lambda>iter.
          map_option Inr (find_children parentHash iter)))"

text \<open>
  The hash to go on with: of the first child, \<open>None\<close> where the loop breaks, or of the parent.
\<close>

definition next_hash ::
  "(bytes \<Rightarrow> Hash) \<Rightarrow> 's Pebble \<Rightarrow> 's Chain \<Rightarrow> bool \<Rightarrow> Hash \<Rightarrow> Block \<Rightarrow> Hash option chain_result" where
  "next_hash HashData P c ascending currentHash currentBlock =
     (if ascending then
        (case FindChildren P c currentHash of
           None \<Rightarrow> None
         | Some (Inl err) \<Rightarrow> ret None
         | Some (Inr children) \<Rightarrow>
             if children = [] then ret None
             else map_option (map_sum (OfCodec ''marshal child header: %w'') Some) (Header_Hash HashData (blk_Header (children ! 0))))
      else ret (Some (ParentHash (blk_Header currentBlock))))"

text \<open>
  The loop of \<^verbatim>\<open>GetBlockSequence\<close>. When ascending, the iteration at the hash where it started appends
  nothing: a loop of blocks would keep it running, the outer \<open>None\<close>.
\<close>

partial_function (option) block_sequence ::
  "(bytes \<Rightarrow> Hash) \<Rightarrow> 's Pebble \<Rightarrow> 's Chain \<Rightarrow> Hash \<Rightarrow> bool \<Rightarrow> u32 \<Rightarrow> Block list \<Rightarrow> Hash \<Rightarrow> Block \<Rightarrow> Block list chain_result option" where
  "block_sequence HashData P c startHash ascending maxBlocks blocks currentHash currentBlock =
     (if \<not> (of_nat (length blocks) :: u32) < maxBlocks then Some (ret blocks)
      else
        let blocks = (if ascending \<and> currentHash = startHash then blocks else blocks @ [currentBlock]) in
        case next_hash HashData P c ascending currentHash currentBlock of
          None \<Rightarrow> Some None
        | Some (Inl err) \<Rightarrow> Some (raise err)
        | Some (Inr None) \<Rightarrow> Some (ret blocks)
        | Some (Inr (Some hash)) \<Rightarrow>
            (case GetBlock P c hash of
               None \<Rightarrow> Some None
             | Some (Inl err) \<Rightarrow> Some (if err = ErrBlockNotFound then ret blocks else raise (OfChain ''get block in sequence: %w'' err))
             | Some (Inr b) \<Rightarrow> block_sequence HashData P c startHash ascending maxBlocks blocks hash b))"

definition GetBlockSequence ::
  "(bytes \<Rightarrow> Hash) \<Rightarrow> 's Pebble \<Rightarrow> 's Chain \<Rightarrow> Hash \<Rightarrow> bool \<Rightarrow> u32 \<Rightarrow> Block list chain_result option" where
  "GetBlockSequence HashData P c startHash ascending maxBlocks =
     (if chain_closed c then Some (raise ErrChainClosed)
      else case GetBlock P c startHash of
        None \<Rightarrow> Some None
      | Some (Inl err) \<Rightarrow>
          Some (raise (OfChain (if err = ErrBlockNotFound then ''starting block not found: %w'' else ''get starting block: %w'') err))
      | Some (Inr currentBlock) \<Rightarrow> block_sequence HashData P c startHash ascending maxBlocks [] startHash currentBlock)"

definition Chain_Close :: "'s Pebble \<Rightarrow> 's Chain \<Rightarrow> 's Chain \<times> db_error option" where
  "Chain_Close P c =
     (if chain_closed c then (c, None)
      else case KV_Close P (chain_db c) of (db, err) \<Rightarrow> (c\<lparr>chain_closed := True, chain_db := db\<rparr>, err))"

section \<open>What the database promises\<close>

text \<open>
  The documented behaviour of the database, for a view of its state as a map: reading gives the value
  of a key, writing changes one key, a committed batch makes its changes in order, and an iterator
  meets the keys of its range in ascending order, once each.
\<close>

definition pebble_view :: "'s Pebble \<Rightarrow> ('s \<Rightarrow> bytes \<Rightarrow> bytes option) \<Rightarrow> bool" where
  "pebble_view P v \<longleftrightarrow>
     (\<forall>s k. peb_Get P s k = (case v s k of None \<Rightarrow> Inl ErrNotFound | Some x \<Rightarrow> Inr x)) \<and>
     (\<forall>s k x s'. peb_Set P s k x = Inr s' \<longrightarrow> v s' = (v s)(k \<mapsto> x)) \<and>
     (\<forall>s ops s'. peb_Commit P s ops = Inr s' \<longrightarrow> v s' = foldl (\<lambda>m (k, x). m(k := x)) (v s) ops) \<and>
     (\<forall>s lo hi. \<exists>kvs. peb_NewIter P s lo hi = Inr (map (\<lambda>(k, x). Inr x) kvs) \<and> sorted (map fst kvs) \<and>
        distinct (map fst kvs) \<and> (\<forall>k. map_of kvs k = (if lo \<le> k \<and> k < hi then v s k else None)))"

lemma KV_Get_view:
  "pebble_view P v \<Longrightarrow> \<not> kv_closed p \<Longrightarrow>
   KV_Get P p k = (case v (kv_db p) k of None \<Rightarrow> Inl ErrNotFound | Some x \<Rightarrow> Inr x)"
  by (auto simp: KV_Get_def pebble_view_def split: option.splits)

lemma PutBlock_view:
  assumes "pebble_view P v" "PutBlock HashData P c b = ret c'"
  obtains hash hb bb where "Header_Hash HashData (blk_Header b) = ret hash" "Header_Bytes (blk_Header b) = ret hb"
    "Block_Bytes b = ret bb" "\<not> chain_closed c" "chain_closed c' = chain_closed c" "kv_closed (chain_db c') = kv_closed (chain_db c)"
    "v (kv_db (chain_db c')) = (v (kv_db (chain_db c)))(makeKey prefixHeader hash \<mapsto> hb, makeKey prefixBlock hash \<mapsto> bb)"
proof -
  obtain hash hb bb s where r: "Header_Hash HashData (blk_Header b) = ret hash" "Header_Bytes (blk_Header b) = ret hb"
    "Block_Bytes b = ret bb" "\<not> chain_closed c"
    and s: "peb_Commit P (kv_db (chain_db c)) [(makeKey prefixHeader hash, Some hb), (makeKey prefixBlock hash, Some bb)] = Inr s"
    and c': "c' = c\<lparr>chain_db := (chain_db c)\<lparr>kv_db := s\<rparr>\<rparr>"
    using assms(2)
    by (auto simp: PutBlock_def Let_def res_bind_ret_iff of_codec_def of_db_def Batch_Put_def KV_NewBatch_def Batch_Commit_def
        map_sum_def split: if_splits option.splits sum.splits)
  have "v s = (v (kv_db (chain_db c)))(makeKey prefixHeader hash \<mapsto> hb, makeKey prefixBlock hash \<mapsto> bb)"
    using assms(1) s unfolding pebble_view_def by fastforce
  then show thesis using that r c' by simp
qed

text \<open>The ancestors of a block, the block first, as far as they are stored and at most \<open>n\<close> of them.\<close>

fun ancestors :: "(Hash \<Rightarrow> Block chain_result) \<Rightarrow> nat \<Rightarrow> Hash \<Rightarrow> Block list" where
  "ancestors get 0 h = []"
| "ancestors get (Suc n) h = (case get h of ret b \<Rightarrow> b # ancestors get n (ParentHash (blk_Header b)) | _ \<Rightarrow> [])"

lemma block_sequence_descends:
  assumes "\<And>h. (\<exists>b. GetBlock P c h = ret b) \<or> GetBlock P c h = raise ErrBlockNotFound"
  shows "GetBlock P c h = ret b \<Longrightarrow> length blocks + k = unat n \<Longrightarrow>
    block_sequence HashData P c start False n blocks h b = Some (ret (blocks @ ancestors (GetBlock P c) k h))"
proof (induction k arbitrary: blocks h b)
  case 0
  then show ?case by (subst block_sequence.simps) simp
next
  case (Suc k)
  have "length blocks < 2 ^ 32" using Suc.prems(2) unat_below [of 32 n] by simp
  then have len: "(of_nat (length blocks) :: u32) < n"
    using Suc.prems(2) by (simp add: word_less_nat_alt unsigned_of_nat take_bit_nat_eq_self)
  let ?h = "ParentHash (blk_Header b)"
  consider b' where "GetBlock P c ?h = ret b'" | "GetBlock P c ?h = raise ErrBlockNotFound" using assms by blast
  then show ?case
  proof cases
    case 1
    then show ?thesis using Suc.IH [OF 1, of "blocks @ [b]"] Suc.prems len
      by (subst block_sequence.simps) (simp add: next_hash_def)
  next
    case 2
    then have "ancestors (GetBlock P c) k ?h = []" by (cases k) simp_all
    then show ?thesis using 2 Suc.prems len by (subst block_sequence.simps) (simp add: next_hash_def)
  qed
qed

text \<open>A database in memory, for examples: its entries, in the order of their keys.\<close>

definition memory_db :: "(bytes \<times> bytes) list Pebble" where
  "memory_db = \<lparr>peb_Get = (\<lambda>s k. case map_of s k of None \<Rightarrow> Inl ErrNotFound | Some x \<Rightarrow> Inr x),
     peb_Set = (\<lambda>s k x. Inr (AList.update k x s)), peb_Delete = (\<lambda>s k. Inr (AList.delete k s)),
     peb_Commit = (\<lambda>s ops. Inr (foldl (\<lambda>s (k, ox). case ox of None \<Rightarrow> AList.delete k s | Some x \<Rightarrow> AList.update k x s) s ops)),
     peb_NewIter = (\<lambda>s lo hi. Inr (map (\<lambda>k. Inr (the (map_of s k))) (sort (remdups (filter (\<lambda>k. lo \<le> k \<and> k < hi) (map fst s)))))),
     peb_Close = (\<lambda>s. None)\<rparr>"

definition empty_chain :: "(bytes \<times> bytes) list Chain" where
  "empty_chain = \<lparr>chain_db = \<lparr>kv_db = [], kv_closed = False\<rparr>, chain_closed = False\<rparr>"

lemma memory_view: "pebble_view memory_db map_of"
proof -
  have ops: "map_of (foldl (\<lambda>s (k, ox). case ox of None \<Rightarrow> AList.delete k s | Some x \<Rightarrow> AList.update k x s) s ops) =
      foldl (\<lambda>m (k, x). m(k := x)) (map_of s) ops" for s :: "(bytes \<times> bytes) list" and ops
    by (induction ops arbitrary: s) (auto simp: update_conv' delete_conv' split: option.split)
  have "\<exists>kvs. peb_NewIter memory_db s lo hi = Inr (map (\<lambda>(k, x). Inr x) kvs) \<and> sorted (map fst kvs) \<and> distinct (map fst kvs) \<and>
      (\<forall>k. map_of kvs k = (if lo \<le> k \<and> k < hi then map_of s k else None))" for s lo hi
  proof -
    define ks where "ks = sort (remdups (filter (\<lambda>k. lo \<le> k \<and> k < hi) (map fst s)))"
    let ?kvs = "map (\<lambda>k. (k, the (map_of s k))) ks"
    have ks: "map fst ?kvs = ks" by (simp add: o_def)
    have "map_of ?kvs k = (if lo \<le> k \<and> k < hi then map_of s k else None)" for k
    proof -
      have "map_of ?kvs k = (if k \<in> set ks then Some (the (map_of s k)) else None)"
        by (induction ks) auto
      moreover have "k \<in> set ks \<longleftrightarrow> map_of s k \<noteq> None \<and> lo \<le> k \<and> k < hi"
        by (auto simp: ks_def map_of_eq_None_iff)
      ultimately show ?thesis by auto
    qed
    moreover have "sorted (map fst ?kvs)" "distinct (map fst ?kvs)" unfolding ks by (simp_all add: ks_def)
    moreover have "peb_NewIter memory_db s lo hi = Inr (map (\<lambda>(k, x). Inr x) ?kvs)"
      by (simp add: memory_db_def ks_def o_def)
    ultimately show ?thesis by blast
  qed
  then show ?thesis using ops by (simp add: pebble_view_def memory_db_def update_conv')
qed

lemma PutBlock_total:
  assumes "wf_block b" "\<not> chain_closed c" "\<And>s ops. \<exists>s'. peb_Commit P s ops = Inr s'"
  shows "\<exists>c'. PutBlock HashData P c b = ret c'"
proof -
  obtain hb bb where "Header_Bytes (blk_Header b) = ret hb" "Header_Hash HashData (blk_Header b) = ret (HashData hb)" "Block_Bytes b = ret bb"
    using Header_roundtrip [of "blk_Header b" HashData] Block_roundtrip [of b] assms(1) by (auto simp: wf_block_def)
  moreover obtain s where "peb_Commit P (kv_db (chain_db c)) [(makeKey prefixHeader (HashData hb), Some hb), (makeKey prefixBlock (HashData hb), Some bb)] = Inr s"
    using assms(3) by blast
  ultimately show ?thesis
    using assms(2) by (simp add: PutBlock_def of_codec_def of_db_def Batch_Put_def KV_NewBatch_def Batch_Commit_def)
qed

section \<open>Properties\<close>

text \<open>
  C17: \<^bold>\<open>a stored block is found again.\<close> After \<^verbatim>\<open>PutBlock\<close> the hash of the header gives the header and
  the whole block back, through their encodings, and every other hash gives what it gave before.
\<close>

theorem PutBlock_then_GetBlock:
  assumes "pebble_view P v" "\<not> kv_closed (chain_db c)" "wf_block b" "PutBlock HashData P c b = ret c'"
  shows "\<exists>hash. Header_Hash HashData (blk_Header b) = ret hash \<and>
    GetHeader P c' hash = ret (blk_Header b) \<and> GetBlock P c' hash = ret b \<and>
    (\<forall>h. h \<noteq> hash \<longrightarrow> GetHeader P c' h = GetHeader P c h \<and> GetBlock P c' h = GetBlock P c h)"
proof -
  obtain hash hb bb where r: "Header_Hash HashData (blk_Header b) = ret hash" "Header_Bytes (blk_Header b) = ret hb"
    "Block_Bytes b = ret bb" "\<not> chain_closed c" "chain_closed c' = chain_closed c" "kv_closed (chain_db c') = kv_closed (chain_db c)"
    "v (kv_db (chain_db c')) = (v (kv_db (chain_db c)))(makeKey prefixHeader hash \<mapsto> hb, makeKey prefixBlock hash \<mapsto> bb)"
    using PutBlock_view [OF assms(1,4)] by blast
  have decoded: "HeaderFromBytes hb = ret (blk_Header b)" "BlockFromBytes bb = ret b"
    using Header_roundtrip [of "blk_Header b" HashData] Block_roundtrip [of b] assms(3) r(2,3) by (auto simp: wf_block_def)
  show ?thesis
    using r(1,4-7) assms(2) decoded
    by (auto simp: GetHeader_def GetBlock_def KV_Get_view [OF assms(1)] makeKey_def prefixHeader_def prefixBlock_def of_codec_def)
qed

theorem PutBlock_then_GetBlock_witness:
  "\<exists>c' hash. pebble_view memory_db map_of \<and> wf_block Block_zero \<and>
    PutBlock (\<lambda>x. take 32 x) memory_db empty_chain Block_zero = ret c' \<and> GetBlock memory_db c' hash = ret Block_zero"
proof -
  obtain c' where c': "PutBlock (\<lambda>x. take 32 x) memory_db empty_chain Block_zero = ret c'"
    using PutBlock_total [OF Block_zero_wf, of empty_chain memory_db "\<lambda>x. take 32 x"] by (auto simp: empty_chain_def memory_db_def)
  then show ?thesis
    using PutBlock_then_GetBlock [OF memory_view, of empty_chain Block_zero "\<lambda>x. take 32 x" c'] memory_view Block_zero_wf
    by (auto simp: empty_chain_def)
qed



end
