(* ===== verification/Guarantees.thy ===== *)
theory Guarantees
  imports Availability Chain_Store
begin

text \<open>
  Guarantees of work reports (\<^verbatim>\<open>ValidateExtrinsicGuarantees\<close>, \<^verbatim>\<open>CalculateNewCoreAssignments\<close> and their
  helpers in \<^verbatim>\<open>internal/statetransition/state_transition.go\<close>): the assignment of validators to cores,
  the checks of the guarantees of a block, and the reports they put on the cores.
\<close>

section \<open>Validators and cores\<close>

definition RotateSequence :: "u32 list \<Rightarrow> u32 \<Rightarrow> u32 list" where
  "RotateSequence sequence n = map (\<lambda>x. (x + n) mod of_nat TotalNumberOfCores) sequence"

definition core_indices :: "u32 list" where
  "core_indices = map (\<lambda>i. (of_nat TotalNumberOfCores * of_nat i) div of_nat NumberOfValidators) [0..<NumberOfValidators]"

definition PermuteAssignments :: "(bytes \<Rightarrow> Hash) \<Rightarrow> Hash \<Rightarrow> Timeslot \<Rightarrow> u32 list jam_result" where
  "PermuteAssignments HashData entropy timeslot =
     res_bind (DeterministicShuffle HashData core_indices entropy) (\<lambda>shuffledSequence.
       let rotationAmount = timeslot mod of_nat TimeslotsPerEpoch div ValidatorRotationPeriod
       in ret (RotateSequence shuffledSequence rotationAmount))"

definition isValidatorAssignedToCore :: "u16 \<Rightarrow> u16 \<Rightarrow> u32 list \<Rightarrow> bool" where
  "isValidatorAssignedToCore validatorIndex coreIndex coreAssignments \<longleftrightarrow>
     unat validatorIndex < length coreAssignments \<and> coreAssignments ! unat validatorIndex = ucast coreIndex"

text \<open>The entropy pool has four entries.\<close>

definition determineValidatorsAndDataForPermutation ::
  "Timeslot \<Rightarrow> Timeslot \<Rightarrow> EntropyPool \<Rightarrow> ValidatorsData \<Rightarrow> ValidatorsData \<Rightarrow> ValidatorsData \<times> Hash \<times> Timeslot" where
  "determineValidatorsAndDataForPermutation guaranteeTimeslot currentTimeslot entropyPool currentValidators archivedValidators =
     (let currentRotation = currentTimeslot div ValidatorRotationPeriod;
          guaranteeRotation = guaranteeTimeslot div ValidatorRotationPeriod in
      if guaranteeRotation = currentRotation then (currentValidators, entropyPool ! 2, currentTimeslot)
      else
        let timeslotForPermutation = currentTimeslot - ValidatorRotationPeriod;
            currentEpochIndex = currentTimeslot div of_nat TimeslotsPerEpoch;
            prevEpochIndex = timeslotForPermutation div of_nat TimeslotsPerEpoch in
        if currentEpochIndex = prevEpochIndex then (currentValidators, entropyPool ! 2, timeslotForPermutation)
        else (archivedValidators, entropyPool ! 3, timeslotForPermutation))"

definition verifyGuaranteeAge :: "Guarantee \<Rightarrow> Timeslot \<Rightarrow> st_check" where
  "verifyGuaranteeAge guarantee currentTimeslot =
     (let guaranteeRotation = g_Timeslot guarantee div ValidatorRotationPeriod;
          currentRotation = currentTimeslot div ValidatorRotationPeriod in
      if g_Timeslot guarantee > currentTimeslot then raise (Err ''guarantee from future'')
      else if currentRotation - guaranteeRotation \<le> 1 then ret ()
      else raise (Err ''report epoch before last''))"

section \<open>Credentials\<close>

definition guarantee_message :: "(bytes \<Rightarrow> Hash) \<Rightarrow> WorkReport \<Rightarrow> (st_error + bytes) option" where
  "guarantee_message HashData w =
     res_bind (lift_jam (Marshal (stack_depth WorkReport_type) WorkReport_type (WorkReport_value w))) (\<lambda>reportBytes.
       ret (go_bytes SignatureContextGuarantee @ HashData reportBytes))"

text \<open>One credential: the key it adds to the reporters.\<close>

definition verify_credential ::
  "ed25519 \<Rightarrow> ValidatorsData \<Rightarrow> u32 list \<Rightarrow> u16 \<Rightarrow> bytes \<Rightarrow> CredentialSignature \<Rightarrow> (st_error + bytes) option" where
  "verify_credential check validators coreAssignments coreIndex message credential =
     (let i = cred_ValidatorIndex credential in
      if \<not> isValidatorAssignedToCore i coreIndex coreAssignments then raise (Err ''wrong assignment'')
      else if i \<ge> of_nat (length validators) then raise (Err ''invalid validator index %d'')
      else case go_index validators (unat i) of
        Some (Some vk) \<Rightarrow>
          if length (Ed25519 vk) \<noteq> 32 then raise (Err ''invalid validator key size for validator %d'')
          else res_bind (require_signature check (Ed25519 vk) message (cred_Signature credential)) (\<lambda>_. ret (Ed25519 vk))
      | _ \<Rightarrow> None)"

definition verifyGuaranteeCredentials ::
  "ed25519 \<Rightarrow> (bytes \<Rightarrow> Hash) \<Rightarrow> Guarantee \<Rightarrow> ValidatorState \<Rightarrow> EntropyPool \<Rightarrow> Timeslot \<Rightarrow> (st_error + bytes set) option" where
  "verifyGuaranteeCredentials check HashData guarantee validatorState entropyPool currentTimeslot =
     (let (validators, entropy, timeslotForPermutation) =
        determineValidatorsAndDataForPermutation (g_Timeslot guarantee) currentTimeslot entropyPool
          (CurrentValidators validatorState) (ArchivedValidators validatorState)
      in
      res_bind (lift_jam (PermuteAssignments HashData entropy timeslotForPermutation)) (\<lambda>coreAssignments.
      res_bind (guarantee_message HashData (g_WorkReport guarantee)) (\<lambda>message.
      res_bind (res_map (verify_credential check validators coreAssignments (CoreIndex (g_WorkReport guarantee)) message)
          (Credentials guarantee)) (\<lambda>reporters.
        ret (set reporters)))))"

section \<open>The new assignments\<close>

definition previousRotationStart :: "Timeslot \<Rightarrow> Timeslot" where
  "previousRotationStart newTimeslot = (newTimeslot div ValidatorRotationPeriod - 1) * ValidatorRotationPeriod"

text \<open>
  A guarantee for a core whose report has not timed out is passed over. An index beyond the cores is
  out of range: \<open>None\<close>.
\<close>

definition assign_guarantee ::
  "ed25519 \<Rightarrow> (bytes \<Rightarrow> Hash) \<Rightarrow> CoreAssignments \<Rightarrow> ValidatorState \<Rightarrow> Timeslot \<Rightarrow> EntropyPool \<Rightarrow> Guarantee \<Rightarrow>
   CoreAssignments \<times> bytes set \<Rightarrow> (st_error + CoreAssignments \<times> bytes set) option" where
  "assign_guarantee check HashData intermediateAssignments validatorState newTimeslot entropyPool guarantee = (\<lambda>(newAssignments, reporters).
     let coreIndex = unat (CoreIndex (g_WorkReport guarantee)) in
     if g_Timeslot guarantee < previousRotationStart newTimeslot \<or> g_Timeslot guarantee > newTimeslot
     then raise (Err ''timeslot out of range'')
     else case go_index intermediateAssignments coreIndex of
       None \<Rightarrow> None
     | Some a \<Rightarrow>
         if isAssignmentValid a newTimeslot then
           res_bind (verifyGuaranteeCredentials check HashData guarantee validatorState entropyPool newTimeslot) (\<lambda>guaranteeReporters.
             ret (newAssignments[coreIndex := Some \<lparr>as_WorkReport = Some (g_WorkReport guarantee), as_Time = newTimeslot\<rparr>],
               reporters \<union> guaranteeReporters))
         else ret (newAssignments, reporters))"

definition CalculateNewCoreAssignments ::
  "ed25519 \<Rightarrow> (bytes \<Rightarrow> Hash) \<Rightarrow> Guarantee list \<Rightarrow> CoreAssignments \<Rightarrow> ValidatorState \<Rightarrow> Timeslot \<Rightarrow> EntropyPool \<Rightarrow>
   (st_error + CoreAssignments \<times> bytes set) option" where
  "CalculateNewCoreAssignments check HashData guarantees intermediateAssignments validatorState newTimeslot entropyPool =
     res_fold (assign_guarantee check HashData intermediateAssignments validatorState newTimeslot entropyPool) guarantees
       (intermediateAssignments, {})"

section \<open>The checks of the guarantees of a block\<close>

text \<open>
  \<^verbatim>\<open>sha256.Sum256\<close> is a parameter. The identifier of a context is the hash in hexadecimal digits.
\<close>

definition hex_digit :: "nat \<Rightarrow> char" where
  "hex_digit n = ''0123456789abcdef'' ! n"

definition hex_string :: "bytes \<Rightarrow> string" where
  "hex_string bs = concat (map (\<lambda>b. [hex_digit (unat b div 16), hex_digit (unat b mod 16)]) bs)"

definition wrap_jam :: "string \<Rightarrow> 'a jam_result \<Rightarrow> (st_error + 'a) option" where
  "wrap_jam m r = (case r of None \<Rightarrow> None | Some (Inl e) \<Rightarrow> raise (Wrapped m (Codec e)) | Some (Inr x) \<Rightarrow> ret x)"

definition generateRefinementContextID :: "(bytes \<Rightarrow> Hash) \<Rightarrow> RefinementContext \<Rightarrow> (st_error + string) option" where
  "generateRefinementContextID Sum256 context =
     res_bind (wrap_jam ''failed to serialize RefinementContext: %w''
         (Marshal (stack_depth RefinementContext_type) RefinementContext_type (RefinementContext_value context))) (\<lambda>serialized.
       ret (hex_string (Sum256 serialized)))"

definition computeWorkReportHash :: "(bytes \<Rightarrow> Hash) \<Rightarrow> WorkReport \<Rightarrow> (st_error + Hash) option" where
  "computeWorkReportHash Sum256 workReport =
     res_bind (wrap_jam ''failed to serialize WorkReport: %w''
         (Marshal (stack_depth WorkReport_type) WorkReport_type (WorkReport_value workReport))) (\<lambda>serialized.
       ret (Sum256 serialized))"

definition package_hash :: "Guarantee \<Rightarrow> Hash" where
  "package_hash g = spec_WorkPackageHash (Specification (g_WorkReport g))"

text \<open>The packages of the recent blocks, a later block replacing the entry of an earlier one.\<close>

definition add_entries :: "('k \<times> 'v) list \<Rightarrow> ('k \<times> 'v) list \<Rightarrow> ('k \<times> 'v) list" where
  "add_entries m es = foldl (\<lambda>m (k, v). AList.update k v m) m es"

definition recent_packages :: "State \<Rightarrow> (Hash \<times> Hash) list" where
  "recent_packages st = foldl (\<lambda>m b. add_entries m (WorkReportHashes b)) [] (RecentBlocks st)"

fun check_duplicates :: "Hash set \<Rightarrow> Hash set \<Rightarrow> Guarantee list \<Rightarrow> st_check" where
  "check_duplicates past seen [] = ret ()"
| "check_duplicates past seen (g # gs) =
     (if package_hash g \<in> seen then raise (Err ''duplicate package'')
      else if package_hash g \<in> past then raise (Err ''duplicate package'')
      else check_duplicates past (insert (package_hash g) seen) gs)"

definition check_result :: "Heap \<Rightarrow> State \<Rightarrow> WorkResult \<Rightarrow> st_check" where
  "check_result hp currentState r =
     (case service_of hp (Services currentState) (res_ServiceId r) of
        None \<Rightarrow> raise (Err ''bad service id'')
      | Some sa \<Rightarrow> require (ServiceHashCode r = CodeHash sa) ''bad code hash'')"

definition check_guarantee :: "Heap \<Rightarrow> Header \<Rightarrow> State \<Rightarrow> CoreAssignments \<Rightarrow> Timeslot \<Rightarrow> Guarantee \<Rightarrow> st_check" where
  "check_guarantee hp header currentState currentAssignment newTimeslot g =
     (let w = g_WorkReport g; core = unat (CoreIndex w) in
      res_bind (require (\<not> g_Timeslot g > TimeSlotIndex header) ''future report slot'') (\<lambda>_.
      res_bind (check_all (\<lambda>c. require (\<not> unat (cred_ValidatorIndex c) \<ge>
          length (CurrentValidators (st_ValidatorState currentState))) ''bad validator index'') (Credentials g)) (\<lambda>_.
      res_bind (check_all (check_result hp currentState) (WorkResults w)) (\<lambda>_.
      res_bind (require (\<not> core \<ge> length (CoreAuthorizersPool currentState)) ''bad core index'') (\<lambda>_.
      res_bind (require (OutputSizeIsValid w) ''work report too big'') (\<lambda>_.
      res_bind (require (AuthorizerHash w \<in> set (CoreAuthorizersPool currentState ! core)) ''core unauthorized'') (\<lambda>_.
        case go_index currentAssignment core of
          None \<Rightarrow> None
        | Some a \<Rightarrow> require (isAssignmentValid a newTimeslot) ''core engaged'')))))))"

text \<open>
  What the third loop collects: the identifiers of contexts, the packages of the block with their
  segment roots, all prerequisites, and the packages of the past.
\<close>

record Collected =
  contexts :: "string set"
  extrinsicWorkPackages :: "(Hash \<times> Hash) list"
  prerequisitePackageHashes :: "Hash set"
  pastWorkPackages :: "Hash set"

text \<open>
  \<^verbatim>\<open>currentState.Services[r.ServiceId]\<close> of a missing service would be the zero account.
\<close>

definition check_gas :: "Heap \<Rightarrow> State \<Rightarrow> WorkResult list \<Rightarrow> st_check" where
  "check_gas hp currentState rs =
     res_bind (check_all (\<lambda>r. require (\<not> GasPrioritizationRatio r <
         GasLimitForAccumulator (case service_of hp (Services currentState) (res_ServiceId r) of None \<Rightarrow> ServiceAccount_zero | Some sa \<Rightarrow> sa))
         ''service item gas too low'') rs) (\<lambda>_.
       require (\<not> foldl (\<lambda>total r. total + GasPrioritizationRatio r) 0 rs > MaxAllocatedGasAccumulation) ''work report gas too high'')"

definition queue_match :: "(bytes \<Rightarrow> Hash) \<Rightarrow> AccQueue \<Rightarrow> WorkReport \<Rightarrow> (st_error + bool) option" where
  "queue_match Sum256 queue w =
     res_bind (res_map (\<lambda>wd.
         res_bind (computeWorkReportHash Sum256 (dep_WorkReport wd)) (\<lambda>wdHash.
         res_bind (computeWorkReportHash Sum256 w) (\<lambda>currentGuaranteeHash. ret (wdHash = currentGuaranteeHash))))
       (concat queue)) (\<lambda>ms. ret (True \<in> set ms))"

definition assigned_prerequisites :: "CoreAssignments \<Rightarrow> Hash set" where
  "assigned_prerequisites cas =
     \<Union> (set (map (\<lambda>ca. case ca of
        Some a \<Rightarrow> (case as_WorkReport a of Some w \<Rightarrow> set (PrerequisiteWorkPackage (rep_Context w)) | None \<Rightarrow> {})
      | None \<Rightarrow> {}) cas))"

definition collect_guarantee ::
  "(bytes \<Rightarrow> Hash) \<Rightarrow> Heap \<Rightarrow> State \<Rightarrow> Guarantee \<Rightarrow> Collected \<Rightarrow> (st_error + Collected) option" where
  "collect_guarantee Sum256 hp currentState g k =
     (let w = g_WorkReport g; prereqs = PrerequisiteWorkPackage (rep_Context w) in
      res_bind (generateRefinementContextID Sum256 (rep_Context w)) (\<lambda>contextID.
      res_bind (check_gas hp currentState (WorkResults w)) (\<lambda>_.
      res_bind (require (\<not> length prereqs + length (SegmentRootLookup w) > WorkReportMaxSumOfDependencies) ''too many dependencies'') (\<lambda>_.
      res_bind (res_map (\<lambda>prereqHash. queue_match Sum256 (AccumulationQueue currentState) w) prereqs) (\<lambda>ms.
        ret (k\<lparr>contexts := insert contextID (contexts k),
          extrinsicWorkPackages := AList.update (package_hash g) (SegmentRoot (Specification w)) (extrinsicWorkPackages k),
          prerequisitePackageHashes := prerequisitePackageHashes k \<union> fst ` set (SegmentRootLookup w) \<union> set prereqs,
          pastWorkPackages := pastWorkPackages k \<union> {h. (h, True) \<in> set (zip prereqs ms)} \<union>
            assigned_prerequisites (st_CoreAssignments currentState)\<rparr>))))))"

definition anchorBlockInRecentBlocks :: "(bytes \<Rightarrow> Hash) \<Rightarrow> RefinementContext \<Rightarrow> State \<Rightarrow> st_check" where
  "anchorBlockInRecentBlocks KeccakData context currentState =
     (case List.find (\<lambda>y. anchor_HeaderHash context = bs_HeaderHash y) (RecentBlocks currentState) of
        None \<Rightarrow> raise (Err ''anchor not recent'')
      | Some y \<Rightarrow>
          res_bind (require (PosteriorStateRoot context = StateRoot y) ''bad state root'') (\<lambda>_.
            require (PosteriorBeefyRoot context = SuperPeak (AccumulationResultMMR y) KeccakData) ''bad beefy mmr root''))"

definition lookup_ancestor :: "(bytes \<Rightarrow> Hash) \<Rightarrow> RefinementContext \<Rightarrow> Header \<Rightarrow> bool" where
  "lookup_ancestor HashData context ancestor \<longleftrightarrow>
     (case Header_Hash HashData ancestor of
        Some (Inr ancestorHash) \<Rightarrow> TimeSlotIndex ancestor = lookup_Timeslot context \<and> ancestorHash = lookup_HeaderHash context
      | _ \<Rightarrow> False)"

definition check_context ::
  "(bytes \<Rightarrow> Hash) \<Rightarrow> (bytes \<Rightarrow> Hash) \<Rightarrow> (bytes \<Rightarrow> Hash) \<Rightarrow> 's Pebble \<Rightarrow> 's Chain \<Rightarrow> Header \<Rightarrow> State \<Rightarrow> string set \<Rightarrow> Guarantee \<Rightarrow> st_check" where
  "check_context HashData KeccakData Sum256 P chain header currentState ids g =
     (let context = rep_Context (g_WorkReport g) in
      res_bind (generateRefinementContextID Sum256 context) (\<lambda>contextID.
      res_bind (require (contextID \<in> ids) ''context ID not found in contexts map'') (\<lambda>_.
      res_bind (anchorBlockInRecentBlocks KeccakData context currentState) (\<lambda>_.
      res_bind (require (\<not> lookup_Timeslot context \<ge> TimeSlotIndex header - MaxTimeslotsForPreimage)
          ''lookup anchor block (timeslot %d) not within the last %d timeslots (current timeslot: %d)'') (\<lambda>_.
        case FindHeader P chain (lookup_ancestor HashData context) of
          None \<Rightarrow> None
        | Some (Inl err) \<Rightarrow> raise (Err ''no record of header found: %w'')
        | Some (Inr h) \<Rightarrow> ret ())))))"

definition lookup_matches :: "(Hash \<times> Hash) list \<Rightarrow> Guarantee \<Rightarrow> st_check" where
  "lookup_matches packages g =
     check_all (\<lambda>(lookupKey, lookupValue).
       require (case_option (zero_octets 32) id (map_of packages lookupKey) = lookupValue) ''segment root lookup invalid'')
       (SegmentRootLookup (g_WorkReport g))"

definition isGuaranteesSortedByCoreIndex :: "Guarantee list \<Rightarrow> bool" where
  "isGuaranteesSortedByCoreIndex guarantees = strictly_ascending (map (\<lambda>g. CoreIndex (g_WorkReport g)) guarantees)"

definition check_signatories :: "Timeslot \<Rightarrow> (Hash \<times> Hash) list \<Rightarrow> Guarantee \<Rightarrow> st_check" where
  "check_signatories newTimeslot packages g =
     res_bind (lookup_matches packages g) (\<lambda>_.
     res_bind (require (strictly_ascending (map cred_ValidatorIndex (Credentials g))) ''not sorted or unique guarantors'') (\<lambda>_.
     res_bind (require (\<not> length (Credentials g) < 2) ''insufficient guarantees'') (\<lambda>_.
       verifyGuaranteeAge g newTimeslot)))"

definition ValidateExtrinsicGuarantees ::
  "(bytes \<Rightarrow> Hash) \<Rightarrow> (bytes \<Rightarrow> Hash) \<Rightarrow> (bytes \<Rightarrow> Hash) \<Rightarrow> 's Pebble \<Rightarrow> Heap \<Rightarrow> Header \<Rightarrow> State \<Rightarrow> Guarantee list \<Rightarrow>
   CoreAssignments \<Rightarrow> Timeslot \<Rightarrow> 's Chain \<Rightarrow> st_check" where
  "ValidateExtrinsicGuarantees HashData KeccakData Sum256 P hp header currentState guarantees currentAssignment newTimeslot chain =
     (let recent = recent_packages currentState; past = fst ` set recent in
      res_bind (check_duplicates past {} guarantees) (\<lambda>_.
      res_bind (check_all (check_guarantee hp header currentState currentAssignment newTimeslot) guarantees) (\<lambda>_.
      res_bind (res_fold (collect_guarantee Sum256 hp currentState) guarantees
          \<lparr>contexts = {}, extrinsicWorkPackages = [], prerequisitePackageHashes = {}, pastWorkPackages = past\<rparr>) (\<lambda>k.
      res_bind (require (length (extrinsicWorkPackages k) = length guarantees)
          ''cardinality of work-package hashes is not equal to the length of work-reports'') (\<lambda>_.
      res_bind (check_all (check_context HashData KeccakData Sum256 P chain header currentState (contexts k)) guarantees) (\<lambda>_.
      res_bind (check_all (\<lambda>(p, root). require (p \<notin> pastWorkPackages k)
          ''report work-package is the work-package of some other report made in the past'') (extrinsicWorkPackages k)) (\<lambda>_.
      let extrinsicAndRecentWorkPackages = add_entries (extrinsicWorkPackages k) recent in
      res_bind (check_all (lookup_matches extrinsicAndRecentWorkPackages) guarantees) (\<lambda>_.
      res_bind (require (prerequisitePackageHashes k \<subseteq> fst ` set (add_entries (extrinsicWorkPackages k) recent)) ''dependency missing'') (\<lambda>_.
      res_bind (require (isGuaranteesSortedByCoreIndex guarantees) ''out of order guarantee'') (\<lambda>_.
        check_all (check_signatories newTimeslot extrinsicAndRecentWorkPackages) guarantees))))))))))"

section \<open>Three validators for every core\<close>

lemma unat32_small: "n < 2 ^ 32 \<Longrightarrow> unat (of_nat n :: u32) = n"
  by (simp only: unsigned_of_nat) (simp add: take_bit_nat_eq_self)

lemma core_indices_eq: "core_indices = map (\<lambda>i. of_nat (i div 3)) [0..<NumberOfValidators]"
proof -
  have "(of_nat TotalNumberOfCores * of_nat i :: u32) div of_nat NumberOfValidators = of_nat (i div 3)" if "i < NumberOfValidators" for i
  proof -
    have "unat (of_nat TotalNumberOfCores * of_nat i :: u32) = unat (of_nat (341 * i) :: u32)"
      by (simp add: TotalNumberOfCores_def)
    also have "\<dots> = 341 * i" using that by (intro unat32_small) (simp add: NumberOfValidators_def)
    finally have "unat ((of_nat TotalNumberOfCores * of_nat i :: u32) div of_nat NumberOfValidators) = i div 3"
      by (simp add: unat_div NumberOfValidators_def)
    moreover have "unat (of_nat (i div 3) :: u32) = i div 3" using that by (intro unat32_small) (simp add: NumberOfValidators_def)
    ultimately show ?thesis by (metis unsigned_word_eqI)
  qed
  then show ?thesis by (simp add: core_indices_def)
qed

lemma mod_below_twice: "a < 341 \<Longrightarrow> b \<le> 341 \<Longrightarrow> (a + b) mod 341 = (if a + b < 341 then a + b else a + b - 341)" for a b :: nat
  by (simp add: le_mod_geq)

lemma rotated_card:
  assumes "c < 341" "n < 341"
  shows "length (filter (\<lambda>i. (i div 3 + n) mod 341 = c) [0..<1023]) = 3"
proof -
  define q where "q = (if n \<le> c then c - n else c + 341 - n)"
  have q: "q < 341" "(q + n) mod 341 = c" using assms by (auto simp: q_def)
  have "{i. i < 1023 \<and> (i div 3 + n) mod 341 = c} = {3 * q, 3 * q + 1, 3 * q + 2}"
  proof (intro set_eqI iffI)
    fix i
    assume "i \<in> {i. i < 1023 \<and> (i div 3 + n) mod 341 = c}"
    then have i: "i div 3 < 341" "(i div 3 + n) mod 341 = (q + n) mod 341" using q(2) by auto
    then have "i div 3 = q" using q(1) assms(2) by (simp add: mod_below_twice split: if_splits)
    then show "i \<in> {3 * q, 3 * q + 1, 3 * q + 2}" by auto
  next
    fix i
    assume "i \<in> {3 * q, 3 * q + 1, 3 * q + 2}"
    then have "i div 3 = q" by auto
    then show "i \<in> {i. i < 1023 \<and> (i div 3 + n) mod 341 = c}" using q by auto
  qed
  then have "card {i. i < 1023 \<and> (i div 3 + n) mod 341 = c} = 3" by simp
  moreover have "{i. i < 1023 \<and> (i div 3 + n) mod 341 = c} = set (filter (\<lambda>i. (i div 3 + n) mod 341 = c) [0..<1023])" by auto
  ultimately show ?thesis by (metis distinct_card distinct_filter distinct_upt)
qed

lemma PermuteAssignments_mset:
  assumes "\<And>x. length (HashData x) = 32"
  shows "\<exists>cas. PermuteAssignments HashData entropy t = ret cas \<and>
    mset cas = mset (map (\<lambda>i. of_nat ((i div 3 + unat (t mod 600 div 10)) mod 341)) [0..<1023])"
proof -
  let ?n = "t mod 600 div 10 :: u32"
  have n: "unat ?n < 60" by (simp add: unat_div unat_mod)
  obtain s where s: "DeterministicShuffle HashData core_indices entropy = ret s" "mset s = mset core_indices"
    using DeterministicShuffle_permutes [of HashData core_indices entropy] assms by (auto simp: core_indices_def NumberOfValidators_def)
  have "(of_nat (i div 3) + ?n) mod 341 = of_nat ((i div 3 + unat ?n) mod 341)" if "i < 1023" for i
  proof -
    have "of_nat (i div 3) + ?n = of_nat (i div 3 + unat ?n)" by simp
    moreover have "unat (of_nat (i div 3 + unat ?n) :: u32) = i div 3 + unat ?n" using that n by (intro unat32_small) simp
    ultimately have "unat ((of_nat (i div 3) + ?n) mod 341) = (i div 3 + unat ?n) mod 341" by (simp only: unat_mod) simp
    moreover have "unat (of_nat ((i div 3 + unat ?n) mod 341) :: u32) = (i div 3 + unat ?n) mod 341"
      by (intro unat32_small) (rule less_trans [OF mod_less_divisor], simp_all)
    ultimately show ?thesis by (metis unsigned_word_eqI)
  qed
  then have "mset (RotateSequence s ?n) = mset (map (\<lambda>i. of_nat ((i div 3 + unat ?n) mod 341)) [0..<1023])"
    unfolding RotateSequence_def mset_map s(2) core_indices_eq
    by (auto simp: TotalNumberOfCores_def NumberOfValidators_def multiset.map_comp intro!: image_mset_cong)
  then show ?thesis
    using s(1) by (simp add: PermuteAssignments_def TimeslotsPerEpoch_def ValidatorRotationPeriod_def)
qed

lemma length_filter_mset: "mset xs = mset ys \<Longrightarrow> length (filter P xs) = length (filter P ys)"
  by (metis mset_filter size_mset)

section \<open>Credentials and accepted guarantees\<close>

text \<open>A credential that was verified: its validator is assigned to the core and signed the report.\<close>

definition credential_ok ::
  "ed25519 \<Rightarrow> (bytes \<Rightarrow> Hash) \<Rightarrow> ValidatorState \<Rightarrow> EntropyPool \<Rightarrow> Timeslot \<Rightarrow> Guarantee \<Rightarrow> CredentialSignature \<Rightarrow> bytes \<Rightarrow> bool" where
  "credential_ok check HashData vs entropyPool now g cr key \<longleftrightarrow>
     (\<exists>validators entropy slot cas vk message.
        determineValidatorsAndDataForPermutation (g_Timeslot g) now entropyPool (CurrentValidators vs) (ArchivedValidators vs) =
          (validators, entropy, slot) \<and>
        PermuteAssignments HashData entropy slot = ret cas \<and> unat (cred_ValidatorIndex cr) < length cas \<and>
        cas ! unat (cred_ValidatorIndex cr) = ucast (CoreIndex (g_WorkReport g)) \<and>
        validators ! unat (cred_ValidatorIndex cr) = Some vk \<and> key = Ed25519 vk \<and>
        guarantee_message HashData (g_WorkReport g) = ret message \<and> check key message (cred_Signature cr))"

lemma lift_jam_ret [simp]: "lift_jam r = ret x \<longleftrightarrow> r = ret x"
  by (auto simp: lift_jam_def split: option.splits sum.splits)

lemma verify_credential_result:
  "verify_credential check validators cas core message cr = ret key \<Longrightarrow>
   unat (cred_ValidatorIndex cr) < length cas \<and> cas ! unat (cred_ValidatorIndex cr) = ucast core \<and>
   (\<exists>vk. validators ! unat (cred_ValidatorIndex cr) = Some vk \<and> key = Ed25519 vk \<and> check key message (cred_Signature cr))"
  by (auto simp: verify_credential_def Let_def isValidatorAssignedToCore_def go_index_def res_bind_ret_iff
      split: if_splits option.splits)

lemma credentials_verified:
  assumes "verifyGuaranteeCredentials check HashData g vs entropyPool now = ret reporters"
  shows "\<forall>cr \<in> set (Credentials g). \<exists>key \<in> reporters. credential_ok check HashData vs entropyPool now g cr key"
    and "\<forall>key \<in> reporters. \<exists>cr \<in> set (Credentials g). credential_ok check HashData vs entropyPool now g cr key"
proof -
  obtain validators entropy slot where d: "determineValidatorsAndDataForPermutation (g_Timeslot g) now entropyPool (CurrentValidators vs)
      (ArchivedValidators vs) = (validators, entropy, slot)" by (metis prod_cases3)
  obtain cas message keys where p: "PermuteAssignments HashData entropy slot = ret cas"
    "guarantee_message HashData (g_WorkReport g) = ret message" "reporters = set keys"
    and keys: "res_map (verify_credential check validators cas (CoreIndex (g_WorkReport g)) message) (Credentials g) = ret keys"
    using assms by (auto simp: verifyGuaranteeCredentials_def d res_bind_ret_iff)
  have ok: "credential_ok check HashData vs entropyPool now g cr key"
    if "verify_credential check validators cas (CoreIndex (g_WorkReport g)) message cr = ret key" for cr key
    using verify_credential_result [OF that] d p(1,2) unfolding credential_ok_def by blast
  show "\<forall>cr \<in> set (Credentials g). \<exists>key \<in> reporters. credential_ok check HashData vs entropyPool now g cr key"
    using keys ok unfolding res_map_ret p(3) by (metis in_set_conv_nth)
  show "\<forall>key \<in> reporters. \<exists>cr \<in> set (Credentials g). credential_ok check HashData vs entropyPool now g cr key"
    using res_map_ret_mem [OF keys] ok unfolding p(3) by blast
qed

lemma res_fold_invariant:
  assumes "res_fold f xs s = ret t" "I s"
    "\<And>x s s'. x \<in> set xs \<Longrightarrow> I s \<Longrightarrow> f x s = ret s' \<Longrightarrow> I s'"
  shows "I t"
  using assms
proof (induction xs arbitrary: s)
  case (Cons x xs)
  then obtain s1 where "f x s = ret s1" "res_fold f xs s1 = ret t" by (auto simp: res_bind_ret_iff)
  then show ?case using Cons.IH [of s1] Cons.prems(2,3) by (metis list.set_intros)
qed simp

lemma assign_guarantee_result:
  assumes "assign_guarantee check HashData cas vs now pool g (as1, rs1) = ret (as2, rs2)"
  shows "(as2 = as1 \<and> rs2 = rs1) \<or>
    (\<exists>rs. as2 = as1[unat (CoreIndex (g_WorkReport g)) := Some \<lparr>as_WorkReport = Some (g_WorkReport g), as_Time = now\<rparr>] \<and> rs2 = rs1 \<union> rs \<and>
      isAssignmentValid (cas ! unat (CoreIndex (g_WorkReport g))) now \<and> g_Timeslot g \<le> now \<and>
      verifyGuaranteeCredentials check HashData g vs pool now = ret rs)"
  using assms
  by (auto simp: assign_guarantee_def Let_def go_index_def res_bind_ret_iff not_less split: if_splits option.splits)

text \<open>What holds of every core after some of the guarantees: it is as before, or a guarantee was put there.\<close>

definition reported :: "ed25519 \<Rightarrow> (bytes \<Rightarrow> Hash) \<Rightarrow> Guarantee list \<Rightarrow> CoreAssignments \<Rightarrow> ValidatorState \<Rightarrow> Timeslot \<Rightarrow> EntropyPool \<Rightarrow>
    CoreAssignments \<times> bytes set \<Rightarrow> bool" where
  "reported check HashData gs cas vs now pool = (\<lambda>(as', reporters).
     length as' = length cas \<and>
     (\<forall>c < length cas. as' ! c = cas ! c \<or>
       (\<exists>g \<in> set gs. unat (CoreIndex (g_WorkReport g)) = c \<and> as' ! c = Some \<lparr>as_WorkReport = Some (g_WorkReport g), as_Time = now\<rparr> \<and>
          isAssignmentValid (cas ! c) now \<and> g_Timeslot g \<le> now \<and>
          (\<forall>cr \<in> set (Credentials g). \<exists>key \<in> reporters. credential_ok check HashData vs pool now g cr key))) \<and>
     (\<forall>key \<in> reporters. \<exists>g \<in> set gs. \<exists>cr \<in> set (Credentials g). credential_ok check HashData vs pool now g cr key))"

lemma reported_step:
  assumes "g \<in> set gs" "reported check HashData gs cas vs now pool (as1, rs1)"
    "assign_guarantee check HashData cas vs now pool g (as1, rs1) = ret (as2, rs2)"
  shows "reported check HashData gs cas vs now pool (as2, rs2)"
proof -
  let ?c = "unat (CoreIndex (g_WorkReport g))"
  consider "as2 = as1" "rs2 = rs1"
    | rs where "as2 = as1[?c := Some \<lparr>as_WorkReport = Some (g_WorkReport g), as_Time = now\<rparr>]" "rs2 = rs1 \<union> rs"
      "isAssignmentValid (cas ! ?c) now" "g_Timeslot g \<le> now" "verifyGuaranteeCredentials check HashData g vs pool now = ret rs"
    using assign_guarantee_result [OF assms(3)] by blast
  then show ?thesis
  proof cases
    case 2
    have here: "as2 ! c = cas ! c \<or> (\<exists>g \<in> set gs. unat (CoreIndex (g_WorkReport g)) = c \<and>
        as2 ! c = Some \<lparr>as_WorkReport = Some (g_WorkReport g), as_Time = now\<rparr> \<and> isAssignmentValid (cas ! c) now \<and> g_Timeslot g \<le> now \<and>
        (\<forall>cr \<in> set (Credentials g). \<exists>key \<in> rs2. credential_ok check HashData vs pool now g cr key))" if "c < length cas" for c
    proof (cases "c = ?c")
      case True
      then have "as2 ! c = Some \<lparr>as_WorkReport = Some (g_WorkReport g), as_Time = now\<rparr>"
        using that assms(2) 2(1) by (simp add: reported_def)
      then show ?thesis using True 2 assms(1) credentials_verified(1) [OF 2(5)] by blast
    next
      case False
      then have "as2 ! c = as1 ! c" using 2(1) by simp
      then show ?thesis using assms(2) that 2(2) unfolding reported_def prod.case by (metis Un_iff)
    qed
    have "\<forall>key \<in> rs2. \<exists>g \<in> set gs. \<exists>cr \<in> set (Credentials g). credential_ok check HashData vs pool now g cr key"
      using assms(1,2) 2(2) credentials_verified(2) [OF 2(5)] unfolding reported_def prod.case by blast
    moreover have "length as2 = length cas" using assms(2) 2(1) by (simp add: reported_def)
    ultimately show ?thesis using here by (simp add: reported_def)
  qed (use assms(2) in simp)
qed

lemma guarantees_reported:
  assumes "CalculateNewCoreAssignments check HashData gs cas vs now pool = ret r"
  shows "reported check HashData gs cas vs now pool r"
proof (rule res_fold_invariant [where I = "reported check HashData gs cas vs now pool"])
  show "res_fold (assign_guarantee check HashData cas vs now pool) gs (cas, {}) = ret r"
    using assms by (simp add: CalculateNewCoreAssignments_def)
  show "reported check HashData gs cas vs now pool (cas, {})" by (simp add: reported_def)
  show "reported check HashData gs cas vs now pool s'" if "g \<in> set gs" "reported check HashData gs cas vs now pool s"
    "assign_guarantee check HashData cas vs now pool g s = ret s'" for g s s'
    using reported_step [OF that(1)] that(2,3) by (cases s; cases s') simp
qed

section \<open>What accepted guarantees satisfy\<close>

definition recent_keys :: "State \<Rightarrow> Hash set" where
  "recent_keys st = (\<Union>b \<in> set (RecentBlocks st). fst ` set (WorkReportHashes b))"

lemma keys_update: "fst ` set (AList.update k v m) = insert k (fst ` set m)"
  by (simp add: dom_update)

lemma keys_add_entries: "fst ` set (add_entries m es) = fst ` set m \<union> fst ` set es"
  unfolding add_entries_def
proof (induction es arbitrary: m)
  case (Cons e es)
  then show ?case by (cases e) (simp add: keys_update)
qed simp

lemma keys_recent_packages: "fst ` set (recent_packages st) = recent_keys st"
proof -
  have keys: "fst ` set (foldl (\<lambda>m b. add_entries m (WorkReportHashes b)) m bs) = fst ` set m \<union> (\<Union>b \<in> set bs. fst ` set (WorkReportHashes b))"
    for m bs by (induction bs arbitrary: m) (auto simp: keys_add_entries)
  show ?thesis unfolding recent_packages_def recent_keys_def keys by simp
qed

lemma check_duplicates_ret:
  "check_duplicates past seen gs = ret u \<longleftrightarrow>
   distinct (map package_hash gs) \<and> (\<forall>g \<in> set gs. package_hash g \<notin> seen \<and> package_hash g \<notin> past)"
  by (induction gs arbitrary: seen) (auto intro: rev_image_eqI)

lemma collected:
  "res_fold (collect_guarantee Sum256 hp st) gs k = ret k' \<Longrightarrow>
   fst ` set (extrinsicWorkPackages k') = fst ` set (extrinsicWorkPackages k) \<union> package_hash ` set gs \<and>
   prerequisitePackageHashes k' = prerequisitePackageHashes k \<union>
     (\<Union>g \<in> set gs. fst ` set (SegmentRootLookup (g_WorkReport g)) \<union> set (PrerequisiteWorkPackage (rep_Context (g_WorkReport g)))) \<and>
   (\<forall>g \<in> set gs. check_gas hp st (WorkResults (g_WorkReport g)) = ret () \<and>
      length (PrerequisiteWorkPackage (rep_Context (g_WorkReport g))) + length (SegmentRootLookup (g_WorkReport g)) \<le> 8)"
proof (induction gs arbitrary: k)
  case (Cons g gs)
  then obtain k1 where k1: "collect_guarantee Sum256 hp st g k = ret k1" "res_fold (collect_guarantee Sum256 hp st) gs k1 = ret k'"
    by (auto simp: res_bind_ret_iff)
  have "fst ` set (extrinsicWorkPackages k1) = insert (package_hash g) (fst ` set (extrinsicWorkPackages k))"
    "prerequisitePackageHashes k1 = prerequisitePackageHashes k \<union> fst ` set (SegmentRootLookup (g_WorkReport g)) \<union>
       set (PrerequisiteWorkPackage (rep_Context (g_WorkReport g)))"
    "check_gas hp st (WorkResults (g_WorkReport g)) = ret ()"
    "length (PrerequisiteWorkPackage (rep_Context (g_WorkReport g))) + length (SegmentRootLookup (g_WorkReport g)) \<le> 8"
    using k1(1) by (clarsimp simp: collect_guarantee_def Let_def res_bind_ret_iff keys_update WorkReportMaxSumOfDependencies_def not_less)+
  then show ?case using Cons.IH [OF k1(2)] by auto
qed simp

lemma verifyGuaranteeAge_ret:
  "verifyGuaranteeAge g now = ret u \<longleftrightarrow> g_Timeslot g \<le> now \<and> unat now div 10 - unat (g_Timeslot g) div 10 \<le> 1"
proof -
  have "now div 10 - g_Timeslot g div 10 \<le> 1 \<longleftrightarrow> unat now div 10 - unat (g_Timeslot g) div 10 \<le> 1" if "g_Timeslot g \<le> now"
  proof -
    have "g_Timeslot g div 10 \<le> now div 10" using that by (simp add: word_le_nat_alt unat_div div_le_mono)
    then have "unat (now div 10 - g_Timeslot g div 10) = unat (now div 10) - unat (g_Timeslot g div 10)" by (rule unat_sub)
    then show ?thesis by (simp add: word_le_nat_alt unat_div)
  qed
  then show ?thesis by (auto simp: verifyGuaranteeAge_def ValidatorRotationPeriod_def Let_def not_less split: if_splits)
qed

lemma anchor_found:
  "anchorBlockInRecentBlocks KeccakData context st = ret u \<Longrightarrow>
   \<exists>y \<in> set (RecentBlocks st). anchor_HeaderHash context = bs_HeaderHash y \<and> PosteriorStateRoot context = StateRoot y \<and>
     PosteriorBeefyRoot context = SuperPeak (AccumulationResultMMR y) KeccakData"
  by (auto simp: anchorBlockInRecentBlocks_def res_bind_ret_iff find_Some_iff split: option.splits dest: nth_mem)

lemma accepted_checks:
  assumes "ValidateExtrinsicGuarantees HashData KeccakData Sum256 P hp header st gs cas now chain = ret u" "g \<in> set gs"
  shows "check_guarantee hp header st cas now g = ret ()"
    "\<exists>ids. check_context HashData KeccakData Sum256 P chain header st ids g = ret ()"
    "\<exists>packages. check_signatories now packages g = ret ()"
  using assms by (auto simp: ValidateExtrinsicGuarantees_def Let_def res_bind_ret_iff)

lemma accepted_packages:
  assumes "ValidateExtrinsicGuarantees HashData KeccakData Sum256 P hp header st gs cas now chain = ret u"
  shows "distinct (map package_hash gs)" "package_hash ` set gs \<inter> recent_keys st = {}"
    "sorted_wrt (<) (map (\<lambda>g. CoreIndex (g_WorkReport g)) gs)"
    "\<forall>g \<in> set gs. check_gas hp st (WorkResults (g_WorkReport g)) = ret () \<and>
      length (PrerequisiteWorkPackage (rep_Context (g_WorkReport g))) + length (SegmentRootLookup (g_WorkReport g)) \<le> 8 \<and>
      set (PrerequisiteWorkPackage (rep_Context (g_WorkReport g))) \<union> fst ` set (SegmentRootLookup (g_WorkReport g)) \<subseteq>
        package_hash ` set gs \<union> recent_keys st"
proof -
  let ?k = "\<lparr>contexts = {}, extrinsicWorkPackages = [], prerequisitePackageHashes = {}, pastWorkPackages = fst ` set (recent_packages st)\<rparr>"
  obtain k where k: "res_fold (collect_guarantee Sum256 hp st) gs ?k = ret k"
    "prerequisitePackageHashes k \<subseteq> fst ` set (add_entries (extrinsicWorkPackages k) (recent_packages st))"
    and dup: "check_duplicates (fst ` set (recent_packages st)) {} gs = ret ()" and "isGuaranteesSortedByCoreIndex gs"
    using assms by (auto simp: ValidateExtrinsicGuarantees_def Let_def res_bind_ret_iff)
  then show "sorted_wrt (<) (map (\<lambda>g. CoreIndex (g_WorkReport g)) gs)"
    by (simp add: isGuaranteesSortedByCoreIndex_def strictly_ascending_iff)
  show "distinct (map package_hash gs)" "package_hash ` set gs \<inter> recent_keys st = {}"
    using dup by (auto simp: check_duplicates_ret keys_recent_packages)
  show "\<forall>g \<in> set gs. check_gas hp st (WorkResults (g_WorkReport g)) = ret () \<and>
      length (PrerequisiteWorkPackage (rep_Context (g_WorkReport g))) + length (SegmentRootLookup (g_WorkReport g)) \<le> 8 \<and>
      set (PrerequisiteWorkPackage (rep_Context (g_WorkReport g))) \<union> fst ` set (SegmentRootLookup (g_WorkReport g)) \<subseteq>
        package_hash ` set gs \<union> recent_keys st"
    using collected [OF k(1)] k(2) unfolding keys_add_entries keys_recent_packages by auto
qed

section \<open>An example\<close>

text \<open>A guarantee of a report, of the given timeslot and with the given credentials.\<close>

definition demo_guarantee :: "Timeslot \<Rightarrow> CredentialSignature list \<Rightarrow> Guarantee" where
  "demo_guarantee t cs = \<lparr>g_WorkReport = demo_report, g_Timeslot = t, Credentials = cs\<rparr>"

lemma report_message:
  assumes "wf_report w"
  shows "\<exists>m. guarantee_message HashData w = ret m"
proof -
  obtain bs where "marshal (stack_depth WorkReport_type) WorkReport_type (WorkReport_value w) = ret bs"
    using jam.encode_decode [OF encodable_report [OF assms]] by blast
  then show ?thesis by (simp add: guarantee_message_def Marshal_def lift_jam_def)
qed

lemma demo_guarantee_accepted:
  "\<exists>cr. \<exists>r. CalculateNewCoreAssignments any_signature (\<lambda>x. zero_octets 32) [demo_guarantee 20 [cr]] (replicate TotalNumberOfCores None)
     (st_ValidatorState demo_chain) 25 (st_EntropyPool demo_chain) = ret r"
proof -
  let ?H = "\<lambda>x :: bytes. zero_octets 32"
  let ?vs = "replicate NumberOfValidators (Some demo_key)"
  obtain cas where cas: "PermuteAssignments ?H (zero_octets 32) 25 = ret cas"
    "mset cas = mset (map (\<lambda>i. of_nat ((i div 3 + unat (25 mod 600 div 10 :: u32)) mod 341)) [0..<1023])"
    using PermuteAssignments_mset [of ?H "zero_octets 32" 25] by auto
  have "of_nat ((3 div 3 + unat (25 mod 600 div 10 :: u32)) mod 341) \<in> set cas" 
    unfolding mset_eq_setD [OF cas(2)] set_map by (rule imageI) simp
  then have "(3 :: u32) \<in> set cas" by simp
  then obtain i where i: "i < length cas" "cas ! i = 3" by (auto simp: in_set_conv_nth)
  have "length cas = 1023" using arg_cong [OF cas(2), of size] by simp
  then have "i < 1023" using i(1) by simp
  then have u: "unat (of_nat i :: u16) = i" "\<not> of_nat i \<ge> (of_nat (length ?vs) :: u16)"
    by (simp_all only: unsigned_of_nat word_le_nat_alt length_replicate NumberOfValidators_def not_le) (simp_all add: take_bit_nat_eq_self)
  have core: "CoreIndex demo_report = 3" by (simp add: demo_report_def)
  define cr where "cr = \<lparr>cred_ValidatorIndex = of_nat i, cred_Signature = zero_octets 64\<rparr>"
  obtain m where "guarantee_message ?H demo_report = ret m" using report_message [OF demo_report_wf] by blast
  moreover have "determineValidatorsAndDataForPermutation 20 25 (replicate 4 (zero_octets 32)) ?vs ?vs = (?vs, zero_octets 32, 25)"
    by (simp add: determineValidatorsAndDataForPermutation_def ValidatorRotationPeriod_def Let_def)
  moreover have "verify_credential any_signature ?vs cas 3 m cr = ret (replicate 32 1)"
    using u i \<open>i < 1023\<close>
    by (simp add: verify_credential_def isValidatorAssignedToCore_def cr_def go_index_def NumberOfValidators_def demo_key_def
        res_bind_ret_iff)
  ultimately have "verifyGuaranteeCredentials any_signature ?H (demo_guarantee 20 [cr]) (st_ValidatorState demo_chain)
      (st_EntropyPool demo_chain) 25 = ret {replicate 32 1}"
    using cas(1) by (simp add: verifyGuaranteeCredentials_def demo_guarantee_def demo_chain_def core lift_jam_def)
  then have "\<exists>r. CalculateNewCoreAssignments any_signature ?H [demo_guarantee 20 [cr]] (replicate TotalNumberOfCores None)
     (st_ValidatorState demo_chain) 25 (st_EntropyPool demo_chain) = ret r"
    by (simp add: CalculateNewCoreAssignments_def assign_guarantee_def go_index_def TotalNumberOfCores_def previousRotationStart_def
        ValidatorRotationPeriod_def isAssignmentValid_def demo_guarantee_def core)
  then show ?thesis by blast
qed

text \<open>A state in which a guarantee of the report passes all checks.\<close>

definition demo_reporting :: State where
  "demo_reporting = demo_chain\<lparr>Services := Some 0, CoreAuthorizersPool := replicate TotalNumberOfCores [zero_octets 32],
     RecentBlocks := [\<lparr>bs_HeaderHash = zero_octets 32, StateRoot = zero_octets 32, AccumulationResultMMR = [], WorkReportHashes = []\<rparr>]\<rparr>"

definition demo_services :: Heap where
  "demo_services = empty_heap\<lparr>states := (\<lambda>_. [(7, ServiceAccount_zero), (8, ServiceAccount_zero)])\<rparr>"

definition demo_signed :: Guarantee where
  "demo_signed = demo_guarantee 20000 [\<lparr>cred_ValidatorIndex = 4, cred_Signature = zero_octets 64\<rparr>,
     \<lparr>cred_ValidatorIndex = 9, cred_Signature = zero_octets 64\<rparr>]"

lemma demo_context_id: "\<exists>i. generateRefinementContextID Sum256 (rep_Context demo_report) = ret i"
proof -
  have "encodable RefinementContext_type (RefinementContext_value (rep_Context demo_report))"
    by (intro encodable_context) (simp_all add: demo_report_def demo_package_def hashes_ok_def)
  then obtain bs where "marshal (stack_depth RefinementContext_type) RefinementContext_type (RefinementContext_value (rep_Context demo_report)) = ret bs"
    using jam.encode_decode by blast
  then show ?thesis by (simp add: generateRefinementContextID_def Marshal_def wrap_jam_def)
qed

abbreviation demo_header :: Header where
  "demo_header \<equiv> Header_zero\<lparr>TimeSlotIndex := 20005\<rparr>"

lemma demo_checks:
  "check_duplicates {} {} [demo_signed] = ret ()"
  "check_guarantee demo_services demo_header demo_reporting (replicate TotalNumberOfCores None) 20005 demo_signed = ret ()"
  "check_signatories 20005 [(zero_octets 32, zero_octets 32)] demo_signed = ret ()"
  "lookup_matches [(zero_octets 32, zero_octets 32)] demo_signed = ret ()"
  "check_gas demo_services demo_reporting (WorkResults demo_report) = ret ()"
proof -
  have core: "unat (CoreIndex demo_report) = 3" "3 < TotalNumberOfCores" by (simp_all add: demo_report_def TotalNumberOfCores_def)
  show "check_duplicates {} {} [demo_signed] = ret ()" by simp
  have "check_result demo_services demo_reporting r = ret ()" if "r \<in> set (WorkResults demo_report)" for r
    using that by (auto simp: check_result_def demo_report_def service_of_def demo_services_def demo_reporting_def go_map_def
        NewSuccessfulWorkResult_def NewErrorWorkResult_def ServiceAccount_zero_def zero_octets_def)
  moreover have "OutputSizeIsValid demo_report" "AuthorizerHash demo_report = zero_octets 32"
    by (simp_all add: OutputSizeIsValid_def demo_report_def NewSuccessfulWorkResult_def NewErrorWorkResult_def MaxWorkPackageSizeBytes_def)
  moreover have "length (CurrentValidators (st_ValidatorState demo_reporting)) = 1023" "CoreAuthorizersPool demo_reporting = replicate TotalNumberOfCores [zero_octets 32]"
    by (simp_all add: demo_reporting_def demo_chain_def NumberOfValidators_def)
  ultimately show "check_guarantee demo_services demo_header demo_reporting (replicate TotalNumberOfCores None) 20005 demo_signed = ret ()"
    using core by (simp add: check_guarantee_def Let_def res_bind_ret_iff demo_signed_def demo_guarantee_def go_index_def isAssignmentValid_def)
  show lookup: "lookup_matches [(zero_octets 32, zero_octets 32)] demo_signed = ret ()"
    by (simp add: lookup_matches_def demo_signed_def demo_guarantee_def demo_report_def require_def)
  show "check_signatories 20005 [(zero_octets 32, zero_octets 32)] demo_signed = ret ()"
    using lookup by (simp add: check_signatories_def res_bind_ret_iff) (simp add: demo_signed_def demo_guarantee_def verifyGuaranteeAge_ret)
  show "check_gas demo_services demo_reporting (WorkResults demo_report) = ret ()"
    by (simp add: check_gas_def res_bind_ret_iff demo_report_def service_of_def demo_services_def demo_reporting_def go_map_def
        NewSuccessfulWorkResult_def NewErrorWorkResult_def ServiceAccount_zero_def MaxAllocatedGasAccumulation_def)
qed

lemma demo_context:
  assumes "generateRefinementContextID Sum256 (rep_Context demo_report) = ret i"
  shows "check_context HashData KeccakData Sum256 memory_db empty_chain demo_header demo_reporting {i} demo_signed = ret ()"
proof -
  have "anchorBlockInRecentBlocks KeccakData (rep_Context demo_report) demo_reporting = ret ()"
    by (simp add: anchorBlockInRecentBlocks_def demo_reporting_def demo_report_def demo_package_def zero_octets_def require_def SuperPeak.simps)
  moreover have "FindHeader memory_db empty_chain f = ret Header_zero" for f
    by (simp add: FindHeader_def empty_chain_def memory_db_def KV_NewIterator_def of_db_def)
  ultimately show ?thesis
    using assms by (simp add: check_context_def Let_def res_bind_ret_iff demo_signed_def demo_guarantee_def)
      (simp add: demo_report_def demo_package_def MaxTimeslotsForPreimage_def)
qed

lemma demo_validated:
  "ValidateExtrinsicGuarantees HashData KeccakData Sum256 memory_db demo_services demo_header demo_reporting [demo_signed]
     (replicate TotalNumberOfCores None) 20005 empty_chain = ret ()"
proof -
  obtain i where i: "generateRefinementContextID Sum256 (rep_Context demo_report) = ret i" using demo_context_id by blast
  have recent: "recent_packages demo_reporting = []" by (simp add: recent_packages_def demo_reporting_def add_entries_def)
  have w: "g_WorkReport demo_signed = demo_report" "package_hash demo_signed = zero_octets 32" "SegmentRoot (Specification demo_report) = zero_octets 32"
    "PrerequisiteWorkPackage (rep_Context demo_report) = []" "SegmentRootLookup demo_report = [(zero_octets 32, zero_octets 32)]"
    by (simp_all add: demo_signed_def demo_guarantee_def package_hash_def demo_report_def demo_package_def)
  have "assigned_prerequisites (st_CoreAssignments demo_reporting) = {}"
    by (simp add: assigned_prerequisites_def demo_reporting_def demo_chain_def)
  then have k: "collect_guarantee Sum256 demo_services demo_reporting demo_signed
      \<lparr>contexts = {}, extrinsicWorkPackages = [], prerequisitePackageHashes = {}, pastWorkPackages = {}\<rparr> =
    ret \<lparr>contexts = {i}, extrinsicWorkPackages = [(zero_octets 32, zero_octets 32)], prerequisitePackageHashes = {zero_octets 32},
      pastWorkPackages = {}\<rparr>"
    using i demo_checks(5) by (simp add: collect_guarantee_def Let_def w require_def WorkReportMaxSumOfDependencies_def)
  show ?thesis
    using demo_checks demo_context [OF i]
    by (simp add: ValidateExtrinsicGuarantees_def recent k require_def isGuaranteesSortedByCoreIndex_def add_entries_def)
qed

section \<open>Properties\<close>

text \<open>
  C14: \<^bold>\<open>Every core gets three validators.\<close> The assignment of the 1023 validators to the 341 cores
  succeeds for every entropy and timeslot, and exactly three validators are assigned to each core.
\<close>

theorem three_validators_per_core:
  assumes "\<And>x. length (HashData x) = 32"
  shows "\<exists>cas. PermuteAssignments HashData entropy t = ret cas \<and> length cas = NumberOfValidators \<and>
    (\<forall>c < TotalNumberOfCores. length (filter (\<lambda>core. core = of_nat c) cas) = 3)"
proof -
  let ?n = "unat (t mod 600 div 10 :: u32)"
  obtain cas where cas: "PermuteAssignments HashData entropy t = ret cas"
    "mset cas = mset (map (\<lambda>i. of_nat ((i div 3 + ?n) mod 341)) [0..<1023])"
    using PermuteAssignments_mset [of HashData entropy t] assms by auto
  have "length (filter (\<lambda>core. core = of_nat c) cas) = 3" if "c < TotalNumberOfCores" for c
  proof -
    have "(of_nat ((i div 3 + ?n) mod 341) = (of_nat c :: u32)) = ((i div 3 + ?n) mod 341 = c)" for i
    proof -
      have "unat (of_nat ((i div 3 + ?n) mod 341) :: u32) = (i div 3 + ?n) mod 341"
        by (intro unat32_small) (rule less_trans [OF mod_less_divisor], simp_all)
      moreover have "unat (of_nat c :: u32) = c" using that by (intro unat32_small) (simp add: TotalNumberOfCores_def)
      ultimately show ?thesis by metis
    qed
    moreover have "?n < 341" by (simp add: unat_div unat_mod)
    ultimately show ?thesis
      using rotated_card [of c ?n] that unfolding length_filter_mset [OF cas(2)] by (simp add: filter_map o_def TotalNumberOfCores_def)
  qed
  moreover have "length cas = NumberOfValidators" using arg_cong [OF cas(2), of size] by (simp add: NumberOfValidators_def)
  ultimately show ?thesis using cas(1) by blast
qed

theorem three_validators_per_core_witness:
  "\<exists>cas. PermuteAssignments (\<lambda>x. replicate 32 (of_nat (length x))) (replicate 32 5) 1234 = ret cas \<and>
    length (filter (\<lambda>core. core = of_nat 3) cas) = 3"
proof -
  have "3 < TotalNumberOfCores" by (simp add: TotalNumberOfCores_def)
  then show ?thesis
    using three_validators_per_core [of "\<lambda>x. replicate 32 (of_nat (length x))" "replicate 32 5" 1234] by (simp only: length_replicate) blast
qed

text \<open>
  C12: \<^bold>\<open>Reports come onto cores with the signatures of their guarantors.\<close> When the guarantees of a block are
  accepted, every core keeps its assignment or has the report of one of the guarantees, with the time
  of the block; then the core was free or its report had timed out, and each credential of the
  guarantee is a signature of the report by a validator that the shuffle assigns to the core. The
  reporters are the keys of these validators.
\<close>

theorem guaranteed_reports_signed:
  assumes "CalculateNewCoreAssignments check HashData guarantees cas vs now pool = ret (cas', reporters)"
  shows "length cas' = length cas \<and>
    (\<forall>c < length cas. cas' ! c = cas ! c \<or>
      (\<exists>g \<in> set guarantees. unat (CoreIndex (g_WorkReport g)) = c \<and>
         cas' ! c = Some \<lparr>as_WorkReport = Some (g_WorkReport g), as_Time = now\<rparr> \<and>
         isAssignmentValid (cas ! c) now \<and> g_Timeslot g \<le> now \<and>
         (\<forall>cr \<in> set (Credentials g). \<exists>key \<in> reporters. credential_ok check HashData vs pool now g cr key))) \<and>
    (\<forall>key \<in> reporters. \<exists>g \<in> set guarantees. \<exists>cr \<in> set (Credentials g). credential_ok check HashData vs pool now g cr key)"
  using guarantees_reported [OF assms] by (simp add: reported_def)

theorem guaranteed_reports_signed_witness:
  "\<exists>cr cas' reporters. CalculateNewCoreAssignments any_signature (\<lambda>x. zero_octets 32) [demo_guarantee 20 [cr]]
      (replicate TotalNumberOfCores None) (st_ValidatorState demo_chain) 25 (st_EntropyPool demo_chain) = ret (cas', reporters) \<and>
    length cas' = TotalNumberOfCores"
proof -
  obtain cr cas' reporters where r: "CalculateNewCoreAssignments any_signature (\<lambda>x. zero_octets 32) [demo_guarantee 20 [cr]]
      (replicate TotalNumberOfCores None) (st_ValidatorState demo_chain) 25 (st_EntropyPool demo_chain) = ret (cas', reporters)"
    using demo_guarantee_accepted by auto
  then show ?thesis using guaranteed_reports_signed [OF r] by auto
qed

text \<open>
  \<^bold>\<open>Guarantees of the first rotation are rejected.\<close> Before the tenth timeslot the start of the previous
  rotation wraps around to the end of time, so a block with any guarantee fails.
\<close>

theorem early_guarantees_rejected:
  assumes "now < 10" "guarantees \<noteq> []" "\<forall>g \<in> set guarantees. g_Timeslot g \<le> now"
  shows "CalculateNewCoreAssignments check HashData guarantees cas vs now pool = raise (Err ''timeslot out of range'')"
proof -
  obtain g gs where g: "guarantees = g # gs" using assms(2) by (cases guarantees) auto
  have "unat (now div 10) = 0" using assms(1) by (simp add: unat_div word_less_nat_alt)
  then have "now div 10 = 0" by (simp add: unsigned_eq_0_iff)
  then have start: "previousRotationStart now = 4294967286" by (simp add: previousRotationStart_def ValidatorRotationPeriod_def)
  have "g_Timeslot g < 4294967286" using assms(1,3) g by (auto intro: le_less_trans less_trans)
  then show ?thesis by (simp add: CalculateNewCoreAssignments_def g assign_guarantee_def start)
qed

theorem early_guarantees_rejected_witness:
  "CalculateNewCoreAssignments any_signature (\<lambda>x. zero_octets 32) [demo_guarantee 3 []] demo_assignments
     (st_ValidatorState demo_chain) 5 (st_EntropyPool demo_chain) = raise (Err ''timeslot out of range'')"
  using early_guarantees_rejected [of 5 "[demo_guarantee 3 []]"] by (simp add: demo_guarantee_def)

text \<open>
  C13: \<^bold>\<open>Accepted guarantees are in order.\<close> When \<^verbatim>\<open>ValidateExtrinsicGuarantees\<close> accepts, the guarantees are in
  strictly ascending order of their cores and report distinct packages that no recent block reported;
  each is authorised for its core, which is free or timed out, names existing services by their code
  and gives them the gas they ask for, depends only on packages of the block or of recent blocks,
  refers to a recent block with its state root and super peak, has at least two credentials of
  distinct validators in order, and was made in the current rotation or the one before.
\<close>

theorem accepted_guarantees_valid:
  assumes "ValidateExtrinsicGuarantees HashData KeccakData Sum256 P hp header st gs cas now chain = ret ()"
  shows "sorted_wrt (<) (map (\<lambda>g. CoreIndex (g_WorkReport g)) gs) \<and> distinct (map package_hash gs) \<and>
    package_hash ` set gs \<inter> recent_keys st = {} \<and>
    (\<forall>g \<in> set gs. \<forall>w. w = g_WorkReport g \<longrightarrow>
       AuthorizerHash w \<in> set (CoreAuthorizersPool st ! unat (CoreIndex w)) \<and> isAssignmentValid (cas ! unat (CoreIndex w)) now \<and>
       OutputSizeIsValid w \<and>
       (\<forall>r \<in> set (WorkResults w). \<exists>sa. service_of hp (Services st) (res_ServiceId r) = Some sa \<and> CodeHash sa = ServiceHashCode r \<and>
          GasLimitForAccumulator sa \<le> GasPrioritizationRatio r) \<and>
       length (PrerequisiteWorkPackage (rep_Context w)) + length (SegmentRootLookup w) \<le> 8 \<and>
       set (PrerequisiteWorkPackage (rep_Context w)) \<union> fst ` set (SegmentRootLookup w) \<subseteq> package_hash ` set gs \<union> recent_keys st \<and>
       (\<exists>y \<in> set (RecentBlocks st). anchor_HeaderHash (rep_Context w) = bs_HeaderHash y \<and> PosteriorStateRoot (rep_Context w) = StateRoot y \<and>
          PosteriorBeefyRoot (rep_Context w) = SuperPeak (AccumulationResultMMR y) KeccakData) \<and>
       2 \<le> length (Credentials g) \<and> sorted_wrt (<) (map cred_ValidatorIndex (Credentials g)) \<and>
       g_Timeslot g \<le> now \<and> unat now div 10 - unat (g_Timeslot g) div 10 \<le> 1)"
proof (intro conjI ballI allI impI)
  fix g w
  assume g: "g \<in> set gs" and w: "w = g_WorkReport g"
  note checks = accepted_checks [OF assms g]
  have gas: "check_gas hp st (WorkResults w) = ret ()" using accepted_packages(4) [OF assms] g w by blast
  have cg: "AuthorizerHash w \<in> set (CoreAuthorizersPool st ! unat (CoreIndex w)) \<and> isAssignmentValid (cas ! unat (CoreIndex w)) now \<and>
      OutputSizeIsValid w \<and> (\<forall>r \<in> set (WorkResults w). check_result hp st r = ret ())"
    using checks(1) w by (auto simp: check_guarantee_def Let_def res_bind_ret_iff go_index_def split: option.splits if_splits)
  then show "AuthorizerHash w \<in> set (CoreAuthorizersPool st ! unat (CoreIndex w))" "isAssignmentValid (cas ! unat (CoreIndex w)) now"
    "OutputSizeIsValid w" by blast+
  show "\<exists>sa. service_of hp (Services st) (res_ServiceId r) = Some sa \<and> CodeHash sa = ServiceHashCode r \<and>
      GasLimitForAccumulator sa \<le> GasPrioritizationRatio r" if "r \<in> set (WorkResults w)" for r
    using cg gas that by (force simp: check_result_def check_gas_def res_bind_ret_iff not_less split: option.splits)
  show "length (PrerequisiteWorkPackage (rep_Context w)) + length (SegmentRootLookup w) \<le> 8"
    "set (PrerequisiteWorkPackage (rep_Context w)) \<union> fst ` set (SegmentRootLookup w) \<subseteq> package_hash ` set gs \<union> recent_keys st"
    using accepted_packages(4) [OF assms] g w by blast+
  show "\<exists>y \<in> set (RecentBlocks st). anchor_HeaderHash (rep_Context w) = bs_HeaderHash y \<and> PosteriorStateRoot (rep_Context w) = StateRoot y \<and>
      PosteriorBeefyRoot (rep_Context w) = SuperPeak (AccumulationResultMMR y) KeccakData"
    using checks(2) w by (auto simp: check_context_def Let_def res_bind_ret_iff intro!: anchor_found)
  have "2 \<le> length (Credentials g) \<and> sorted_wrt (<) (map cred_ValidatorIndex (Credentials g)) \<and> verifyGuaranteeAge g now = ret ()"
    using checks(3) by (auto simp: check_signatories_def res_bind_ret_iff strictly_ascending_iff not_less)
  then show "2 \<le> length (Credentials g)" "sorted_wrt (<) (map cred_ValidatorIndex (Credentials g))"
    "g_Timeslot g \<le> now" "unat now div 10 - unat (g_Timeslot g) div 10 \<le> 1" by (simp_all add: verifyGuaranteeAge_ret)
qed (use accepted_packages [OF assms] in blast)+

theorem accepted_guarantees_valid_witness:
  "ValidateExtrinsicGuarantees (\<lambda>x. take 32 x) (\<lambda>x. take 32 x) (\<lambda>x. take 32 x) memory_db demo_services demo_header demo_reporting [demo_signed]
     (replicate TotalNumberOfCores None) 20005 empty_chain = ret () \<and> 2 \<le> length (Credentials demo_signed) \<and> g_Timeslot demo_signed \<le> 20005"
  using accepted_guarantees_valid [OF demo_validated] demo_validated by simp

text \<open>
  \<^bold>\<open>The window of the lookup anchor is inverted.\<close> Guarantees are to refer to a lookup anchor of the last
  14400 timeslots. What \<^verbatim>\<open>ValidateExtrinsicGuarantees\<close> accepts refers to an older one: the comparison is the
  wrong way round.
\<close>

theorem lookup_anchor_inverted:
  assumes "ValidateExtrinsicGuarantees HashData KeccakData Sum256 P hp header st gs cas now chain = ret ()"
    "14400 \<le> TimeSlotIndex header" "g \<in> set gs"
  shows "unat (lookup_Timeslot (rep_Context (g_WorkReport g))) + 14400 < unat (TimeSlotIndex header)"
proof -
  have "lookup_Timeslot (rep_Context (g_WorkReport g)) < TimeSlotIndex header - 14400"
    using accepted_checks(2) [OF assms(1,3)] by (auto simp: check_context_def Let_def res_bind_ret_iff MaxTimeslotsForPreimage_def)
  moreover have "unat (TimeSlotIndex header - 14400) = unat (TimeSlotIndex header) - 14400"
    using unat_sub [OF assms(2)] by simp
  ultimately show ?thesis by (simp add: word_less_nat_alt)
qed

theorem lookup_anchor_inverted_witness:
  "ValidateExtrinsicGuarantees (\<lambda>x. take 32 x) (\<lambda>x. take 32 x) (\<lambda>x. take 32 x) memory_db demo_services demo_header demo_reporting [demo_signed]
     (replicate TotalNumberOfCores None) 20005 empty_chain = ret () \<and>
   unat (lookup_Timeslot (rep_Context (g_WorkReport demo_signed))) + 14400 < 20005"
  using lookup_anchor_inverted [OF demo_validated, of demo_signed] demo_validated by simp

end
