(* ===== verification/Accumulation.thy ===== *)
theory Accumulation
  imports Guarantees
begin

text \<open>
  Accumulation (\<^verbatim>\<open>CalculateWorkReportsAndAccumulate\<close>, \<^verbatim>\<open>SequentialDelta\<close>, \<^verbatim>\<open>ParallelDelta\<close>, \<^verbatim>\<open>Delta1\<close> and
  their helpers in \<^verbatim>\<open>internal/statetransition/state_transition.go\<close>): which reports are accumulated, the runs
  of their services, and the queue and the history of reports.
\<close>

section \<open>Runs\<close>

text \<open>
  What may run for ever or panic: \<open>None\<close> does not return, \<open>Some None\<close> panics.
\<close>

type_synonym 'a run = "'a option option"

definition run_bind :: "'a run \<Rightarrow> ('a \<Rightarrow> 'b run) \<Rightarrow> 'b run" where
  "run_bind r f = (case r of None \<Rightarrow> None | Some None \<Rightarrow> Some None | Some (Some x) \<Rightarrow> f x)"

abbreviation done_with :: "'a \<Rightarrow> 'a run" where
  "done_with x \<equiv> Some (Some x)"

lemma run_bind_simps [simp]: "run_bind None f = None" "run_bind (Some None) f = Some None" "run_bind (done_with x) f = f x"
  by (simp_all add: run_bind_def)

lemma run_bind_done_iff: "run_bind r f = done_with y \<longleftrightarrow> (\<exists>x. r = done_with x \<and> f x = done_with y)"
  by (auto simp: run_bind_def split: option.splits)

lemma run_bind_cong [fundef_cong]:
  "r = r' \<Longrightarrow> (\<And>x. r' = done_with x \<Longrightarrow> f x = f' x) \<Longrightarrow> run_bind r f = run_bind r' f'"
  by (auto simp: run_bind_def split: option.splits)

fun run_fold :: "('a \<Rightarrow> 's \<Rightarrow> 's run) \<Rightarrow> 'a list \<Rightarrow> 's \<Rightarrow> 's run" where
  "run_fold f [] s = done_with s"
| "run_fold f (x # xs) s = run_bind (f x s) (run_fold f xs)"

lemma run_fold_append: "run_fold f (xs @ ys) s = run_bind (run_fold f xs s) (run_fold f ys)"
  by (induction xs arbitrary: s) (auto simp: run_bind_def split: option.splits)

lemma run_fold_invariant:
  assumes "run_fold f xs s = done_with t" "I s"
    "\<And>x s s'. x \<in> set xs \<Longrightarrow> I s \<Longrightarrow> f x s = done_with s' \<Longrightarrow> I s'"
  shows "I t"
  using assms
proof (induction xs arbitrary: s)
  case (Cons x xs)
  then obtain s1 where "f x s = done_with s1" "run_fold f xs s1 = done_with t" by (auto simp: run_bind_done_iff)
  then show ?case using Cons.IH [of s1] Cons.prems(2,3) by (metis list.set_intros)
qed simp

section \<open>The queue of reports\<close>

definition report_package :: "WorkReport \<Rightarrow> Hash" where
  "report_package w = spec_WorkPackageHash (Specification w)"

definition getWorkReportDependencies :: "WorkReport \<Rightarrow> WorkReportWithUnAccumulatedDependencies" where
  "getWorkReportDependencies workReport =
     \<lparr>dep_WorkReport = workReport,
      Dependencies = set (PrerequisiteWorkPackage (rep_Context workReport)) \<union> fst ` set (SegmentRootLookup workReport)\<rparr>"

definition flattenAccumulationHistory :: "AccHistory \<Rightarrow> Hash set" where
  "flattenAccumulationHistory accHistory = \<Union> (set accHistory)"

definition updateQueue ::
  "WorkReportWithUnAccumulatedDependencies list \<Rightarrow> Hash set \<Rightarrow> WorkReportWithUnAccumulatedDependencies list" where
  "updateQueue workRepAndDep hashSet =
     map (\<lambda>wd. wd\<lparr>Dependencies := Dependencies wd - hashSet\<rparr>)
       (filter (\<lambda>wd. report_package (dep_WorkReport wd) \<notin> hashSet) workRepAndDep)"

definition getWorkPackageHashes :: "WorkReport list \<Rightarrow> Hash set" where
  "getWorkPackageHashes workReports = set (map report_package workReports)"

lemma updateQueue_own: "updateQueue q (getWorkPackageHashes (map dep_WorkReport q)) = []"
  by (auto simp: updateQueue_def getWorkPackageHashes_def filter_empty_conv)

text \<open>
  The recursion hands on the queue without the packages of all its reports.
\<close>

function accumulationPriority :: "WorkReportWithUnAccumulatedDependencies list \<Rightarrow> WorkReport list" where
  "accumulationPriority workReportAndDeps =
     (let workReports = map dep_WorkReport workReportAndDeps in
      if length workReports = 0 then []
      else accumulationPriority (updateQueue workReportAndDeps (getWorkPackageHashes workReports)))"
  by pat_completeness auto
termination
  by (relation "measure length") (simp_all add: updateQueue_own)

declare accumulationPriority.simps [simp del]

definition transfersForReceiver :: "DeferredTransfer list \<Rightarrow> ServiceId \<Rightarrow> DeferredTransfer list" where
  "transfersForReceiver transfers serviceId =
     sort_key SenderServiceIndex (filter (\<lambda>t. ReceiverServiceIndex t = serviceId) transfers)"

section \<open>One service\<close>

record Accumulator =
  acc_entropy :: Hash
  acc_header_slot :: Timeslot
  acc_newTimeslot :: Timeslot

definition NewAccumulator :: "State \<Rightarrow> Header \<Rightarrow> Timeslot \<Rightarrow> Accumulator" where
  "NewAccumulator st header newTimeslot =
     \<lparr>acc_entropy = st_EntropyPool st ! 0, acc_header_slot = TimeSlotIndex header, acc_newTimeslot = newTimeslot\<rparr>"

definition service_results :: "WorkReport list \<Rightarrow> ServiceId \<Rightarrow> (WorkReport \<times> WorkResult) list" where
  "service_results workReports serviceIndex =
     concat (map (\<lambda>report. map (Pair report) (filter (\<lambda>r. res_ServiceId r = serviceIndex) (WorkResults report))) workReports)"

definition operand_of :: "WorkReport \<times> WorkResult \<Rightarrow> AccumulationOperand" where
  "operand_of = (\<lambda>(report, result). \<lparr>operand_Output = res_Output result, PayloadHash = res_PayloadHash result,
     WorkPackageHash = report_package report, AuthorizationOutput = rep_Output report\<rparr>)"

definition Delta1 ::
  "(bytes \<Rightarrow> Hash) \<Rightarrow> Accumulator \<Rightarrow> AccumulationState \<Rightarrow> WorkReport list \<Rightarrow> ref \<Rightarrow> ServiceId \<Rightarrow> Heap \<Rightarrow> (accumulation \<times> Heap) run" where
  "Delta1 HashData a accumulationState workReports privilegedGas serviceIndex hp =
     (let gasLimit = (case map_of (go_map (amounts hp) privilegedGas) serviceIndex of None \<Rightarrow> 0 | Some gas \<Rightarrow> gas);
          gasLimit = foldl (\<lambda>g (report, result). g + GasPrioritizationRatio result) gasLimit (service_results workReports serviceIndex);
          operands = map operand_of (service_results workReports serviceIndex)
      in Accumulator_InvokePVM HashData (acc_entropy a) (acc_header_slot a) accumulationState (acc_newTimeslot a) serviceIndex
           gasLimit operands hp)"

section \<open>All services\<close>

text \<open>
  \<^verbatim>\<open>ParallelDelta\<close> starts a goroutine for every service and one for each of the three privileged services,
  which each take one part of the result. They run \<^verbatim>\<open>Delta1\<close> without a lock and then update the shared
  variables under one. In the model they run one after the other, in an order that is a parameter:
  interleavings within \<^verbatim>\<open>Delta1\<close>, which would be races on the maps of a service, are left out.
\<close>

datatype task = Service ServiceId | Manager | Assigner | Designator

record Delta =
  totalGasUsed :: u64
  allTransfers :: "DeferredTransfer list"
  accumHashPairs :: "(ServiceId \<times> Hash) list"
  allResultServices :: "(ServiceId \<times> ServiceAccount) list"
  resultServicesExclude :: "ServiceId set"
  new_Privileged :: PrivilegedServices
  new_ValidatorKeys :: "ValidatorKey option list"
  new_Queues :: "Hash list list"

definition service_indices :: "WorkReport list \<Rightarrow> (ServiceId \<times> u64) list \<Rightarrow> ServiceId list" where
  "service_indices workReports privilegedGas =
     remdups (map res_ServiceId (concat (map WorkResults workReports)) @ map fst privilegedGas)"

definition delta_zero :: Delta where
  "delta_zero = \<lparr>totalGasUsed = 0, allTransfers = [], accumHashPairs = [], allResultServices = [], resultServicesExclude = {},
     new_Privileged = Privileged (ctx_State AccumulateContext_zero), new_ValidatorKeys = ValidatorKeys (ctx_State AccumulateContext_zero),
     new_Queues = PendingAuthorizersQueues (ctx_State AccumulateContext_zero)\<rparr>"

definition merge_service :: "AccumulationState \<Rightarrow> ServiceId \<Rightarrow> accumulation \<times> Heap \<Rightarrow> Delta \<Rightarrow> Delta" where
  "merge_service initialAccState serviceId = (\<lambda>((accState, deferredTransfers, resultHash, gasUsed), hp) d.
     let initial = go_map (states hp) (ServiceState initialAccState);
         result = go_map (states hp) (ServiceState accState);
         resultServices = filter (\<lambda>(i, account). i = serviceId \<or> i \<notin> fst ` set initial) result
     in d\<lparr>totalGasUsed := totalGasUsed d + gasUsed, allTransfers := allTransfers d @ deferredTransfers,
          accumHashPairs := (case resultHash of None \<Rightarrow> accumHashPairs d | Some h \<Rightarrow> accumHashPairs d @ [(serviceId, h)]),
          allResultServices := add_entries (allResultServices d) resultServices,
          resultServicesExclude := resultServicesExclude d \<union> (fst ` set initial - fst ` set result)\<rparr>)"

definition run_task ::
  "(bytes \<Rightarrow> Hash) \<Rightarrow> Accumulator \<Rightarrow> AccumulationState \<Rightarrow> WorkReport list \<Rightarrow> ref \<Rightarrow> task \<Rightarrow> Delta \<times> Heap \<Rightarrow> (Delta \<times> Heap) run" where
  "run_task HashData a initialAccState workReports privilegedGas t = (\<lambda>(d, hp).
     let priv = Privileged initialAccState;
         delta1 = (\<lambda>i. Delta1 HashData a initialAccState workReports privilegedGas i hp) in
     case t of
       Service serviceId \<Rightarrow> run_bind (delta1 serviceId) (\<lambda>r. done_with (merge_service initialAccState serviceId r d, snd r))
     | Manager \<Rightarrow> run_bind (delta1 (ManagerServiceId priv)) (\<lambda>((accState, r), hp). done_with (d\<lparr>new_Privileged := Privileged accState\<rparr>, hp))
     | Assigner \<Rightarrow> run_bind (delta1 (AssignServiceId priv)) (\<lambda>((accState, r), hp). done_with (d\<lparr>new_ValidatorKeys := ValidatorKeys accState\<rparr>, hp))
     | Designator \<Rightarrow> run_bind (delta1 (DesignateServiceId priv))
         (\<lambda>((accState, r), hp). done_with (d\<lparr>new_Queues := PendingAuthorizersQueues accState\<rparr>, hp)))"

type_synonym accumulated = "u64 \<times> AccumulationState \<times> DeferredTransfer list \<times> (ServiceId \<times> Hash) list"

definition finish_delta :: "AccumulationState \<Rightarrow> Delta \<times> Heap \<Rightarrow> accumulated \<times> Heap" where
  "finish_delta initialAccState = (\<lambda>(d, hp).
     let services = filter (\<lambda>(i, account). i \<notin> resultServicesExclude d)
           (add_entries (add_entries [] (go_map (states hp) (ServiceState initialAccState))) (allResultServices d));
         newAccState = \<lparr>ServiceState = Some (fresh hp), ValidatorKeys = new_ValidatorKeys d,
           PendingAuthorizersQueues = new_Queues d, Privileged = new_Privileged d\<rparr>
     in ((totalGasUsed d, newAccState, allTransfers d, sort_key fst (accumHashPairs d)),
         hp\<lparr>states := (states hp)(fresh hp := services), fresh := fresh hp + 1\<rparr>))"

definition tasks :: "WorkReport list \<Rightarrow> (ServiceId \<times> u64) list \<Rightarrow> task list" where
  "tasks workReports privilegedGas = map Service (service_indices workReports privilegedGas) @ [Manager, Assigner, Designator]"

definition ParallelDelta ::
  "(bytes \<Rightarrow> Hash) \<Rightarrow> Accumulator \<Rightarrow> (task list \<Rightarrow> task list) \<Rightarrow> AccumulationState \<Rightarrow> WorkReport list \<Rightarrow> ref \<Rightarrow> Heap \<Rightarrow>
   (accumulated \<times> Heap) run" where
  "ParallelDelta HashData a schedule initialAccState workReports privilegedGas hp =
     run_bind (run_fold (run_task HashData a initialAccState workReports privilegedGas)
         (schedule (tasks workReports (go_map (amounts hp) privilegedGas))) (delta_zero, hp)) (\<lambda>r.
       done_with (finish_delta initialAccState r))"

text \<open>
  The reports that fit into the gas limit. Sums of gas are \<^verbatim>\<open>uint64\<close> and wrap.
\<close>

definition report_gas :: "WorkReport \<Rightarrow> u64" where
  "report_gas report = foldl (\<lambda>g r. g + GasPrioritizationRatio r) 0 (WorkResults report)"

fun max_reports :: "u64 \<Rightarrow> u64 \<Rightarrow> WorkReport list \<Rightarrow> nat" where
  "max_reports gasLimit totalGas [] = 0"
| "max_reports gasLimit totalGas (report # reports) =
     (if totalGas + report_gas report > gasLimit then 0
      else Suc (max_reports gasLimit (totalGas + report_gas report) reports))"

function SequentialDelta ::
  "(bytes \<Rightarrow> Hash) \<Rightarrow> Accumulator \<Rightarrow> (task list \<Rightarrow> task list) \<Rightarrow> u64 \<Rightarrow> WorkReport list \<Rightarrow> AccumulationState \<Rightarrow> PrivilegedServices \<Rightarrow>
   Heap \<Rightarrow> ((u32 \<times> AccumulationState \<times> DeferredTransfer list \<times> (ServiceId \<times> Hash) list) \<times> Heap) run" where
  "SequentialDelta HashData a schedule gasLimit workReports ctx privileged hp =
     (if length workReports = 0 then done_with ((0, ctx, [], []), hp)
      else
        let maxReports = max_reports gasLimit 0 workReports in
        if maxReports = 0 then done_with ((0, ctx, [], []), hp)
        else
          run_bind (ParallelDelta HashData a schedule ctx (take maxReports workReports) (AmountOfGasPerServiceId privileged) hp)
            (\<lambda>((gasUsed, newCtx, transfers, hashPairs), hp).
              if maxReports < length workReports \<and> gasLimit - gasUsed > 0 then
                run_bind (SequentialDelta HashData a schedule (gasLimit - gasUsed) (drop maxReports workReports) newCtx privileged hp)
                  (\<lambda>((moreItems, finalCtx, moreTransfers, moreHashPairs), hp).
                    done_with ((of_nat maxReports + moreItems, finalCtx, transfers @ moreTransfers, hashPairs @ moreHashPairs), hp))
              else done_with ((of_nat maxReports, newCtx, transfers, hashPairs), hp)))"
  by pat_completeness auto
termination
  by (relation "measure (\<lambda>(HashData, a, schedule, gasLimit, workReports, ctx, privileged, hp). length workReports)") auto

declare SequentialDelta.simps [simp del]

section \<open>The reports of a block\<close>

definition TotalGasAccumulation :: u64 where "TotalGasAccumulation = 341000000"

text \<open>Reports without dependencies are accumulated at once; the others carry their dependencies.\<close>

definition immediate :: "WorkReport \<Rightarrow> bool" where
  "immediate w \<longleftrightarrow> length (PrerequisiteWorkPackage (rep_Context w)) = 0 \<and> length (SegmentRootLookup w) = 0"

definition queued_reports :: "WorkReport list \<Rightarrow> AccHistory \<Rightarrow> WorkReportWithUnAccumulatedDependencies list" where
  "queued_reports workReports history =
     updateQueue (map getWorkReportDependencies (filter (\<lambda>w. \<not> immediate w) workReports)) (flattenAccumulationHistory history)"

definition accumulatable_reports :: "State \<Rightarrow> Timeslot \<Rightarrow> WorkReport list \<Rightarrow> WorkReport list" where
  "accumulatable_reports currentState timeslotPerEpoch workReports =
     (let immediatelyAccWorkReports = filter immediate workReports;
          queuedWorkReports = queued_reports workReports (AccumulationHistory currentState);
          m = unat timeslotPerEpoch;
          workReportsFromQueueDeps = updateQueue (concat (drop m (AccumulationQueue currentState)) @
            concat (take m (AccumulationQueue currentState)) @ queuedWorkReports) (getWorkPackageHashes immediatelyAccWorkReports)
      in immediatelyAccWorkReports @ accumulationPriority workReportsFromQueueDeps)"

definition accumulation_gas :: "(ServiceId \<times> u64) list \<Rightarrow> u64" where
  "accumulation_gas privilegedGas =
     max TotalGasAccumulation (MaxAllocatedGasAccumulation * of_nat TotalNumberOfCores + foldl (\<lambda>g (i, gas). g + gas) 0 privilegedGas)"

text \<open>
  The transfers are delivered to the services in an order that the iteration over a map leaves open:
  a parameter.
\<close>

definition deliver_transfer ::
  "(bytes \<Rightarrow> Hash) \<Rightarrow> ref \<Rightarrow> DeferredTransfer list \<Rightarrow> ServiceId \<Rightarrow> (ServiceId \<times> ServiceAccount) list \<times> Heap \<Rightarrow>
   ((ServiceId \<times> ServiceAccount) list \<times> Heap) run" where
  "deliver_transfer HashData intermediateServiceState transfers serviceId = (\<lambda>(post, hp).
     run_bind (InvokePVMOnTransfer HashData intermediateServiceState serviceId (transfersForReceiver transfers serviceId) hp)
       (\<lambda>(newService, hp). done_with (AList.update serviceId newService post, hp)))"

text \<open>
  The new queue. \<^verbatim>\<open>timeslotPerEpoch - i\<close> is a difference of \<^verbatim>\<open>uint32\<close> and wraps before the remainder is taken.
\<close>

definition queue_index :: "Timeslot \<Rightarrow> nat \<Rightarrow> nat" where
  "queue_index timeslotPerEpoch i = unat ((timeslotPerEpoch - of_nat i) mod of_nat TimeslotsPerEpoch)"

definition queue_entry ::
  "Timeslot \<Rightarrow> Timeslot \<Rightarrow> WorkReportWithUnAccumulatedDependencies list \<Rightarrow> Hash set \<Rightarrow> AccQueue \<Rightarrow> nat \<Rightarrow>
   WorkReportWithUnAccumulatedDependencies list" where
  "queue_entry timeslotPerEpoch elapsed queuedWorkReports lastAccumulation queue i =
     (if i = 0 then updateQueue queuedWorkReports lastAccumulation
      else if of_nat i < elapsed then []
      else updateQueue (queue ! queue_index timeslotPerEpoch i) lastAccumulation)"

definition new_queue ::
  "Timeslot \<Rightarrow> Timeslot \<Rightarrow> WorkReportWithUnAccumulatedDependencies list \<Rightarrow> Hash set \<Rightarrow> AccQueue \<Rightarrow> AccQueue" where
  "new_queue timeslotPerEpoch elapsed queuedWorkReports lastAccumulation queue =
     foldl (\<lambda>q i. q[queue_index timeslotPerEpoch i := queue_entry timeslotPerEpoch elapsed queuedWorkReports lastAccumulation queue i])
       (replicate TimeslotsPerEpoch []) [0..<TimeslotsPerEpoch]"

record BlockAccumulation =
  newAccumulationQueue :: AccQueue
  newAccumulationHistory :: AccHistory
  postAccumulationServiceState :: ref
  newPrivilegedServices :: PrivilegedServices
  newValidatorKeys :: "ValidatorKey option list"
  newPendingAuthorizersQueues :: "Hash list list"
  hashPairs :: "(ServiceId \<times> Hash) list"

definition CalculateWorkReportsAndAccumulate ::
  "(bytes \<Rightarrow> Hash) \<Rightarrow> (task list \<Rightarrow> task list) \<Rightarrow> (ServiceId list \<Rightarrow> ServiceId list) \<Rightarrow> Header \<Rightarrow> State \<Rightarrow> Timeslot \<Rightarrow> WorkReport list \<Rightarrow>
   Heap \<Rightarrow> (BlockAccumulation \<times> Heap) run" where
  "CalculateWorkReportsAndAccumulate HashData schedule order header currentState newTimeslot workReports hp =
     (let timeslotPerEpoch = TimeSlotIndex header mod of_nat TimeslotsPerEpoch;
          queuedWorkReports = queued_reports workReports (AccumulationHistory currentState);
          accumulatableWorkReports = accumulatable_reports currentState timeslotPerEpoch workReports;
          priv = st_PrivilegedServices currentState;
          gasLimit = accumulation_gas (go_map (amounts hp) (AmountOfGasPerServiceId priv)) in
      run_bind (SequentialDelta HashData (NewAccumulator currentState header newTimeslot) schedule gasLimit accumulatableWorkReports
          \<lparr>ServiceState = Services currentState, ValidatorKeys = QueuedValidators (st_ValidatorState currentState),
           PendingAuthorizersQueues = st_PendingAuthorizersQueues currentState, Privileged = priv\<rparr> priv hp)
        (\<lambda>((maxReports, newAccumulationState, transfers, pairs), hp).
      run_bind (run_fold (deliver_transfer HashData (ServiceState newAccumulationState) transfers)
          (order (map fst (go_map (states hp) (ServiceState newAccumulationState)))) ([], hp)) (\<lambda>(post, hp).
        let history = tl (AccumulationHistory currentState) @
              [getWorkPackageHashes (take (unat maxReports) accumulatableWorkReports)];
            lastAccumulation = history ! (TimeslotsPerEpoch - 1)
        in done_with (\<lparr>newAccumulationQueue = new_queue timeslotPerEpoch (newTimeslot - TimeslotIndex currentState) queuedWorkReports
               lastAccumulation (AccumulationQueue currentState),
             newAccumulationHistory = history, postAccumulationServiceState = Some (fresh hp),
             newPrivilegedServices = Privileged newAccumulationState, newValidatorKeys = ValidatorKeys newAccumulationState,
             newPendingAuthorizersQueues = PendingAuthorizersQueues newAccumulationState, hashPairs = pairs\<rparr>,
           hp\<lparr>states := (states hp)(fresh hp := post), fresh := fresh hp + 1\<rparr>))))"

section \<open>Queues\<close>

lemma accumulationPriority_empty: "accumulationPriority q = []"
proof (induction q rule: accumulationPriority.induct)
  case (1 q)
  then show ?case by (subst accumulationPriority.simps) (simp add: Let_def)
qed

lemma fold_update_last:
  assumes "is = ys @ j # zs" "\<forall>i \<in> set zs. f i \<noteq> f j" "f j < length q"
  shows "foldl (\<lambda>q i. q[f i := g i]) q is ! f j = g j"
proof -
  have other: "foldl (\<lambda>q i. q[f i := g i]) r zs ! f j = r ! f j" if "\<forall>i \<in> set zs. f i \<noteq> f j" for r zs
    using that by (induction zs arbitrary: r) auto
  have "length (foldl (\<lambda>q i. q[f i := g i]) q ys) = length q" by (induction ys arbitrary: q) auto
  then show ?thesis using assms by (simp add: other)
qed

lemma length_fold_update: "length (foldl (\<lambda>q i. q[f i := g i]) r is) = length r"
  by (induction "is" arbitrary: r) auto

lemma length_new_queue: "length (new_queue m e w l q) = TimeslotsPerEpoch"
  unfolding new_queue_def length_fold_update by simp

lemma fold_update_cases:
  "k < length q \<Longrightarrow> foldl (\<lambda>q i. q[f i := g i]) q is ! k = q ! k \<or> (\<exists>i \<in> set is. f i = k \<and> foldl (\<lambda>q i. q[f i := g i]) q is ! k = g i)"
proof (induction "is" arbitrary: q)
  case (Cons i "is")
  then show ?case using Cons.IH [of "q[f i := g i]"] by (cases "f i = k") auto
qed simp

lemma queue_index_wrapped:
  assumes "m < 600" "unat m < i" "i < 600"
  shows "queue_index m i = (unat m + 4294967296 - i) mod 600"
proof -
  have "unat (m - of_nat i) = unat m + 2 ^ 32 - i"
  proof -
    have "unat (of_nat i :: u32) = i" using assms(3) by (intro unat32_small) simp
    then show ?thesis using assms(2) by (simp add: unat_sub_if')
  qed
  then show ?thesis by (simp add: queue_index_def TimeslotsPerEpoch_def unat_mod)
qed

lemma queue_index_first: "m < 600 \<Longrightarrow> queue_index m 0 = unat m"
  by (simp add: queue_index_def TimeslotsPerEpoch_def unat_mod word_less_nat_alt)

text \<open>
  Since \<open>2 ^ 32\<close> leaves 496 modulo 600, index 496 goes to the entry of the first one as long as it wraps,
  and no later index does.
\<close>

lemma queue_index_collides:
  assumes "m < 496"
  shows "queue_index m 496 = unat m" "496 < i \<Longrightarrow> i < 600 \<Longrightarrow> queue_index m i \<noteq> unat m"
proof -
  have m: "unat m < 496" "m < 600" using assms by (simp_all add: word_less_nat_alt)
  have "queue_index m 496 = (unat m + 600 * 7158278) mod 600" using m queue_index_wrapped [of m 496] by (simp add: add.commute)
  also have "\<dots> = unat m mod 600" by (rule mod_mult_self2)
  finally show "queue_index m 496 = unat m" using m by simp
  assume i: "496 < i" "i < 600"
  then have "queue_index m i = (unat m + 4294967296 - i) mod 600" using m by (intro queue_index_wrapped) simp_all
  also have "unat m + 4294967296 - i = (unat m + 1096 - i) + 600 * 7158277" using i by simp
  also have "\<dots> mod 600 = (unat m + 1096 - i) mod 600" by (rule mod_mult_self2)
  finally show "queue_index m i \<noteq> unat m" using m i by (cases "unat m + 1096 - i < 600") (simp_all add: le_mod_geq)
qed

lemma upt_split: "i \<le> j \<Longrightarrow> j < n \<Longrightarrow> [i..<n] = [i..<j] @ j # [Suc j..<n]"
  by (metis le_add_diff_inverse less_imp_le upt_add_eq_append upt_conv_Cons)

lemma new_queue_from_old:
  assumes "m < 496" "length q = 600" "k < 600"
  shows "\<exists>k' < 600. dep_WorkReport ` set (new_queue m e w l q ! k) \<subseteq> dep_WorkReport ` set (q ! k')"
  supply upt_rec_numeral [simp del]
proof -
  let ?f = "queue_index m" and ?g = "queue_entry m e w l q"
  have bound: "?f i < 600" for i by (simp add: queue_index_def TimeslotsPerEpoch_def unat_mod)
  have later: "\<exists>k' < 600. dep_WorkReport ` set (?g i) \<subseteq> dep_WorkReport ` set (q ! k')" if "i \<noteq> 0" for i
    using that bound [of i] by (auto simp: queue_entry_def updateQueue_def image_iff intro!: exI [of _ "?f i"])
  have "m < 600" using assms(1) by (auto intro: less_trans)
  show ?thesis
  proof (cases "k = unat m")
    case True
    have "[0..<600 :: nat] = [0..<496] @ 496 # [Suc 496..<600]" by (rule upt_split) simp_all
    moreover have "\<forall>i \<in> set [Suc 496..<600]. ?f i \<noteq> ?f 496"
      using queue_index_collides [OF assms(1)] unfolding set_upt by simp
    ultimately have "new_queue m e w l q ! ?f 496 = ?g 496"
      unfolding new_queue_def TimeslotsPerEpoch_def using bound [of 496]
      by (intro fold_update_last) (simp_all only: length_replicate)
    then show ?thesis using later [of 496] queue_index_collides(1) [OF assms(1)] True by simp
  next
    case False
    consider "new_queue m e w l q ! k = []" | i where "?f i = k" "new_queue m e w l q ! k = ?g i"
      using fold_update_cases [of k "replicate 600 []" ?f ?g "[0..<600]"] assms(3) by (auto simp: new_queue_def TimeslotsPerEpoch_def)
    then show ?thesis
    proof cases
      case 2
      then have "i \<noteq> 0" using False queue_index_first [OF \<open>m < 600\<close>] by metis
      then show ?thesis using later 2 by simp
    qed (use assms(3) in auto)
  qed
qed

section \<open>Gas\<close>

lemma unat_report_gas:
  "sum_list (map (unat \<circ> GasPrioritizationRatio) (WorkResults w)) < 2 ^ 64 \<Longrightarrow>
   unat (report_gas w) = sum_list (map (unat \<circ> GasPrioritizationRatio) (WorkResults w))"
proof -
  have "unat g + sum_list (map (unat \<circ> GasPrioritizationRatio) rs) < 2 ^ 64 \<Longrightarrow>
      unat (foldl (\<lambda>g r. g + GasPrioritizationRatio r) g rs) = unat g + sum_list (map (unat \<circ> GasPrioritizationRatio) rs)" for g rs
  proof (induction rs arbitrary: g)
    case (Cons r rs)
    then have "unat (g + GasPrioritizationRatio r) = unat g + unat (GasPrioritizationRatio r)" by (intro unat_add_small) simp
    then show ?case using Cons.IH [of "g + GasPrioritizationRatio r"] Cons.prems by simp
  qed simp
  from this [of 0 "WorkResults w"] show "sum_list (map (unat \<circ> GasPrioritizationRatio) (WorkResults w)) < 2 ^ 64 \<Longrightarrow>
    unat (report_gas w) = sum_list (map (unat \<circ> GasPrioritizationRatio) (WorkResults w))" by (simp add: report_gas_def)
qed

lemma max_reports_le: "max_reports g t ws \<le> length ws"
  by (induction ws arbitrary: t) simp_all

lemma max_reports_all:
  "unat t + sum_list (map (unat \<circ> report_gas) ws) \<le> unat g \<Longrightarrow> max_reports g t ws = length ws"
proof (induction ws arbitrary: t)
  case (Cons w ws)
  then have s: "unat (t + report_gas w) = unat t + unat (report_gas w)"
    using unat_below [of 64 g] by (intro unat_add_small) simp
  then have "\<not> t + report_gas w > g" using Cons.prems by (simp add: word_less_nat_alt)
  then show ?case using Cons.IH [of "t + report_gas w"] Cons.prems s by simp
qed simp

lemma SequentialDelta_count:
  "SequentialDelta HashData a schedule g ws ctx priv hp = done_with ((n, r), hp') \<Longrightarrow> length ws < 2 ^ 32 \<Longrightarrow> unat n \<le> length ws"
proof (induction HashData a schedule g ws ctx priv hp arbitrary: n r hp' rule: SequentialDelta.induct)
  case (1 HashData a schedule g ws ctx priv hp)
  let ?m = "max_reports g 0 ws"
  have m: "?m \<le> length ws" by (rule max_reports_le)
  then have um: "unat (of_nat ?m :: u32) = ?m" using "1.prems"(2) by (intro unat32_small) simp
  show ?case
  proof (cases "ws = [] \<or> ?m = 0")
    case True
    then show ?thesis using "1.prems"(1) by (subst (asm) SequentialDelta.simps) (auto simp: Let_def split: if_splits)
  next
    case False
    then obtain gu c tr ps h where p: "ParallelDelta HashData a schedule ctx (take ?m ws) (AmountOfGasPerServiceId priv) hp = done_with ((gu, c, tr, ps), h)"
      and rest: "(if ?m < length ws \<and> g - gu > 0 then
          run_bind (SequentialDelta HashData a schedule (g - gu) (drop ?m ws) c priv h)
            (\<lambda>((k, fc, mt, mp), hp). done_with ((of_nat ?m + k, fc, tr @ mt, ps @ mp), hp))
        else done_with ((of_nat ?m, c, tr, ps), h)) = done_with ((n, r), hp')"
      using "1.prems"(1) by (subst (asm) SequentialDelta.simps) (auto simp: Let_def run_bind_done_iff split: prod.splits)
    show ?thesis
    proof (cases "?m < length ws \<and> g - gu > 0")
      case True
      then obtain k r1 where k: "SequentialDelta HashData a schedule (g - gu) (drop ?m ws) c priv h = done_with ((k, r1), hp')" "n = of_nat ?m + k"
        using rest by (auto simp: run_bind_done_iff split: prod.splits)
      have "unat k \<le> length (drop ?m ws)"
        using False p True k(1) "1.prems"(2) by (intro "1.IH" [OF _ refl _ p refl refl refl refl]) auto
      then have "unat n \<le> ?m + (length ws - ?m)"
        unfolding k(2) using um by (auto simp: unat_plus_if')
      then show ?thesis using m by simp
    qed (use rest um m in auto)
  qed
qed


section \<open>Services without code\<close>

text \<open>
  Accumulating a service that has no code only creates the dictionary of its context.
\<close>

definition grown :: "Heap \<Rightarrow> Heap \<Rightarrow> bool" where
  "grown hp hp' \<longleftrightarrow> blobs hp' = blobs hp \<and> fresh hp \<le> fresh hp' \<and> (\<forall>r < fresh hp. states hp' r = states hp r)"

lemma grown_refl: "grown hp hp"
  by (simp add: grown_def)

lemma grown_trans: "grown hp hp1 \<Longrightarrow> grown hp1 hp2 \<Longrightarrow> grown hp hp2"
  by (auto simp: grown_def)

lemma grown_state: "grown hp hp' \<Longrightarrow> r < fresh hp \<Longrightarrow> go_map (states hp') (Some r) = go_map (states hp) (Some r)"
  by (simp add: grown_def go_map_def)

lemma newCtx_dictionary:
  "newCtx HashData entropy timeslot u s hp = Some ((ctx, err), hp1) \<Longrightarrow>
   grown hp hp1 \<and> fst ` set (go_map (states hp1) (ServiceState (ctx_State ctx))) \<subseteq> {s}"
  by (auto simp: newCtx_def Let_def grown_def go_map_def AccumulateContext_zero_def split: option.splits sum.splits)

definition codeless :: "Heap \<Rightarrow> nat \<Rightarrow> bool" where
  "codeless hp r \<longleftrightarrow> r < fresh hp \<and> (\<forall>(i, account) \<in> set (states hp r). Code hp account = None)"

lemma Code_zero: "Code hp ServiceAccount_zero = None"
  by (simp add: Code_def ServiceAccount_zero_def go_map_def)

lemma codeless_account:
  "codeless hp r \<Longrightarrow> Code hp (case service_of hp (Some r) s of None \<Rightarrow> ServiceAccount_zero | Some a \<Rightarrow> a) = None"
  by (auto simp: codeless_def service_of_def go_map_def Code_zero split: option.splits dest!: map_of_SomeD)

lemma codeless_grown: "codeless hp r \<Longrightarrow> grown hp hp' \<Longrightarrow> codeless hp' r"
  by (auto simp: codeless_def grown_def Code_def)

lemma Delta1_codeless:
  assumes "Delta1 HashData a u ws g s hp = done_with ((accState, r), hp')" "ServiceState u = Some c" "codeless hp c"
  shows "grown hp hp' \<and> fst ` set (go_map (states hp') (ServiceState accState)) \<subseteq> {s}"
  using assms codeless_account [OF assms(3), of s] newCtx_dictionary
  by (fastforce simp: Delta1_def Accumulator_InvokePVM_def Let_def split: option.splits prod.splits)

lemma run_task_codeless:
  assumes "run_task HashData a u ws g t (d, hp) = done_with (d', hp')" "ServiceState u = Some c" "codeless hp c"
  shows "grown hp hp'" "resultServicesExclude d \<subseteq> resultServicesExclude d'"
    "t = Service s \<Longrightarrow> fst ` set (states hp c) - {s} \<subseteq> resultServicesExclude d'"
proof -
  obtain i r accState where r: "Delta1 HashData a u ws g i hp = done_with ((accState, r), hp')"
    "t = Service i \<and> d' = merge_service u i ((accState, r), hp') d \<or> resultServicesExclude d' = resultServicesExclude d \<and> (\<forall>s. t \<noteq> Service s)"
    using assms(1) by (cases t) (auto simp: run_task_def Let_def run_bind_done_iff split: prod.splits)
  have k: "grown hp hp'" "fst ` set (go_map (states hp') (ServiceState accState)) \<subseteq> {i}"
    using Delta1_codeless [OF r(1) assms(2,3)] by simp_all
  show "grown hp hp'" by (rule k)
  show "resultServicesExclude d \<subseteq> resultServicesExclude d'"
    using r(2) by (auto simp: merge_service_def Let_def split: prod.splits)
  have "states hp' c = states hp c" using k(1) assms(3) by (simp add: grown_def codeless_def)
  then show "t = Service s \<Longrightarrow> fst ` set (states hp c) - {s} \<subseteq> resultServicesExclude d'"
    using r(2) k(2) assms(2) by (cases r) (auto simp: merge_service_def Let_def go_map_def split: prod.splits)
qed

lemma tasks_codeless:
  assumes "run_fold (run_task HashData a u ws g) ts (d, hp) = done_with (d', hp')" "ServiceState u = Some c" "codeless hp c"
  shows "grown hp hp' \<and> resultServicesExclude d \<subseteq> resultServicesExclude d' \<and>
    (\<forall>s. Service s \<in> set ts \<longrightarrow> fst ` set (states hp c) - {s} \<subseteq> resultServicesExclude d')"
  using assms(1,3)
proof (induction ts arbitrary: d hp)
  case (Cons t ts)
  then obtain d1 hp1 where s: "run_task HashData a u ws g t (d, hp) = done_with (d1, hp1)"
    "run_fold (run_task HashData a u ws g) ts (d1, hp1) = done_with (d', hp')" by (auto simp: run_bind_done_iff)
  note one = run_task_codeless [OF s(1) assms(2) Cons.prems(2)]
  have "codeless hp1 c" using codeless_grown Cons.prems(2) one(1) by blast
  note rest = Cons.IH [OF s(2) this]
  have "states hp1 c = states hp c" using one(1) Cons.prems(2) by (simp add: grown_def codeless_def)
  then show ?case using rest one grown_trans by fastforce
qed (simp add: grown_refl)


section \<open>Properties\<close>

text \<open>
  C21: \<^bold>\<open>Reports with dependencies are lost.\<close> In the first 496 slots of an epoch accumulation neither
  accumulates nor queues a report that waits for other packages: the priority function always
  returns nothing, so that only reports without dependencies are accumulated, and the entry of the
  queue that receives the new reports is written again when the index wraps, so that every report
  in the new queue was in the old one. The history gets one entry and drops its oldest.
\<close>

theorem queued_reports_lost:
  assumes "CalculateWorkReportsAndAccumulate HashData schedule order header st newTimeslot ws hp = done_with (r, hp')"
    and "TimeSlotIndex header mod 600 < 496" "length (AccumulationQueue st) = 600"
  shows "dep_WorkReport ` set (concat (newAccumulationQueue r)) \<subseteq> dep_WorkReport ` set (concat (AccumulationQueue st)) \<and>
    length (newAccumulationQueue r) = 600 \<and>
    (\<exists>n. newAccumulationHistory r = tl (AccumulationHistory st) @ [report_package ` set (take n (filter immediate ws))])"
proof -
  obtain e w l n where q: "newAccumulationQueue r = new_queue (TimeSlotIndex header mod 600) e w l (AccumulationQueue st)"
    and h: "newAccumulationHistory r = tl (AccumulationHistory st) @
      [getWorkPackageHashes (take n (accumulatable_reports st (TimeSlotIndex header mod 600) ws))]"
    using assms(1) by (auto simp: CalculateWorkReportsAndAccumulate_def Let_def run_bind_done_iff TimeslotsPerEpoch_def split: prod.splits)
  have len: "length (newAccumulationQueue r) = 600" by (simp add: q length_new_queue TimeslotsPerEpoch_def)
  have "\<exists>wd' \<in> set (concat (AccumulationQueue st)). dep_WorkReport wd = dep_WorkReport wd'"
    if "wd \<in> set (newAccumulationQueue r ! k)" "k < 600" for wd k
    using new_queue_from_old [OF assms(2,3) that(2), of e w l] that(1) assms(3) unfolding q by fastforce
  then have "dep_WorkReport ` set (concat (newAccumulationQueue r)) \<subseteq> dep_WorkReport ` set (concat (AccumulationQueue st))"
    using len by (fastforce simp: in_set_conv_nth)
  moreover have "\<exists>n. newAccumulationHistory r = tl (AccumulationHistory st) @ [report_package ` set (take n (filter immediate ws))]"
    by (auto simp: h accumulatable_reports_def Let_def accumulationPriority_empty getWorkPackageHashes_def)
  ultimately show ?thesis using len by simp
qed

theorem queued_reports_lost_witness:
  "\<exists>r hp'. CalculateWorkReportsAndAccumulate (\<lambda>_. replicate 32 0) id id (Header_zero\<lparr>TimeSlotIndex := 5\<rparr>) demo_chain 5 [demo_report] empty_heap
     = done_with (r, hp') \<and> concat (newAccumulationQueue r) = []"
proof -
  let ?h = "Header_zero\<lparr>TimeSlotIndex := 5\<rparr>"
  have "\<not> immediate demo_report" by (simp add: immediate_def demo_report_def)
  then obtain r hp' where r: "CalculateWorkReportsAndAccumulate (\<lambda>_. replicate 32 0) id id ?h demo_chain 5 [demo_report] empty_heap = done_with (r, hp')"
    by (auto simp: CalculateWorkReportsAndAccumulate_def Let_def accumulatable_reports_def accumulationPriority_empty
        SequentialDelta.simps demo_chain_def go_map_def)
  have "concat (AccumulationQueue demo_chain) = []" by (simp add: demo_chain_def)
  then show ?thesis
    using r queued_reports_lost [OF r] by (auto simp: demo_chain_def TimeslotsPerEpoch_def)
qed


abbreviation demo_accounts :: AccumulationState where
  "demo_accounts \<equiv> \<lparr>ServiceState = Some 0, ValidatorKeys = [], PendingAuthorizersQueues = [],
     Privileged = \<lparr>ManagerServiceId = 7, AssignServiceId = 7, DesignateServiceId = 7, AmountOfGasPerServiceId = Some 0\<rparr>\<rparr>"

abbreviation demo_accumulator :: Accumulator where
  "demo_accumulator \<equiv> \<lparr>acc_entropy = replicate 32 0, acc_header_slot = 5, acc_newTimeslot = 5\<rparr>"

abbreviation demo_dictionary :: "(ServiceId \<times> ServiceAccount) list" where
  "demo_dictionary \<equiv> [(7, ServiceAccount_zero), (8, ServiceAccount_zero)]"

definition demo_two_services :: Heap where
  "demo_two_services = empty_heap\<lparr>states := (\<lambda>_. demo_dictionary), amounts := (\<lambda>_. [(7, 0)]), fresh := 1\<rparr>"

lemma demo_two_codeless: "codeless demo_two_services 0" "states demo_two_services 0 = demo_dictionary"
  by (simp_all add: codeless_def Code_zero demo_two_services_def)

lemma Delta1_demo:
  assumes "codeless hp 0" "states hp 0 = demo_dictionary"
  shows "\<exists>hp'. Delta1 (\<lambda>_. replicate 32 1) demo_accumulator demo_accounts ws (Some 0) 7 hp =
    done_with ((demo_accounts\<lparr>ServiceState := Some (fresh hp)\<rparr>, [], None, 0), hp')"
proof -
  have new: "newServiceID (\<lambda>_. replicate 32 1) (replicate 32 0) 5 7 = ret 16843009" by code_simp
  have "DeriveIndex 16843009 (states hp 0) = Some 16843010"
    by (simp add: DeriveIndex_def CheckIndex_unfold assms(2))
  then show ?thesis
    using new codeless_account [OF assms(1), of 7]
    by (auto simp: Delta1_def Accumulator_InvokePVM_def newCtx_def Let_def go_map_def)
qed

lemma run_task_demo:
  assumes "codeless hp 0" "states hp 0 = demo_dictionary" "t \<in> {Service 7, Manager, Assigner, Designator}"
  shows "\<exists>d' hp'. run_task (\<lambda>_. replicate 32 1) demo_accumulator demo_accounts ws (Some 0) t (d, hp) = done_with (d', hp') \<and>
    codeless hp' 0 \<and> states hp' 0 = demo_dictionary"
proof -
  obtain d' hp' where r: "run_task (\<lambda>_. replicate 32 1) demo_accumulator demo_accounts ws (Some 0) t (d, hp) = done_with (d', hp')"
    using Delta1_demo [OF assms(1,2), of ws] assms(3) by (auto simp: run_task_def Let_def)
  then have "grown hp hp'" using run_task_codeless(1) assms(1) by fastforce
  then show ?thesis using r codeless_grown [OF assms(1)] assms(1,2) by (simp add: grown_def codeless_def [of hp])
qed

lemma run_tasks_demo:
  "set ts \<subseteq> {Service 7, Manager, Assigner, Designator} \<Longrightarrow> codeless hp 0 \<Longrightarrow> states hp 0 = demo_dictionary \<Longrightarrow>
   \<exists>x. run_fold (run_task (\<lambda>_. replicate 32 1) demo_accumulator demo_accounts ws (Some 0)) ts (d, hp) = done_with x"
proof (induction ts arbitrary: d hp)
  case (Cons t ts)
  then obtain d' hp' where "run_task (\<lambda>_. replicate 32 1) demo_accumulator demo_accounts ws (Some 0) t (d, hp) = done_with (d', hp')"
    "codeless hp' 0" "states hp' 0 = demo_dictionary"
    using run_task_demo [of hp t ws d] by auto
  then show ?case using Cons.IH [of hp' d'] Cons.prems(1) by simp
qed simp

lemma ParallelDelta_demo:
  assumes "service_indices ws [(7, 0)] = [7]" "\<And>ts. set (schedule ts) = set ts"
  shows "\<exists>g u' ts ps hp'. ParallelDelta (\<lambda>_. replicate 32 1) demo_accumulator schedule demo_accounts ws (Some 0) demo_two_services =
    done_with ((g, u', ts, ps), hp')"
proof -
  have "go_map (amounts demo_two_services) (Some 0) = [(7, 0)]" by (simp add: demo_two_services_def go_map_def)
  moreover have "set (schedule (tasks ws [(7, 0)])) \<subseteq> {Service 7, Manager, Assigner, Designator}"
    unfolding assms(2) using assms(1) by (simp add: tasks_def)
  then obtain x where "run_fold (run_task (\<lambda>_. replicate 32 1) demo_accumulator demo_accounts ws (Some 0))
      (schedule (tasks ws [(7, 0)])) (delta_zero, demo_two_services) = done_with x"
    using run_tasks_demo [OF _ demo_two_codeless] by blast
  ultimately show ?thesis
    by (cases "finish_delta demo_accounts x") (auto simp: ParallelDelta_def)
qed




text \<open>
  \<^bold>\<open>Transfers reach their receiver in order.\<close> The transfers handed to a service are those
  addressed to it, by ascending sender, and those of one sender stay in the order of the execution.
\<close>

theorem transfersForReceiver_order:
  "sorted (map SenderServiceIndex (transfersForReceiver transfers i)) \<and>
   filter (\<lambda>t. SenderServiceIndex t = s) (transfersForReceiver transfers i) =
     filter (\<lambda>t. SenderServiceIndex t = s \<and> ReceiverServiceIndex t = i) transfers \<and>
   (\<forall>t. t \<in> set (transfersForReceiver transfers i) \<longleftrightarrow> t \<in> set transfers \<and> ReceiverServiceIndex t = i)"
  using sort_key_stable [of SenderServiceIndex s "filter (\<lambda>t. ReceiverServiceIndex t = i) transfers"]
  by (simp add: transfersForReceiver_def conj_commute filter_filter)

end
