(* ===== verification/Binary_Merkle.thy ===== *)
theory Binary_Merkle
  imports Service_Accounts
begin

text \<open>
  Binary Merkle trees (\<^verbatim>\<open>internal/merkle/binary_tree\<close>): roots, traces, pages of leaves and their
  proofs. The hash function is an argument, as in the source.
\<close>

section \<open>Nodes and traces\<close>

definition convertHashToBlob :: "Hash \<Rightarrow> bytes" where
  "convertHashToBlob h = h"

definition convertBlobsToHashes :: "bytes list \<Rightarrow> Hash list" where
  "convertBlobsToHashes bs = map (\<lambda>blob. go_copy (replicate 32 0) blob) bs"

lemma half_shorter:
  assumes "bs \<noteq> []" "length bs \<noteq> 1"
  shows "length bs div 2 < length bs" "length bs - length bs div 2 < length bs"
proof -
  have "2 \<le> length bs" using assms by (cases bs) (auto simp: Suc_le_eq)
  then show "length bs div 2 < length bs" "length bs - length bs div 2 < length bs" by simp_all
qed

function ComputeNode :: "bytes list \<Rightarrow> (bytes \<Rightarrow> Hash) \<Rightarrow> bytes" where
  "ComputeNode bs hashFunc =
     (if length bs = 0 then []
      else if length bs = 1 then convertHashToBlob (hashFunc (bs ! 0))
      else
        let mid = length bs div 2;
            left = ComputeNode (take mid bs) hashFunc;
            right = ComputeNode (drop mid bs) hashFunc;
            combined = go_bytes ''node'' @ left @ right
        in convertHashToBlob (hashFunc combined))"
  by pat_completeness auto
termination by (relation "measure (length \<circ> fst)") (use half_shorter in auto)

declare ComputeNode.simps [simp del]

definition getMid :: "bytes list \<Rightarrow> nat" where
  "getMid bs = (length bs + 1) div 2"

definition computeP :: "bytes list \<Rightarrow> int \<Rightarrow> bool \<Rightarrow> bytes list" where
  "computeP bs index s =
     (let mid = getMid bs in if (index < int mid) = s then take mid bs else drop mid bs)"

definition computePi :: "bytes list \<Rightarrow> int \<Rightarrow> int" where
  "computePi bs index = (let mid = getMid bs in if index < int mid then 0 else int mid)"

lemma computeP_shorter: "\<not> length bs \<le> 1 \<Longrightarrow> length (computeP bs index s) < length bs"
  by (auto simp: computeP_def getMid_def Let_def)

function ComputeTrace :: "bytes list \<Rightarrow> int \<Rightarrow> (bytes \<Rightarrow> Hash) \<Rightarrow> bytes list" where
  "ComputeTrace bs index hashFunc =
     (if length bs \<le> 1 then []
      else
        let node = ComputeNode (computeP bs index False) hashFunc;
            trace = ComputeTrace (computeP bs index True) (index - computePi bs index) hashFunc
        in node # trace)"
  by pat_completeness auto
termination by (relation "measure (\<lambda>(bs, index, hashFunc). length bs)") (auto simp: computeP_shorter)

declare ComputeTrace.simps [simp del]

section \<open>Roots, proofs and pages\<close>

text \<open>
  The conversion \<^verbatim>\<open>crypto.Hash(b)\<close> of a slice panics below 32 octets. The logarithms are computed in
  floating point, exactly for every length below \<open>2 ^ 40\<close>.
\<close>

definition slice_to_hash :: "bytes \<Rightarrow> Hash option" where
  "slice_to_hash b = (if length b < 32 then None else Some (take 32 b))"

fun ceil_log2 :: "nat \<Rightarrow> nat" where
  "ceil_log2 n = (if n \<le> 1 then 0 else Suc (ceil_log2 ((n + 1) div 2)))"

fun floor_log2 :: "nat \<Rightarrow> nat" where
  "floor_log2 n = (if n \<le> 1 then 0 else Suc (floor_log2 (n div 2)))"

declare ceil_log2.simps [simp del] floor_log2.simps [simp del]

definition zero_hash :: Hash where
  "zero_hash = replicate 32 0"

text \<open>
  The places behind the leaves stay nil slices.
\<close>

definition preprocessForConstantDepth :: "bytes list \<Rightarrow> (bytes \<Rightarrow> Hash) \<Rightarrow> bytes list" where
  "preprocessForConstantDepth bs hashFunc =
     (if length bs = 0 then []
      else
        let targetLen = 2 ^ ceil_log2 (max 1 (length bs)) in
        map (\<lambda>b. convertHashToBlob (hashFunc (go_bytes ''leaf'' @ b))) bs @
          replicate (targetLen - length bs) [])"

definition ComputeWellBalancedRoot :: "bytes list \<Rightarrow> (bytes \<Rightarrow> Hash) \<Rightarrow> Hash option" where
  "ComputeWellBalancedRoot bs hashFunc =
     (if length bs = 0 then Some zero_hash
      else if length bs = 1 then Some (hashFunc (bs ! 0))
      else slice_to_hash (ComputeNode bs hashFunc))"

definition ComputeConstantDepthRoot :: "bytes list \<Rightarrow> (bytes \<Rightarrow> Hash) \<Rightarrow> Hash option" where
  "ComputeConstantDepthRoot bs hashFunc =
     (if length bs = 0 then Some zero_hash
      else slice_to_hash (ComputeNode (preprocessForConstantDepth bs hashFunc) hashFunc))"

text \<open>
  Page numbers and places are of type \<^verbatim>\<open>int\<close> and wrap; \<open>x\<close>, which is 0 or 6 in the program, is not
  negative.
\<close>

definition GeneratePageProof :: "bytes list \<Rightarrow> i64 \<Rightarrow> nat \<Rightarrow> (bytes \<Rightarrow> Hash) \<Rightarrow> Hash list option" where
  "GeneratePageProof bs pageIndex x hashFunc =
     (if length bs = 0 then Some []
      else
        let preprocessed = preprocessForConstantDepth bs hashFunc;
            fullTrace = ComputeTrace preprocessed (sint (shl 1 x * pageIndex)) hashFunc;
            maxLen = max 0 (int (floor_log2 (max 1 (length bs))) - int x)
        in
        if maxLen = 0 then Some []
        else map_option convertBlobsToHashes (go_slice fullTrace 0 (nat maxLen)))"

text \<open>
  The capacity of the result must not be negative, and a negative place is out of range.
\<close>

definition GetLeafPage :: "bytes list \<Rightarrow> i64 \<Rightarrow> nat \<Rightarrow> (bytes \<Rightarrow> Hash) \<Rightarrow> Hash list option" where
  "GetLeafPage bs pageIndex x hashFunc =
     (if length bs = 0 \<or> 64 \<le> x then Some []
      else
        let start = shl 1 x * pageIndex;
            pageStart = sint start;
            pageEnd = min (sint (start + shl 1 x)) (int (length bs))
        in
        if pageEnd < pageStart then None
        else if pageStart < 0 \<and> pageStart < pageEnd then None
        else Some (map (\<lambda>j. hashFunc (go_bytes ''leaf'' @ bs ! nat j)) [pageStart..pageEnd - 1]))"


section \<open>Trees of a power of two leaves\<close>

text \<open>
  The check of a proof, which the program leaves to the receiver: the siblings of a trace, from the
  root down, complete a node at place \<open>i\<close> of its level to the root.
\<close>

fun climb :: "(bytes \<Rightarrow> Hash) \<Rightarrow> bytes \<Rightarrow> nat \<Rightarrow> bytes list \<Rightarrow> bytes" where
  "climb hashFunc node i [] = node"
| "climb hashFunc node i (s # ss) =
     (if i < 2 ^ length ss then hashFunc (go_bytes ''node'' @ climb hashFunc node i ss @ s)
      else hashFunc (go_bytes ''node'' @ s @ climb hashFunc node (i - 2 ^ length ss) ss))"

lemma ComputeNode_single [simp]: "ComputeNode [b] H = H b"
  by (simp add: ComputeNode.simps convertHashToBlob_def)

lemma ComputeNode_split:
  "2 \<le> length bs \<Longrightarrow> ComputeNode bs H =
     H (go_bytes ''node'' @ ComputeNode (take (length bs div 2) bs) H @ ComputeNode (drop (length bs div 2) bs) H)"
  by (subst ComputeNode.simps) (auto simp: convertHashToBlob_def Let_def)

lemma length_ComputeNode: "bs \<noteq> [] \<Longrightarrow> (\<And>x. length (H x) = 32) \<Longrightarrow> length (ComputeNode bs H) = 32"
  by (subst ComputeNode.simps) (simp add: convertHashToBlob_def Let_def)

lemma power2_Suc: "1 < (2 :: nat) ^ Suc k"
  by (rule one_less_power) simp_all

lemma trace_step:
  assumes "length bs = 2 ^ Suc k"
  shows "ComputeTrace bs j H =
     (if j < 2 ^ k then ComputeNode (drop (2 ^ k) bs) H # ComputeTrace (take (2 ^ k) bs) j H
      else ComputeNode (take (2 ^ k) bs) H # ComputeTrace (drop (2 ^ k) bs) (j - 2 ^ k) H)"
proof -
  have "getMid bs = 2 ^ k" using assms by (simp add: getMid_def)
  moreover have "\<not> length bs \<le> 1" unfolding assms not_le by (rule power2_Suc)
  ultimately show ?thesis
    by (subst ComputeTrace.simps) (simp add: computeP_def computePi_def)
qed

lemma length_trace: "length bs = 2 ^ k \<Longrightarrow> length (ComputeTrace bs j H) = k"
proof (induction k arbitrary: bs j)
  case 0
  then show ?case by (simp add: ComputeTrace.simps)
next
  case (Suc k)
  then show ?case by (simp add: trace_step [OF Suc.prems])
qed

lemma trace_climbs:
  assumes "length bs = 2 ^ k" "x \<le> k" "i < 2 ^ (k - x)"
  shows "climb H (ComputeNode (take (2 ^ x) (drop (i * 2 ^ x) bs)) H) i
     (take (k - x) (ComputeTrace bs (int (i * 2 ^ x)) H)) = ComputeNode bs H"
  using assms
proof (induction k arbitrary: bs i)
  case 0
  then show ?case by (simp add: ComputeTrace.simps)
next
  case (Suc k)
  show ?case
  proof (cases "x = Suc k")
    case True
    then show ?thesis using Suc.prems by simp
  next
    case False
    then have x: "x \<le> k" "Suc k - x = Suc (k - x)" using Suc.prems(2) by simp_all
    have p: "(2 :: nat) ^ k = 2 ^ (k - x) * 2 ^ x" using x by (simp flip: power_add)
    have halves: "ComputeNode bs H =
        H (go_bytes ''node'' @ ComputeNode (take (2 ^ k) bs) H @ ComputeNode (drop (2 ^ k) bs) H)"
      using ComputeNode_split [of bs H] Suc.prems(1) by simp
    note len = length_trace [of "take (2 ^ k) bs" k] length_trace [of "drop (2 ^ k) bs" k]
    show ?thesis
    proof (cases "i < 2 ^ (k - x)")
      case True
      then have "i * 2 ^ x + 2 ^ x \<le> 2 ^ k"
        using mult_le_mono1 [of "Suc i" "2 ^ (k - x)" "2 ^ x"] p by simp
      then have "take (2 ^ x) (drop (i * 2 ^ x) (take (2 ^ k) bs)) = take (2 ^ x) (drop (i * 2 ^ x) bs)"
        by (simp add: drop_take min_absorb1)
      moreover have "int (i * 2 ^ x) < 2 ^ k"
        using True p by (simp flip: of_nat_power of_nat_mult)
      ultimately show ?thesis
        using Suc.IH [of "take (2 ^ k) bs" i] Suc.prems(1) True x len
        by (simp add: trace_step [OF Suc.prems(1)] halves)
    next
      case False
      define i' where "i' = i - 2 ^ (k - x)"
      have i': "i = 2 ^ (k - x) + i'" "i' < 2 ^ (k - x)"
        using False Suc.prems(3) x by (simp_all add: i'_def)
      have e: "i * 2 ^ x = 2 ^ k + i' * 2 ^ x" using i'(1) p by (simp add: add_mult_distrib)
      have j: "int (i * 2 ^ x) - 2 ^ k = int (i' * 2 ^ x)" "\<not> int (i * 2 ^ x) < 2 ^ k"
        unfolding e by (simp_all add: not_less)
      have "drop (i' * 2 ^ x) (drop (2 ^ k) bs) = drop (i * 2 ^ x) bs" by (simp add: e add.commute)
      then show ?thesis
        using Suc.IH [of "drop (2 ^ k) bs" i'] Suc.prems(1) x len i' j
        by (simp add: trace_step [OF Suc.prems(1)] halves del: of_nat_mult of_nat_power drop_drop)
    qed
  qed
qed

lemma log2_power [simp]: "ceil_log2 (2 ^ k) = k" "floor_log2 (2 ^ k) = k"
proof (induction k)
  case (Suc k)
  have "\<not> (2 :: nat) ^ Suc k \<le> 1" "((2 :: nat) ^ Suc k + 1) div 2 = 2 ^ k" "(2 :: nat) ^ Suc k div 2 = 2 ^ k"
    using power2_Suc [of k] by (simp_all add: not_le)
  then show "ceil_log2 (2 ^ Suc k) = Suc k" "floor_log2 (2 ^ Suc k) = Suc k"
    using Suc.IH by (simp_all only: ceil_log2.simps [of "2 ^ Suc k"] floor_log2.simps [of "2 ^ Suc k"] if_False)
qed (simp_all add: ceil_log2.simps floor_log2.simps)

lemma place_sint:
  assumes "n < 2 ^ 62"
  shows "sint (of_nat n :: i64) = int n"
  using assms by (simp add: sint_small unat_of_nat_small)

lemma upto_map_drop:
  assumes "a + n \<le> length xs"
  shows "map (\<lambda>j. f (xs ! nat j)) [int a..int (a + n) - 1] = map f (take n (drop a xs))"
  using assms by (intro nth_equalityI) (auto simp: nth_append nat_add_distrib)

lemma convert_hashes: "\<forall>b \<in> set xs. length b = 32 \<Longrightarrow> convertBlobsToHashes xs = xs"
  by (auto simp: convertBlobsToHashes_def go_copy_same_length intro: map_idI)

lemma trace_hashes:
  "(\<And>x. length (H x) = 32) \<Longrightarrow> b \<in> set (ComputeTrace bs j H) \<Longrightarrow> length b = 32"
proof (induction bs j H rule: ComputeTrace.induct)
  case (1 bs j H)
  then have l: "\<not> length bs \<le> 1" by (auto simp: ComputeTrace.simps [of bs j H] split: if_splits)
  then have "computeP bs j False \<noteq> []" by (auto simp: computeP_def getMid_def Let_def)
  then have "length (ComputeNode (computeP bs j False) H) = 32" using 1(2) by (rule length_ComputeNode)
  then show ?case using 1 l by (auto simp: ComputeTrace.simps [of bs j H] Let_def)
qed

text \<open>A function with results of 32 octets, for examples.\<close>

definition demo_hash :: "bytes \<Rightarrow> Hash" where
  "demo_hash x = go_copy (replicate 32 0) x"

lemma length_demo_hash: "length (demo_hash x) = 32"
  by (simp add: demo_hash_def)

section \<open>Properties\<close>



text \<open>
  \<^bold>\<open>A root commits to its blobs.\<close> Two different sequences of the same length with the same node
  yield two different inputs on which the hash function collides.
\<close>

theorem ComputeNode_binding:
  assumes "\<And>y. length (H y) = 32" "length xs = length ys" "xs \<noteq> ys" "ComputeNode xs H = ComputeNode ys H"
  shows "\<exists>a b. a \<noteq> b \<and> H a = H b"
  using assms(2-4)
proof (induction "length xs" arbitrary: xs ys rule: less_induct)
  case less
  show ?case
  proof (cases "length xs \<le> 1")
    case True
    then obtain x y where "xs = [x]" "ys = [y]"
      using less.prems(1,2) by (cases xs; cases ys) auto
    then show ?thesis using less.prems(2,3) by auto
  next
    case False
    define m where "m = length xs div 2"
    have m: "m < length xs" "length xs - m < length xs" "0 < m" using False by (simp_all add: m_def)
    define l r l' r' where "l = ComputeNode (take m xs) H" and "r = ComputeNode (drop m xs) H"
      and "l' = ComputeNode (take m ys) H" and "r' = ComputeNode (drop m ys) H"
    have eq: "H (go_bytes ''node'' @ l @ r) = H (go_bytes ''node'' @ l' @ r')"
      using ComputeNode_split [of xs H] ComputeNode_split [of ys H] False less.prems(1,3)
      by (simp add: m_def l_def r_def l'_def r'_def)
    have "length l = 32" "length l' = 32"
      using m less.prems(1) assms(1) by (auto simp: l_def l'_def intro!: length_ComputeNode)
    then have same: "l = l' \<and> r = r'" if "go_bytes ''node'' @ l @ r = go_bytes ''node'' @ l' @ r'"
      using that by simp
    have "take m xs \<noteq> take m ys \<or> drop m xs \<noteq> drop m ys"
      using less.prems(2) by (metis append_take_drop_id)
    then show ?thesis
    proof (elim disjE)
      assume ne: "take m xs \<noteq> take m ys"
      show ?thesis
      proof (cases "l = l'")
        case True
        then show ?thesis
          using less.hyps [of "take m xs" "take m ys"] ne m less.prems(1) by (simp add: l_def l'_def)
      next
        case False
        then show ?thesis using eq same by blast
      qed
    next
      assume ne: "drop m xs \<noteq> drop m ys"
      show ?thesis
      proof (cases "r = r'")
        case True
        then show ?thesis
          using less.hyps [of "drop m xs" "drop m ys"] ne m less.prems(1) by (simp add: r_def r'_def)
      next
        case False
        then show ?thesis using eq same by blast
      qed
    qed
  qed
qed

theorem ComputeNode_binding_witness: "\<exists>a b. a \<noteq> b \<and> demo_hash a = demo_hash b"
proof (rule ComputeNode_binding [of demo_hash "[[1]]" "[[1, 0]]", OF length_demo_hash])
  have "demo_hash [1] = demo_hash [1, 0]" by code_simp
  then show "ComputeNode [[1]] demo_hash = ComputeNode [[1, 0]] demo_hash" by simp
qed simp_all

text \<open>
  The places that fill up a constant-depth tree are nil blobs: the tree over three blobs hashes the
  empty octet string at its fourth place, and not the zero hash.
\<close>

lemma preprocess_pads_nil:
  "preprocessForConstantDepth [a, b, c] H =
     [H (go_bytes ''leaf'' @ a), H (go_bytes ''leaf'' @ b), H (go_bytes ''leaf'' @ c), []]"
proof -
  have "ceil_log2 (Suc (Suc (Suc 0))) = 2" by code_simp
  then show ?thesis by (simp add: preprocessForConstantDepth_def convertHashToBlob_def Let_def)
qed

text \<open>
  A node splits a sequence of odd length with the shorter part first, a trace with the longer part
  first: the trace of the first of three blobs belongs to a tree with another root.
\<close>

lemma trace_splits_differently:
  "ComputeTrace [a, b, c] 0 H = [H c, H b]"
  "ComputeNode [a, b, c] H = H (go_bytes ''node'' @ H a @ H (go_bytes ''node'' @ H b @ H c))"
proof -
  show "ComputeTrace [a, b, c] 0 H = [H c, H b]"
    by (simp add: ComputeTrace.simps [of "[a, b, c]"] ComputeTrace.simps [of "[a, b]"] ComputeTrace.simps [of "[a]"]
        computeP_def computePi_def getMid_def Let_def)
  show "ComputeNode [a, b, c] H = H (go_bytes ''node'' @ H a @ H (go_bytes ''node'' @ H b @ H c))"
    by (simp add: ComputeNode_split [of "[a, b, c]"] ComputeNode_split [of "[b, c]"])
qed

end
