(* ===== verification/State_Transition.thy ===== *)
theory State_Transition
  imports Accumulation Binary_Merkle
begin

text \<open>
  The transition of the whole state (\<^verbatim>\<open>UpdateState\<close> in \<^verbatim>\<open>internal/statetransition/state_transition.go\<close>), with
  the parts that are not theories of their own: preimages, the history of recent blocks, the
  authorizer pools, the statistics of the validators, and helpers for accumulation that are
  not called.
\<close>

section \<open>Preimages\<close>

definition preimageHasBeenSolicited :: "Heap \<Rightarrow> ref \<Rightarrow> ServiceId \<Rightarrow> Hash \<Rightarrow> nat \<Rightarrow> bool" where
  "preimageHasBeenSolicited hp serviceState serviceIndex preimageHash preimageLength =
     (case service_of hp serviceState serviceIndex of
        None \<Rightarrow> False
      | Some account \<Rightarrow>
          let existingMeta = (case map_of (go_map (metas hp) (PreimageMeta account)) (PreimageKey preimageHash preimageLength) of
                None \<Rightarrow> [] | Some ts \<Rightarrow> ts)
          in map_of (go_map (blobs hp) (PreimageLookup account)) preimageHash = None \<and> length existingMeta = 0)"

text \<open>A nil map of the account is replaced by a new one before the assignment.\<close>

definition own_lookup :: "ServiceAccount \<Rightarrow> Heap \<Rightarrow> nat \<times> Heap" where
  "own_lookup account hp =
     (case PreimageLookup account of
        Some a \<Rightarrow> (a, hp)
      | None \<Rightarrow> (fresh hp, hp\<lparr>blobs := (blobs hp)(fresh hp := []), fresh := fresh hp + 1\<rparr>))"

definition own_meta :: "ServiceAccount \<Rightarrow> Heap \<Rightarrow> nat \<times> Heap" where
  "own_meta account hp =
     (case PreimageMeta account of
        Some a \<Rightarrow> (a, hp)
      | None \<Rightarrow> (fresh hp, hp\<lparr>metas := (metas hp)(fresh hp := []), fresh := fresh hp + 1\<rparr>))"

definition integrate_preimage :: "(bytes \<Rightarrow> Hash) \<Rightarrow> ref \<Rightarrow> Timeslot \<Rightarrow> ref \<Rightarrow> Preimage \<Rightarrow> Heap \<Rightarrow> Heap option" where
  "integrate_preimage HashData serviceState newTimeslot newServiceState preimage hp =
     (let serviceId = ServiceIndex preimage;
          preimageHash = HashData (pre_Data preimage);
          preimageLength = length (pre_Data preimage) in
      if \<not> preimageHasBeenSolicited hp serviceState serviceId preimageHash preimageLength then Some hp
      else case service_of hp serviceState serviceId of
        None \<Rightarrow> Some hp
      | Some account \<Rightarrow>
          let (l, hp) = own_lookup account hp;
              hp = hp\<lparr>blobs := (blobs hp)(l := AList.update preimageHash (pre_Data preimage) (blobs hp l))\<rparr>;
              (m, hp) = own_meta account hp;
              hp = hp\<lparr>metas := (metas hp)(m := AList.update (PreimageKey preimageHash preimageLength) [newTimeslot] (metas hp m))\<rparr>
          in map_option (\<lambda>s. hp\<lparr>states := s\<rparr>)
               (go_assign (states hp) newServiceState serviceId (account\<lparr>PreimageLookup := Some l, PreimageMeta := Some m\<rparr>)))"

primrec integrate_preimages :: "(bytes \<Rightarrow> Hash) \<Rightarrow> ref \<Rightarrow> Timeslot \<Rightarrow> ref \<Rightarrow> Preimage list \<Rightarrow> Heap \<Rightarrow> Heap option" where
  "integrate_preimages HashData serviceState newTimeslot newServiceState [] hp = Some hp"
| "integrate_preimages HashData serviceState newTimeslot newServiceState (p # ps) hp =
     Option.bind (integrate_preimage HashData serviceState newTimeslot newServiceState p hp)
       (integrate_preimages HashData serviceState newTimeslot newServiceState ps)"

text \<open>\<^verbatim>\<open>maps.Clone\<close> copies the dictionary, of a nil map it is nil; the accounts in both share their maps.\<close>

definition clone_services :: "ref \<Rightarrow> Heap \<Rightarrow> ref \<times> Heap" where
  "clone_services serviceState hp =
     (case serviceState of
        None \<Rightarrow> (None, hp)
      | Some a \<Rightarrow> (Some (fresh hp), hp\<lparr>states := (states hp)(fresh hp := states hp a), fresh := fresh hp + 1\<rparr>))"

definition CalculateIntermediateServiceState ::
  "(bytes \<Rightarrow> Hash) \<Rightarrow> Preimage list \<Rightarrow> ref \<Rightarrow> Timeslot \<Rightarrow> Heap \<Rightarrow> (ref \<times> Heap) option" where
  "CalculateIntermediateServiceState HashData preimages serviceState newTimeslot hp =
     (let (newServiceState, hp) = clone_services serviceState hp in
      map_option (Pair newServiceState) (integrate_preimages HashData serviceState newTimeslot newServiceState preimages hp))"

section \<open>Recent blocks\<close>

definition set_last_root :: "Hash \<Rightarrow> BlockState list \<Rightarrow> BlockState list" where
  "set_last_root root bs = (if length bs > 0 then bs[length bs - 1 := (bs ! (length bs - 1))\<lparr>StateRoot := root\<rparr>] else bs)"

definition calculateIntermediateBlockState :: "Header \<Rightarrow> BlockState list \<Rightarrow> BlockState list" where
  "calculateIntermediateBlockState header previousRecentBlocks = set_last_root (PriorStateRoot header) previousRecentBlocks"

definition UpdateRecentBlocks ::
  "(bytes \<Rightarrow> Hash) \<Rightarrow> Hash \<Rightarrow> Hash \<Rightarrow> Hash \<Rightarrow> BlockState list \<Rightarrow> (Hash \<times> Hash) list \<Rightarrow> BlockState list" where
  "UpdateRecentBlocks KeccakData headerHash priorStateRoot accumulationRoot intermediateRecentBlocks workPackageMapping =
     (let blocks = set_last_root priorStateRoot intermediateRecentBlocks;
          lastBlockMMR = (if length blocks > 0 then AccumulationResultMMR (blocks ! (length blocks - 1)) else []);
          newMMR = Append lastBlockMMR accumulationRoot KeccakData;
          newRecentBlocks = blocks @ [\<lparr>bs_HeaderHash = headerHash, StateRoot = zero_hash, AccumulationResultMMR = newMMR,
            WorkReportHashes = workPackageMapping\<rparr>]
      in if length newRecentBlocks > MaxRecentBlocks then drop (length newRecentBlocks - MaxRecentBlocks) newRecentBlocks
         else newRecentBlocks)"

text \<open>
  \<^verbatim>\<open>sort.Slice\<close> does not keep the order of equal elements: the sorted pairs are those of a parameter.
\<close>

definition pair_item :: "ServiceId \<times> Hash \<Rightarrow> (st_error + bytes) option" where
  "pair_item = (\<lambda>(i, h).
     res_bind (lift_jam (Marshal 2 (TNamed KUint32) (VUint (ucast i)))) (\<lambda>s.
     res_bind (lift_jam (Marshal (stack_depth hash_type) hash_type (hash_value h))) (\<lambda>h. ret (s @ h))))"

definition computeAccumulationRoot ::
  "((ServiceId \<times> Hash) list \<Rightarrow> (ServiceId \<times> Hash) list) \<Rightarrow> (bytes \<Rightarrow> Hash) \<Rightarrow> (ServiceId \<times> Hash) list \<Rightarrow> (st_error + Hash) option" where
  "computeAccumulationRoot sortSlice KeccakData pairs =
     (if length pairs = 0 then ret zero_hash
      else
        res_bind (res_map pair_item (sortSlice pairs)) (\<lambda>items.
          map_option Inr (ComputeWellBalancedRoot items KeccakData)))"

definition buildWorkPackageMapping :: "Guarantee list \<Rightarrow> (Hash \<times> Hash) list" where
  "buildWorkPackageMapping guarantees =
     add_entries [] (map (\<lambda>g. (package_hash g, SegmentRoot (Specification (g_WorkReport g)))) guarantees)"

definition calculateNewRecentBlocks ::
  "((ServiceId \<times> Hash) list \<Rightarrow> (ServiceId \<times> Hash) list) \<Rightarrow> (bytes \<Rightarrow> Hash) \<Rightarrow> (bytes \<Rightarrow> Hash) \<Rightarrow> Header \<Rightarrow> Guarantee list \<Rightarrow> BlockState list \<Rightarrow>
   (ServiceId \<times> Hash) list \<Rightarrow> (st_error + BlockState list) option" where
  "calculateNewRecentBlocks sortSlice HashData KeccakData header guarantees intermediateRecentBlocks serviceHashPairs =
     res_bind (lift_jam (Marshal (stack_depth Header_type) Header_type (Header_value header))) (\<lambda>headerBytes.
     res_bind (computeAccumulationRoot sortSlice KeccakData serviceHashPairs) (\<lambda>accumulationRoot.
       ret (UpdateRecentBlocks KeccakData (HashData headerBytes) (PriorStateRoot header) accumulationRoot intermediateRecentBlocks
         (buildWorkPackageMapping guarantees))))"

section \<open>Authorizers\<close>

definition removeAuthorizer :: "Hash list \<Rightarrow> Hash \<Rightarrow> Hash list" where
  "removeAuthorizer auths toRemove = remove1 toRemove auths"

text \<open>With a size of 0 the slice expression on an empty list is out of range: \<open>None\<close>.\<close>

definition appendAuthorizerLimited :: "Hash list \<Rightarrow> Hash \<Rightarrow> nat \<Rightarrow> Hash list option" where
  "appendAuthorizerLimited auths newAuth maxSize =
     (if length auths \<ge> maxSize then if auths = [] then None else Some (tl auths @ [newAuth])
      else Some (auths @ [newAuth]))"

definition core_authorizers :: "Header \<Rightarrow> Guarantee list \<Rightarrow> PendingQueues \<Rightarrow> nat \<Rightarrow> Hash list \<Rightarrow> Hash list option" where
  "core_authorizers header guarantees pendingAuthorizations c auths =
     (let own = filter (\<lambda>g. unat (CoreIndex (g_WorkReport g)) = c) guarantees;
          newAuths = foldl (\<lambda>auths g. removeAuthorizer auths (AuthorizerHash (g_WorkReport g))) auths own;
          newAuths = (if own = [] \<and> length newAuths > 0 then tl newAuths else newAuths);
          queueIndex = unat (TimeSlotIndex header mod of_nat PendingAuthorizersQueueSize);
          newAuthorizer = pendingAuthorizations ! c ! queueIndex
      in if newAuthorizer \<noteq> zero_hash then appendAuthorizerLimited newAuths newAuthorizer MaxAuthorizersPerCore
         else Some newAuths)"

definition CalculateNewCoreAuthorizations ::
  "Header \<Rightarrow> Guarantee list \<Rightarrow> PendingQueues \<Rightarrow> AuthorizersPool \<Rightarrow> AuthorizersPool option" where
  "CalculateNewCoreAuthorizations header guarantees pendingAuthorizations currentAuthorizations =
     those (map (\<lambda>c. core_authorizers header guarantees pendingAuthorizations c (currentAuthorizations ! c)) [0..<TotalNumberOfCores])"

definition addUniqueHash :: "Hash list \<Rightarrow> Hash \<Rightarrow> Hash list" where
  "addUniqueHash hs hash = (if list_ex (\<lambda>v. v = hash) hs then hs else hs @ [hash])"

definition addUniqueEdPubKey :: "bytes list \<Rightarrow> bytes \<Rightarrow> bytes list" where
  "addUniqueEdPubKey keys key = (if list_ex (\<lambda>v. v = key) keys then keys else keys @ [key])"

section \<open>Statistics\<close>

text \<open>
  The second array is the current one. The counters are of fixed width and wrap.
\<close>

definition count_author :: "Block \<Rightarrow> ValidatorStatistics \<Rightarrow> ValidatorStatistics" where
  "count_author b s =
     s\<lparr>NumOfBlocks := NumOfBlocks s + 1,
       NumOfTickets := NumOfTickets s + of_nat (length (ET (blk_Extrinsic b))),
       NumOfPreimages := NumOfPreimages s + of_nat (length (EP (blk_Extrinsic b))),
       NumOfBytesAllPreimages := foldl (\<lambda>n p. n + of_nat (length (pre_Data p))) (NumOfBytesAllPreimages s) (EP (blk_Extrinsic b))\<rparr>"

definition count_validator :: "Block \<Rightarrow> bytes set \<Rightarrow> ValidatorsData \<Rightarrow> nat \<Rightarrow> ValidatorStatistics \<Rightarrow> ValidatorStatistics" where
  "count_validator b reporters currValidators v s =
     (let s = (if of_nat v = BlockAuthorIndex (blk_Header b) then count_author b s else s);
          s = (case currValidators ! v of
                 None \<Rightarrow> s
               | Some key \<Rightarrow> if Ed25519 key \<in> reporters then s\<lparr>NumOfGuaranteedReports := NumOfGuaranteedReports s + 1\<rparr> else s)
      in s\<lparr>NumOfAvailabilityAssurances := NumOfAvailabilityAssurances s +
             of_nat (length (filter (\<lambda>a. a_ValidatorIndex a = of_nat v) (EA (blk_Extrinsic b))))\<rparr>)"

definition CalculateNewValidatorStatistics ::
  "Block \<Rightarrow> Timeslot \<Rightarrow> ValidatorStatisticsState \<Rightarrow> bytes set \<Rightarrow> ValidatorsData \<Rightarrow> ValidatorStatisticsState" where
  "CalculateNewValidatorStatistics b timeslot validatorStatistics reporters currValidators =
     (let newStats = (if ToEpoch timeslot \<noteq> ToEpoch (TimeSlotIndex (blk_Header b))
            then (snd validatorStatistics, replicate NumberOfValidators ValidatorStatistics_zero) else validatorStatistics)
      in (fst newStats, map (\<lambda>v. count_validator b reporters currValidators v (snd newStats ! v)) [0..<length (fst newStats)]))"

section \<open>Helpers for accumulation that are not called\<close>

text \<open>
  A map of results is the list of its entries in the order of the iteration.
\<close>

record AccumulationResult =
  ar_ServiceState :: "ServiceAccount option"
  ValidatorUpdates :: "ValidatorKey option list"
  ar_DeferredTransfers :: "DeferredTransfer list"
  AccumulationRoot :: "Hash option"
  ar_CoreAssignments :: PendingQueues
  NewServices :: ref
  PrivilegedUpdates :: PrivilegedServices

definition processServiceTransitions ::
  "(ServiceId \<times> AccumulationResult) list \<Rightarrow> ref \<Rightarrow> Heap \<Rightarrow> (ServiceId \<times> ServiceAccount) list" where
  "processServiceTransitions accumResults intermediateState hp =
     (let initial = go_map (states hp) intermediateState in
      foldl (\<lambda>newState (serviceId, result).
          let newState = (case ar_ServiceState result of None \<Rightarrow> newState | Some account \<Rightarrow> AList.update serviceId account newState)
          in add_entries newState (filter (\<lambda>(i, account). i \<notin> fst ` set initial) (go_map (states hp) (NewServices result))))
        (add_entries [] initial) accumResults)"

definition update_privileges :: "PrivilegedServices \<Rightarrow> PrivilegedServices \<Rightarrow> PrivilegedServices" where
  "update_privileges u p =
     p\<lparr>ManagerServiceId := (if ManagerServiceId u \<noteq> 0 then ManagerServiceId u else ManagerServiceId p),
       AssignServiceId := (if AssignServiceId u \<noteq> 0 then AssignServiceId u else AssignServiceId p),
       DesignateServiceId := (if DesignateServiceId u \<noteq> 0 then DesignateServiceId u else DesignateServiceId p)\<rparr>"

definition processPrivilegedTransitions ::
  "(ServiceId \<times> AccumulationResult) list \<Rightarrow> PrivilegedServices \<Rightarrow> ValidatorKey option list \<Rightarrow> PendingQueues \<Rightarrow>
   PrivilegedServices \<times> ValidatorKey option list \<times> PendingQueues" where
  "processPrivilegedTransitions accumResults privileged queuedValidators coreAuth =
     foldl (\<lambda>(newPrivileged, newValidators, newAuth) (serviceId, result).
         (update_privileges (PrivilegedUpdates result) newPrivileged,
          if length (ValidatorUpdates result) > 0 then ValidatorUpdates result else newValidators,
          if ar_CoreAssignments result \<noteq> replicate TotalNumberOfCores (replicate PendingAuthorizersQueueSize zero_hash)
          then ar_CoreAssignments result else newAuth))
       (privileged, queuedValidators, coreAuth) accumResults"

definition translatePVMContext :: "Heap \<Rightarrow> AccumulateContext \<Rightarrow> Hash option \<Rightarrow> AccumulationResult" where
  "translatePVMContext hp ctx root =
     (let u = ctx_State ctx
      in \<lparr>ar_ServiceState = Some (ServiceAccount_of hp ctx), ValidatorUpdates = ValidatorKeys u, ar_DeferredTransfers = DeferredTransfers ctx,
          AccumulationRoot = root, ar_CoreAssignments = PendingAuthorizersQueues u, NewServices = ServiceState u,
          PrivilegedUpdates = Privileged u\<rparr>)"

text \<open>A core without an assignment is dereferenced: \<open>None\<close>.\<close>

definition assigned_results :: "CoreAssignments \<Rightarrow> WorkResult list option" where
  "assigned_results assignments =
     map_option concat (those (map (map_option (\<lambda>a. case as_WorkReport a of None \<Rightarrow> [] | Some w \<Rightarrow> WorkResults w)) assignments))"

definition determineServicesToAccumulate :: "CoreAssignments \<Rightarrow> (ServiceId \<times> u64) list \<Rightarrow> ServiceId list option" where
  "determineServicesToAccumulate assignments privilegedGas =
     map_option (\<lambda>results. sort (remdups (map res_ServiceId results @ map fst privilegedGas))) (assigned_results assignments)"

definition add_amount :: "(ServiceId \<times> u64) list \<Rightarrow> ServiceId \<Rightarrow> u64 \<Rightarrow> (ServiceId \<times> u64) list" where
  "add_amount m i n = AList.update i ((case map_of m i of None \<Rightarrow> 0 | Some k \<Rightarrow> k) + n) m"

definition minimum_gas :: "(ServiceId \<times> ServiceAccount) list \<Rightarrow> ServiceId list \<Rightarrow> u64 \<times> (ServiceId \<times> u64) list" where
  "minimum_gas st services =
     foldl (\<lambda>(total, allocations) i. case map_of st i of
         None \<Rightarrow> (total, allocations)
       | Some account \<Rightarrow> (total + GasLimitForAccumulator account, AList.update i (GasLimitForAccumulator account) allocations))
       (0, []) services"

definition gas_ratios :: "ServiceId list \<Rightarrow> WorkResult list \<Rightarrow> u64 \<times> (ServiceId \<times> u64) list" where
  "gas_ratios services results =
     foldl (\<lambda>(total, ratios) r. foldl (\<lambda>(total, ratios) i.
         if res_ServiceId r = i then (total + GasPrioritizationRatio r, add_amount ratios i (GasPrioritizationRatio r))
         else (total, ratios)) (total, ratios) services)
       (0, []) results"

definition calculateGasAllocations ::
  "ServiceId list \<Rightarrow> (ServiceId \<times> ServiceAccount) list \<Rightarrow> CoreAssignments \<Rightarrow> (ServiceId \<times> u64) list option" where
  "calculateGasAllocations services st coreAssignments =
     (let (totalMinGas, allocations) = minimum_gas st services in
      if totalMinGas \<ge> MaxAllocatedGasAccumulation then Some allocations
      else
        let remainingGas = MaxAllocatedGasAccumulation - totalMinGas in
        map_option (\<lambda>results.
          let (totalGasRatios, ratios) = gas_ratios services results in
          if totalGasRatios > 0 then
            foldl (\<lambda>allocations (i, ratioSum). add_amount allocations i ((ratioSum * remainingGas) div totalGasRatios)) allocations ratios
          else allocations) (assigned_results coreAssignments))"

definition buildServiceAccumulationCommitments :: "(ServiceId \<times> AccumulationResult) list \<Rightarrow> (ServiceId \<times> Hash) list" where
  "buildServiceAccumulationCommitments accumResults =
     List.map_filter (\<lambda>(i, result). map_option (Pair i) (AccumulationRoot result)) accumResults"

section \<open>The transition\<close>

definition CalculateNewTimeState :: "Header \<Rightarrow> Timeslot" where
  "CalculateNewTimeState header = TimeSlotIndex header"

text \<open>
  What the transition uses of libraries and of the run-time system: the libraries for signatures, rings and
  the database, the hash functions, the clock, the order in which goroutines and iterations over
  maps take their turns, and that of equal elements when sorting.
\<close>

record 's Libraries =
  lib_ed25519 :: ed25519
  lib_vrf :: VrfLibrary
  lib_HashData :: "bytes \<Rightarrow> Hash"
  lib_KeccakData :: "bytes \<Rightarrow> Hash"
  lib_Sum256 :: "bytes \<Rightarrow> Hash"
  lib_pebble :: "'s Pebble"
  lib_now :: Time
  lib_schedule :: "task list \<Rightarrow> task list"
  lib_order :: "ServiceId list \<Rightarrow> ServiceId list"
  lib_sortSlice :: "(ServiceId \<times> Hash) list \<Rightarrow> (ServiceId \<times> Hash) list"

text \<open>
  An error leaves the state as it is, but not the maps on the heap that accumulation has changed by then.
\<close>

definition attempt :: "(st_error + 'a) option \<Rightarrow> Heap \<Rightarrow> ('a \<Rightarrow> ((st_error + 'b) \<times> Heap) run) \<Rightarrow> ((st_error + 'b) \<times> Heap) run" where
  "attempt r hp f = (case r of None \<Rightarrow> Some None | Some (Inl e) \<Rightarrow> done_with (Inl e, hp) | Some (Inr x) \<Rightarrow> f x)"

definition validate_guarantees :: "'s Libraries \<Rightarrow> State \<Rightarrow> Block \<Rightarrow> 's Chain \<Rightarrow> Heap \<Rightarrow> st_check" where
  "validate_guarantees L s newBlock chain hp =
     (case ValidateExtrinsicGuarantees (lib_HashData L) (lib_KeccakData L) (lib_Sum256 L) (lib_pebble L) hp (blk_Header newBlock) s
        (EG (blk_Extrinsic newBlock)) (st_CoreAssignments s) (CalculateNewTimeState (blk_Header newBlock)) chain of
        Some (Inl e) \<Rightarrow> raise (Wrapped ''extrinsic guarantees validation failed, err: '' e)
      | r \<Rightarrow> r)"

definition UpdateState :: "'s Libraries \<Rightarrow> State \<Rightarrow> Block \<Rightarrow> 's Chain \<Rightarrow> Heap \<Rightarrow> ((st_error + State) \<times> Heap) run" where
  "UpdateState L s newBlock chain hp =
     (let header = blk_Header newBlock; extrinsic = blk_Extrinsic newBlock; H = lib_HashData L in
      if IsInFuture (lib_now L) (TimeSlotIndex header) then done_with (Inl (Err ''invalid block, it is in the future''), hp)
      else
      let newTimeState = CalculateNewTimeState header in
      attempt (validate_guarantees L s newBlock chain hp) hp (\<lambda>_.
      attempt (map_option Inr (CalculateIntermediateCoreAssignmentsFromExtrinsics H (ED extrinsic) (st_CoreAssignments s))) hp
        (\<lambda>intermediateCoreAssignments.
      attempt (NewSafroleInputFromBlock (lib_vrf L) newBlock) hp (\<lambda>safroleInput.
      attempt (UpdateSafroleState (lib_vrf L) H safroleInput (TimeslotIndex s) (st_EntropyPool s) (st_ValidatorState s)) hp
        (\<lambda>(newEntropyPool, newValidatorState, out).
      attempt (CalculateIntermediateCoreFromAssurances (lib_ed25519 L) H (CurrentValidators newValidatorState)
          intermediateCoreAssignments header (EA extrinsic)) hp (\<lambda>(intermediateCoreAssignments, removed).
      attempt (CalculateNewCoreAssignments (lib_ed25519 L) H (EG extrinsic) intermediateCoreAssignments (st_ValidatorState s)
          newTimeState newEntropyPool) hp (\<lambda>(newCoreAssignments, reporters).
      let newValidatorStatistics = CalculateNewValidatorStatistics newBlock newTimeState (st_ValidatorStatistics s) reporters
            (CurrentValidators (st_ValidatorState s)) in
      attempt (map_option Inr (GetAvailableWorkReports newCoreAssignments)) hp (\<lambda>workReports.
      run_bind (CalculateWorkReportsAndAccumulate H (lib_schedule L) (lib_order L) header s newTimeState workReports hp) (\<lambda>(acc, hp).
      let intermediateRecentBlocks = calculateIntermediateBlockState header (RecentBlocks s) in
      attempt (calculateNewRecentBlocks (lib_sortSlice L) H (lib_KeccakData L) header (EG extrinsic) intermediateRecentBlocks
          (hashPairs acc)) hp (\<lambda>newRecentBlocks.
      attempt (CalculateNewJudgements (lib_ed25519 L) newTimeState (ED extrinsic) (PastJudgements s) (st_ValidatorState s)) hp
        (\<lambda>newJudgements.
      attempt (map_option Inr (CalculateNewCoreAuthorizations header (EG extrinsic) (newPendingAuthorizersQueues acc)
          (CoreAuthorizersPool s))) hp (\<lambda>newCoreAuthorizations.
        done_with (Inr (s\<lparr>TimeslotIndex := newTimeState,
          st_EntropyPool := newEntropyPool,
          st_ValidatorState := newValidatorState\<lparr>QueuedValidators := newValidatorKeys acc\<rparr>,
          st_ValidatorStatistics := newValidatorStatistics,
          RecentBlocks := newRecentBlocks,
          st_CoreAssignments := newCoreAssignments,
          PastJudgements := newJudgements,
          CoreAuthorizersPool := newCoreAuthorizations,
          Services := postAccumulationServiceState acc,
          st_PrivilegedServices := newPrivilegedServices acc,
          AccumulationQueue := newAccumulationQueue acc,
          AccumulationHistory := newAccumulationHistory acc\<rparr>), hp)))))))))))))"

section \<open>Accepted blocks\<close>

lemma attempt_ret: "attempt r hp f = done_with (Inr y, hp') \<longleftrightarrow> (\<exists>x. r = ret x \<and> f x = done_with (Inr y, hp'))"
  by (auto simp: attempt_def split: option.splits sum.splits)

lemma map_option_ret: "map_option Inr r = ret x \<longleftrightarrow> r = Some x"
  by (cases r) auto

lemma validate_guarantees_ret:
  "validate_guarantees L s b chain hp = ret u \<longleftrightarrow>
   ValidateExtrinsicGuarantees (lib_HashData L) (lib_KeccakData L) (lib_Sum256 L) (lib_pebble L) hp (blk_Header b) s
     (EG (blk_Extrinsic b)) (st_CoreAssignments s) (TimeSlotIndex (blk_Header b)) chain = ret u"
  by (auto simp: validate_guarantees_def CalculateNewTimeState_def split: option.splits sum.splits)

text \<open>The values that the transition computes on its way to a new state.\<close>

record steps =
  tr_cleared :: CoreAssignments
  tr_safroleInput :: SafroleInput
  tr_pool :: EntropyPool
  tr_validators :: ValidatorState
  tr_waiting :: CoreAssignments
  tr_assigned :: CoreAssignments
  tr_reporting :: "bytes set"
  tr_reports :: "WorkReport list"
  tr_accumulation :: BlockAccumulation
  tr_history :: "BlockState list"
  tr_judgements :: Judgements
  tr_authorizers :: AuthorizersPool

definition transition_steps :: "'s Libraries \<Rightarrow> State \<Rightarrow> Block \<Rightarrow> 's Chain \<Rightarrow> Heap \<Rightarrow> Heap \<Rightarrow> steps \<Rightarrow> bool" where
  "transition_steps L s b chain hp hp' x \<longleftrightarrow>
     (let header = blk_Header b; slot = TimeSlotIndex header; e = blk_Extrinsic b; H = lib_HashData L; check = lib_ed25519 L in
      \<not> IsInFuture (lib_now L) slot \<and>
      ValidateExtrinsicGuarantees H (lib_KeccakData L) (lib_Sum256 L) (lib_pebble L) hp header s (EG e) (st_CoreAssignments s) slot chain = ret () \<and>
      CalculateIntermediateCoreAssignmentsFromExtrinsics H (ED e) (st_CoreAssignments s) = Some (tr_cleared x) \<and>
      NewSafroleInputFromBlock (lib_vrf L) b = ret (tr_safroleInput x) \<and>
      (\<exists>out. UpdateSafroleState (lib_vrf L) H (tr_safroleInput x) (TimeslotIndex s) (st_EntropyPool s) (st_ValidatorState s) =
         ret (tr_pool x, tr_validators x, out)) \<and>
      (\<exists>removed. CalculateIntermediateCoreFromAssurances check H (CurrentValidators (tr_validators x)) (tr_cleared x) header (EA e) =
         ret (tr_waiting x, removed)) \<and>
      CalculateNewCoreAssignments check H (EG e) (tr_waiting x) (st_ValidatorState s) slot (tr_pool x) = ret (tr_assigned x, tr_reporting x) \<and>
      GetAvailableWorkReports (tr_assigned x) = Some (tr_reports x) \<and>
      CalculateWorkReportsAndAccumulate H (lib_schedule L) (lib_order L) header s slot (tr_reports x) hp = done_with (tr_accumulation x, hp') \<and>
      calculateNewRecentBlocks (lib_sortSlice L) H (lib_KeccakData L) header (EG e)
        (calculateIntermediateBlockState header (RecentBlocks s)) (hashPairs (tr_accumulation x)) = ret (tr_history x) \<and>
      CalculateNewJudgements check slot (ED e) (PastJudgements s) (st_ValidatorState s) = ret (tr_judgements x) \<and>
      CalculateNewCoreAuthorizations header (EG e) (newPendingAuthorizersQueues (tr_accumulation x)) (CoreAuthorizersPool s) = Some (tr_authorizers x))"

definition next_state :: "State \<Rightarrow> Block \<Rightarrow> steps \<Rightarrow> State" where
  "next_state s b x =
     s\<lparr>TimeslotIndex := TimeSlotIndex (blk_Header b), st_EntropyPool := tr_pool x,
       st_ValidatorState := (tr_validators x)\<lparr>QueuedValidators := newValidatorKeys (tr_accumulation x)\<rparr>,
       st_ValidatorStatistics := CalculateNewValidatorStatistics b (TimeSlotIndex (blk_Header b)) (st_ValidatorStatistics s)
         (tr_reporting x) (CurrentValidators (st_ValidatorState s)),
       RecentBlocks := tr_history x, st_CoreAssignments := tr_assigned x, PastJudgements := tr_judgements x,
       CoreAuthorizersPool := tr_authorizers x, Services := postAccumulationServiceState (tr_accumulation x),
       st_PrivilegedServices := newPrivilegedServices (tr_accumulation x),
       AccumulationQueue := newAccumulationQueue (tr_accumulation x), AccumulationHistory := newAccumulationHistory (tr_accumulation x)\<rparr>"

lemma UpdateState_steps:
  "UpdateState L s b chain hp = done_with (Inr s', hp') \<longleftrightarrow> (\<exists>x. transition_steps L s b chain hp hp' x \<and> s' = next_state s b x)"
proof
  assume "UpdateState L s b chain hp = done_with (Inr s', hp')"
  then obtain cl inp po va out wa re as rp ws ac hi ju au where *:
    "\<not> IsInFuture (lib_now L) (TimeSlotIndex (blk_Header b))"
    "validate_guarantees L s b chain hp = ret ()"
    "CalculateIntermediateCoreAssignmentsFromExtrinsics (lib_HashData L) (ED (blk_Extrinsic b)) (st_CoreAssignments s) = Some cl"
    "NewSafroleInputFromBlock (lib_vrf L) b = ret inp"
    "UpdateSafroleState (lib_vrf L) (lib_HashData L) inp (TimeslotIndex s) (st_EntropyPool s) (st_ValidatorState s) = ret (po, va, out)"
    "CalculateIntermediateCoreFromAssurances (lib_ed25519 L) (lib_HashData L) (CurrentValidators va) cl (blk_Header b) (EA (blk_Extrinsic b)) = ret (wa, re)"
    "CalculateNewCoreAssignments (lib_ed25519 L) (lib_HashData L) (EG (blk_Extrinsic b)) wa (st_ValidatorState s) (TimeSlotIndex (blk_Header b)) po = ret (as, rp)"
    "GetAvailableWorkReports as = Some ws"
    "CalculateWorkReportsAndAccumulate (lib_HashData L) (lib_schedule L) (lib_order L) (blk_Header b) s (TimeSlotIndex (blk_Header b)) ws hp = done_with (ac, hp')"
    "calculateNewRecentBlocks (lib_sortSlice L) (lib_HashData L) (lib_KeccakData L) (blk_Header b) (EG (blk_Extrinsic b))
        (calculateIntermediateBlockState (blk_Header b) (RecentBlocks s)) (hashPairs ac) = ret hi"
    "CalculateNewJudgements (lib_ed25519 L) (TimeSlotIndex (blk_Header b)) (ED (blk_Extrinsic b)) (PastJudgements s) (st_ValidatorState s) = ret ju"
    "CalculateNewCoreAuthorizations (blk_Header b) (EG (blk_Extrinsic b)) (newPendingAuthorizersQueues ac) (CoreAuthorizersPool s) = Some au"
    "s' = next_state s b \<lparr>tr_cleared = cl, tr_safroleInput = inp, tr_pool = po, tr_validators = va, tr_waiting = wa, tr_assigned = as, tr_reporting = rp,
       tr_reports = ws, tr_accumulation = ac, tr_history = hi, tr_judgements = ju, tr_authorizers = au\<rparr>"
    by (auto simp: UpdateState_def Let_def attempt_ret map_option_ret run_bind_done_iff CalculateNewTimeState_def next_state_def
        split: if_splits prod.splits)
  then show "\<exists>x. transition_steps L s b chain hp hp' x \<and> s' = next_state s b x"
    by (intro exI [of _ "\<lparr>tr_cleared = cl, tr_safroleInput = inp, tr_pool = po, tr_validators = va, tr_waiting = wa, tr_assigned = as, tr_reporting = rp,
       tr_reports = ws, tr_accumulation = ac, tr_history = hi, tr_judgements = ju, tr_authorizers = au\<rparr>"])
      (simp add: transition_steps_def Let_def validate_guarantees_ret)
next
  assume "\<exists>x. transition_steps L s b chain hp hp' x \<and> s' = next_state s b x"
  then show "UpdateState L s b chain hp = done_with (Inr s', hp')"
    by (auto simp: transition_steps_def next_state_def UpdateState_def Let_def attempt_ret map_option_ret run_bind_done_iff
        CalculateNewTimeState_def validate_guarantees_ret)
qed

section \<open>Shapes\<close>

text \<open>
  The lengths that the arrays of the source have by their type, and the bounds on the lists that its
  comments state.
\<close>

definition state_ok :: "State \<Rightarrow> bool" where
  "state_ok s \<longleftrightarrow> length (st_CoreAssignments s) = TotalNumberOfCores \<and> length (st_EntropyPool s) = 4 \<and>
     length (CoreAuthorizersPool s) = TotalNumberOfCores \<and> (\<forall>p \<in> set (CoreAuthorizersPool s). length p \<le> MaxAuthorizersPerCore) \<and>
     length (RecentBlocks s) \<le> MaxRecentBlocks \<and> length (AccumulationQueue s) = TimeslotsPerEpoch \<and>
     length (AccumulationHistory s) = TimeslotsPerEpoch \<and>
     length (fst (st_ValidatorStatistics s)) = NumberOfValidators \<and> length (snd (st_ValidatorStatistics s)) = NumberOfValidators"

lemma length_set_last_root [simp]: "length (set_last_root r bs) = length bs"
  by (simp add: set_last_root_def)

lemma set_last_root_empty [simp]: "set_last_root r bs = [] \<longleftrightarrow> bs = []"
  by (simp add: set_last_root_def)

lemma set_last_root_twice: "set_last_root r (set_last_root r' bs) = set_last_root r bs"
  by (simp add: set_last_root_def)

lemma last_set_last_root: "bs \<noteq> [] \<Longrightarrow> AccumulationResultMMR (last (set_last_root r bs)) = AccumulationResultMMR (last bs)"
  by (simp add: set_last_root_def last_conv_nth)

lemma UpdateRecentBlocks_eq:
  assumes "length bs \<le> MaxRecentBlocks"
  shows "UpdateRecentBlocks KeccakData h r a bs m =
    drop (length bs - 7) (set_last_root r bs) @
      [\<lparr>bs_HeaderHash = h, StateRoot = zero_hash,
        AccumulationResultMMR = Append (if bs = [] then [] else AccumulationResultMMR (last bs)) a KeccakData, WorkReportHashes = m\<rparr>]"
proof -
  have "AccumulationResultMMR (set_last_root r bs ! (length bs - 1)) = AccumulationResultMMR (last bs)" if "bs \<noteq> []"
    using that by (simp add: set_last_root_def last_conv_nth)
  then show ?thesis using assms by (auto simp: UpdateRecentBlocks_def Let_def MaxRecentBlocks_def)
qed

lemma new_recent_blocks:
  assumes "calculateNewRecentBlocks sortSlice HashData KeccakData header gs (calculateIntermediateBlockState header bs) pairs = ret bs'"
    "length bs \<le> MaxRecentBlocks"
  shows "\<exists>headerBytes root. Header_Bytes header = ret headerBytes \<and>
    bs' = drop (length bs - 7) (set_last_root (PriorStateRoot header) bs) @
      [\<lparr>bs_HeaderHash = HashData headerBytes, StateRoot = zero_hash,
        AccumulationResultMMR = Append (if bs = [] then [] else AccumulationResultMMR (last bs)) root KeccakData,
        WorkReportHashes = buildWorkPackageMapping gs\<rparr>]"
  using assms by (auto simp: calculateNewRecentBlocks_def calculateIntermediateBlockState_def res_bind_ret_iff Header_Bytes_def
      UpdateRecentBlocks_eq set_last_root_twice last_set_last_root)

lemma core_authorizers_total:
  assumes "length auths \<le> MaxAuthorizersPerCore"
  shows "\<exists>auths'. core_authorizers header gs pending c auths = Some auths' \<and> length auths' \<le> MaxAuthorizersPerCore"
proof -
  have "length (foldl (\<lambda>auths g. removeAuthorizer auths (AuthorizerHash (g_WorkReport g))) auths own) \<le> length auths" for own
  proof (induction own arbitrary: auths)
    case (Cons g own)
    have "length (removeAuthorizer auths h) \<le> length auths" for h by (simp add: removeAuthorizer_def length_remove1)
    then show ?case using Cons [of "removeAuthorizer auths (AuthorizerHash (g_WorkReport g))"] by (simp add: le_trans)
  qed simp
  from this [of "filter (\<lambda>g. unat (CoreIndex (g_WorkReport g)) = c) gs"] show ?thesis
    using assms by (auto simp: core_authorizers_def appendAuthorizerLimited_def Let_def MaxAuthorizersPerCore_def)
qed

lemma CalculateNewCoreAuthorizations_total:
  assumes "length ps = TotalNumberOfCores" "\<forall>p \<in> set ps. length p \<le> MaxAuthorizersPerCore"
  shows "\<exists>ps'. CalculateNewCoreAuthorizations header gs pending ps = Some ps' \<and> length ps' = TotalNumberOfCores \<and>
    (\<forall>p \<in> set ps'. length p \<le> MaxAuthorizersPerCore)"
proof -
  define f where "f c = the (core_authorizers header gs pending c (ps ! c))" for c
  have f: "core_authorizers header gs pending c (ps ! c) = Some (f c)" "length (f c) \<le> MaxAuthorizersPerCore" if "c < TotalNumberOfCores" for c
    using core_authorizers_total [of "ps ! c" header gs pending c] assms that by (auto simp: f_def)
  then have "CalculateNewCoreAuthorizations header gs pending ps = Some (map f [0..<TotalNumberOfCores])"
    by (simp add: CalculateNewCoreAuthorizations_def those_nth)
  then show ?thesis using f(2) by auto
qed

lemma assigned_length:
  assumes "CalculateNewCoreAssignments check HashData gs cas vs now pool = ret (cas', rs)"
  shows "length cas' = length cas"
proof -
  have "length (fst (cas', rs)) = length cas"
    using assms unfolding CalculateNewCoreAssignments_def
  proof (rule res_fold_invariant [where I = "\<lambda>s. length (fst s) = length cas"])
    fix g s s' assume "length (fst s) = length cas" "assign_guarantee check HashData cas vs now pool g s = ret s'"
    then show "length (fst s') = length cas"
      using assign_guarantee_result [of check HashData cas vs now pool g "fst s" "snd s" "fst s'" "snd s'"] by auto
  qed simp
  then show ?thesis by simp
qed

lemma safrole_pool:
  assumes "UpdateSafroleState lib HashData inp pre pool st = ret (pool', st', out)" "length pool = 4"
  shows "pre < TimeSlot inp" "length pool' = 4"
proof -
  show "pre < TimeSlot inp" using assms(1) by (simp add: UpdateSafroleState_def not_le split: if_splits)
  have "pool' = calculateNewEntropyPool HashData pre (TimeSlot inp) (si_Entropy inp) pool"
    using assms(1) by (auto simp: UpdateSafroleState_def Let_def res_bind_ret_iff split: if_splits option.splits)
  then show "length pool' = 4" by (simp add: new_entropy_pool [OF assms(2)])
qed

lemma safrole_input_slot: "NewSafroleInputFromBlock lib b = ret inp \<Longrightarrow> TimeSlot inp = TimeSlotIndex (blk_Header b)"
  by (cases inp) (auto simp: NewSafroleInputFromBlock_def res_bind_ret_iff)

lemma accumulation_shape:
  assumes "CalculateWorkReportsAndAccumulate HashData schedule order header s now ws hp = done_with (acc, hp')"
  shows "length (newAccumulationQueue acc) = TimeslotsPerEpoch"
    "length (newAccumulationHistory acc) = length (AccumulationHistory s) - 1 + 1"
  using assms by (auto simp: CalculateWorkReportsAndAccumulate_def Let_def run_bind_done_iff length_new_queue split: prod.splits)

lemma statistics_shape:
  "CalculateNewValidatorStatistics b (TimeSlotIndex (blk_Header b)) stats rs vs =
   (fst stats, map (\<lambda>v. count_validator b rs vs v (snd stats ! v)) [0..<length (fst stats)])"
  by (simp add: CalculateNewValidatorStatistics_def)

section \<open>Blocks without work\<close>

lemma idle_transfers:
  "run_fold (deliver_transfer HashData services []) is (post, hp) =
   done_with (foldl (\<lambda>post i. AList.update i (case service_of hp services i of None \<Rightarrow> ServiceAccount_zero | Some a \<Rightarrow> a) post) post is, hp)"
  by (induction "is" arbitrary: post)
    (simp_all add: deliver_transfer_def InvokePVMOnTransfer_def transfersForReceiver_def Let_def split: option.splits)

lemma idle_accumulation:
  "\<exists>acc hp'. CalculateWorkReportsAndAccumulate HashData schedule order header s now [] hp = done_with (acc, hp') \<and> hashPairs acc = [] \<and>
     newPendingAuthorizersQueues acc = st_PendingAuthorizersQueues s \<and> newPrivilegedServices acc = st_PrivilegedServices s \<and>
     newValidatorKeys acc = QueuedValidators (st_ValidatorState s) \<and>
     go_map (states hp') (postAccumulationServiceState acc) =
       foldl (\<lambda>post i. AList.update i (case service_of hp (Services s) i of None \<Rightarrow> ServiceAccount_zero | Some a \<Rightarrow> a) post) []
         (order (map fst (go_map (states hp) (Services s))))"
  by (simp add: CalculateWorkReportsAndAccumulate_def accumulatable_reports_def accumulationPriority_empty SequentialDelta.simps
      idle_transfers go_map_def Let_def)

lemma update_all:
  "map_of (foldl (\<lambda>post i. AList.update i (f i) post) m is) = (\<lambda>i. if i \<in> set is then Some (f i) else map_of m i)"
  by (induction "is" arbitrary: m) (auto simp: update_conv' fun_eq_iff)

lemma copied_dictionary:
  "(\<lambda>i. if i \<in> fst ` set d then Some (case map_of d i of None \<Rightarrow> z | Some a \<Rightarrow> a) else map_of [] i) = map_of d"
proof (rule ext)
  fix i
  show "(if i \<in> fst ` set d then Some (case map_of d i of None \<Rightarrow> z | Some a \<Rightarrow> a) else map_of [] i) = map_of d i"
    using map_of_eq_None_iff [of d i] by (cases "map_of d i") simp_all
qed

lemma no_disputes: "CalculateNewJudgements check now \<lparr>Verdicts = [], Culprits = [], Faults = []\<rparr> j vs = ret (copyJudgements j)"
  by (simp add: CalculateNewJudgements_def verifySortedUnique_def verifyAllSignatures_def verifyNotAlreadyOffending_def
      verifyNotAlreadyJudged_def verifyFaults_def processVerdicts_def processCulprits_def verifyCulprits_def require_def Let_def)

lemma idle_guarantees: "ValidateExtrinsicGuarantees HashData KeccakData Sum256 P hp header s [] cas now chain = ret ()"
  by (simp add: ValidateExtrinsicGuarantees_def isGuaranteesSortedByCoreIndex_def require_def Let_def)

lemma idle_assurances:
  assumes "length cas = TotalNumberOfCores" "\<forall>a \<in> set cas. a = None"
  shows "\<exists>removed. CalculateIntermediateCoreFromAssurances check HashData vs cas header [] = ret (cas, removed)"
proof -
  have "res_map (core_availability [] (TimeSlotIndex header)) (zip [0..<TotalNumberOfCores] cas) =
      ret (replicate TotalNumberOfCores 0)"
    using availability_counts [OF assms(1), of "[]"] by (auto simp: assured_def intro: nth_equalityI)
  moreover have n: "cas ! i = None" if "i < TotalNumberOfCores" for i using assms that by (metis nth_mem)
  moreover have "map fst (map (\<lambda>(n, a). update_core t n a) (zip (replicate TotalNumberOfCores 0) cas)) = cas" for t
    using assms(1) n by (intro nth_equalityI) (simp_all add: update_core_eq(1))
  ultimately show ?thesis
    by (simp add: CalculateIntermediateCoreFromAssurances_def validateAssurancesSignature_def assuranceIsOrderedByValidatorIndex_def
        CalculateIntermediateCoreAssignmentsFromAvailability_def Let_def)
qed

lemma idle_reports: "\<forall>a \<in> set cas. a = None \<Longrightarrow> GetAvailableWorkReports cas = Some []"
proof -
  assume "\<forall>a \<in> set cas. a = None"
  then have "List.map_filter id cas = []" by (auto simp: map_filter_def filter_empty_conv)
  then show ?thesis by (simp add: GetAvailableWorkReports_def)
qed

lemma idle_recent_blocks:
  assumes "wf_header header"
  shows "\<exists>bs. calculateNewRecentBlocks sortSlice HashData KeccakData header gs blocks [] = ret bs"
proof -
  obtain bytes where "marshal (stack_depth Header_type) Header_type (Header_value header) = ret bytes"
    using jam.encode_decode [OF encodable_header [OF assms]] by blast
  then show ?thesis by (simp add: calculateNewRecentBlocks_def computeAccumulationRoot_def Marshal_def lift_jam_def)
qed

definition idle_block :: "Block \<Rightarrow> bool" where
  "idle_block b \<longleftrightarrow> wf_header (blk_Header b) \<and> ET (blk_Extrinsic b) = [] \<and> EG (blk_Extrinsic b) = [] \<and> EA (blk_Extrinsic b) = [] \<and>
     ED (blk_Extrinsic b) = \<lparr>Verdicts = [], Culprits = [], Faults = []\<rparr>"

lemma idle_block_accepted:
  assumes "\<And>x. length (lib_HashData L x) = 32" "rings_available (lib_vrf L)" "ietfVrfOutputHash (lib_vrf L) (VRFSignature (blk_Header b)) = Some y"
    and "\<And>is. set (lib_order L is) = set is"
    and "state_ok s" "safrole_ok (st_ValidatorState s)" "\<forall>a \<in> set (st_CoreAssignments s). a = None"
    and "idle_block b" "TimeslotIndex s < TimeSlotIndex (blk_Header b)" "TimeSlotIndex (blk_Header b) \<le> CurrentTimeslot (lib_now L)"
  shows "\<exists>s' hp'. UpdateState L s b chain hp = done_with (Inr s', hp') \<and> service_of hp' (Services s') = service_of hp (Services s)"
proof -
  let ?h = "blk_Header b" and ?H = "lib_HashData L"
  let ?inp = "\<lparr>TimeSlot = TimeSlotIndex ?h, Tickets = [], si_Entropy = y, Offenders = OffendersMarkers ?h\<rparr>"
  note idle = assms(8) [unfolded idle_block_def]
  have inp: "NewSafroleInputFromBlock (lib_vrf L) b = ret ?inp"
    using idle assms(3) by (simp add: NewSafroleInputFromBlock_def OutputHash_def lift_err_def)
  have "\<forall>k \<in> set (OffendersMarkers ?h). length k = 32" using idle by (simp add: wf_header_def hashes_ok_def)
  then obtain po va out where saf: "UpdateSafroleState (lib_vrf L) ?H ?inp (TimeslotIndex s) (st_EntropyPool s) (st_ValidatorState s) = ret (po, va, out)"
    using Safrole_advances [of ?H "lib_vrf L" "st_ValidatorState s" ?inp] assms(1,2,6,9) by fastforce
  obtain re where wa: "CalculateIntermediateCoreFromAssurances (lib_ed25519 L) ?H (CurrentValidators va) (st_CoreAssignments s) ?h [] =
      ret (st_CoreAssignments s, re)"
    using idle_assurances assms(5,7) by (metis state_ok_def)
  obtain acc hp' where acc: "CalculateWorkReportsAndAccumulate ?H (lib_schedule L) (lib_order L) ?h s (TimeSlotIndex ?h) [] hp = done_with (acc, hp')"
    "hashPairs acc = []"
    "go_map (states hp') (postAccumulationServiceState acc) =
       foldl (\<lambda>post i. AList.update i (case service_of hp (Services s) i of None \<Rightarrow> ServiceAccount_zero | Some a \<Rightarrow> a) post) []
         (lib_order L (map fst (go_map (states hp) (Services s))))"
    using idle_accumulation by blast
  obtain hi where hi: "calculateNewRecentBlocks (lib_sortSlice L) ?H (lib_KeccakData L) ?h [] (calculateIntermediateBlockState ?h (RecentBlocks s)) [] = ret hi"
    using idle_recent_blocks idle by blast
  obtain au where au: "CalculateNewCoreAuthorizations ?h [] (newPendingAuthorizersQueues acc) (CoreAuthorizersPool s) = Some au"
    using CalculateNewCoreAuthorizations_total assms(5) by (metis state_ok_def)
  let ?x = "\<lparr>tr_cleared = st_CoreAssignments s, tr_safroleInput = ?inp, tr_pool = po, tr_validators = va, tr_waiting = st_CoreAssignments s,
    tr_assigned = st_CoreAssignments s, tr_reporting = {}, tr_reports = [], tr_accumulation = acc, tr_history = hi,
    tr_judgements = copyJudgements (PastJudgements s), tr_authorizers = au\<rparr>"
  have "transition_steps L s b chain hp hp' ?x"
    using idle inp saf wa acc(1,2) hi au assms(7,10)
    by (simp add: transition_steps_def Let_def idle_guarantees no_disputes idle_reports IsInFuture_def
        CalculateIntermediateCoreAssignmentsFromExtrinsics_def CalculateNewCoreAssignments_def)
  then have "UpdateState L s b chain hp = done_with (Inr (next_state s b ?x), hp')" using UpdateState_steps by blast
  moreover have "service_of hp' (Services (next_state s b ?x)) = service_of hp (Services s)"
    using acc(3) assms(4) [of "map fst (go_map (states hp) (Services s))"]
    by (simp add: next_state_def service_of_def update_all copied_dictionary)
  ultimately show ?thesis by blast
qed

section \<open>Preimages and helpers\<close>

text \<open>
  A solicited preimage of an account with maps is found in the new dictionary, and in the one that was
  handed in, whose account shares the maps.
\<close>

lemma preimage_integrated:
  assumes "CalculateIntermediateServiceState HashData [p] (Some c) now hp = Some (services, hp')"
    and "c < fresh hp" "service_of hp (Some c) (ServiceIndex p) = Some account"
    and "PreimageLookup account = Some l" "PreimageMeta account = Some m"
    and "preimageHasBeenSolicited hp (Some c) (ServiceIndex p) (HashData (pre_Data p)) (length (pre_Data p))"
  shows "service_of hp' services (ServiceIndex p) = Some account" "service_of hp' (Some c) (ServiceIndex p) = Some account"
    "map_of (go_map (blobs hp') (PreimageLookup account)) (HashData (pre_Data p)) = Some (pre_Data p)"
    "map_of (go_map (metas hp') (PreimageMeta account)) (PreimageKey (HashData (pre_Data p)) (length (pre_Data p))) = Some [now]"
    "\<not> preimageHasBeenSolicited hp' (Some c) (ServiceIndex p) (HashData (pre_Data p)) (length (pre_Data p))"
proof -
  have "preimageHasBeenSolicited (hp\<lparr>states := (states hp)(fresh hp := states hp c), fresh := fresh hp + 1\<rparr>) (Some c)
      (ServiceIndex p) (HashData (pre_Data p)) (length (pre_Data p))"
    using assms(2,3,6) by (simp add: preimageHasBeenSolicited_def service_of_def go_map_def Let_def)
  then have s: "services = Some (fresh hp)"
    "blobs hp' = (blobs hp)(l := AList.update (HashData (pre_Data p)) (pre_Data p) (blobs hp l))"
    "metas hp' = (metas hp)(m := AList.update (PreimageKey (HashData (pre_Data p)) (length (pre_Data p))) [now] (metas hp m))"
    "states hp' = (states hp)(fresh hp := AList.update (ServiceIndex p) (account\<lparr>PreimageLookup := Some l, PreimageMeta := Some m\<rparr>) (states hp c))"
    using assms(1-5)
    by (auto simp: CalculateIntermediateServiceState_def clone_services_def integrate_preimage_def own_lookup_def own_meta_def
        service_of_def go_map_def go_assign_def Let_def)
  have "account\<lparr>PreimageLookup := Some l, PreimageMeta := Some m\<rparr> = account" using assms(4,5) by simp
  then show k: "service_of hp' (Some c) (ServiceIndex p) = Some account" "service_of hp' services (ServiceIndex p) = Some account"
    using s assms(2,3) by (simp_all add: service_of_def go_map_def update_conv')
  show "map_of (go_map (blobs hp') (PreimageLookup account)) (HashData (pre_Data p)) = Some (pre_Data p)"
    "map_of (go_map (metas hp') (PreimageMeta account)) (PreimageKey (HashData (pre_Data p)) (length (pre_Data p))) = Some [now]"
    "\<not> preimageHasBeenSolicited hp' (Some c) (ServiceIndex p) (HashData (pre_Data p)) (length (pre_Data p))"
    using s assms(4,5) k(1) by (simp_all add: go_map_def update_conv' preimageHasBeenSolicited_def)
qed

lemma determineServicesToAccumulate_result:
  "None \<in> set assignments \<Longrightarrow> determineServicesToAccumulate assignments gas = None"
  "determineServicesToAccumulate assignments gas = Some is \<Longrightarrow> sorted is \<and> distinct is \<and> fst ` set gas \<subseteq> set is"
proof -
  have "those (map (map_option f) as) = None" if "None \<in> set as" for f :: "Assignment \<Rightarrow> WorkResult list" and as
    using that by (induction as) (auto split: option.splits)
  then show "None \<in> set assignments \<Longrightarrow> determineServicesToAccumulate assignments gas = None"
    by (simp add: determineServicesToAccumulate_def assigned_results_def)
  show "determineServicesToAccumulate assignments gas = Some is \<Longrightarrow> sorted is \<and> distinct is \<and> fst ` set gas \<subseteq> set is"
    unfolding determineServicesToAccumulate_def by (cases "assigned_results assignments") force+
qed

lemma addUnique_result:
  "set (addUniqueHash hs h) = insert h (set hs)" "distinct hs \<Longrightarrow> distinct (addUniqueHash hs h)"
  "set (addUniqueEdPubKey ks k) = insert k (set ks)" "distinct ks \<Longrightarrow> distinct (addUniqueEdPubKey ks k)"
  by (auto simp: addUniqueHash_def addUniqueEdPubKey_def list_ex_iff)

section \<open>An example\<close>

definition demo_libraries :: "(bytes \<times> bytes) list Libraries" where
  "demo_libraries = \<lparr>lib_ed25519 = any_signature, lib_vrf = demo_lib, lib_HashData = (\<lambda>x. zero_octets 32), lib_KeccakData = (\<lambda>x. zero_octets 32),
     lib_Sum256 = (\<lambda>x. zero_octets 32), lib_pebble = memory_db, lib_now = time_Unix 1704110460, lib_schedule = id, lib_order = id,
     lib_sortSlice = sort_key fst\<rparr>"

definition demo_next :: Block where
  "demo_next = Block_zero\<lparr>blk_Header := Header_zero\<lparr>TimeSlotIndex := 5\<rparr>\<rparr>"

lemma demo_chain_ok: "state_ok demo_chain"
  by (simp add: state_ok_def demo_chain_def MaxAuthorizersPerCore_def)

lemma demo_chain_safrole: "safrole_ok (st_ValidatorState demo_chain)"
  by (auto simp: safrole_ok_def demo_chain_def tickets_ok_def validators_ok_def demo_key_def nullified_key_def zero_octets_def)

lemma demo_next_idle: "idle_block demo_next"
  using Block_zero_wf by (simp add: idle_block_def demo_next_def wf_block_def wf_header_def Block_zero_def)

lemma demo_rings: "rings_available demo_lib"
  by (simp add: rings_available_def demo_lib_def)

lemma demo_now: "TimeSlotIndex (blk_Header demo_next) \<le> CurrentTimeslot (lib_now demo_libraries)"
  by (simp add: demo_next_def demo_libraries_def) code_simp

lemma demo_block_accepted: "\<exists>s' hp'. UpdateState demo_libraries demo_chain demo_next empty_chain empty_heap = done_with (Inr s', hp')"
proof -
  have "ietfVrfOutputHash (lib_vrf demo_libraries) (VRFSignature (blk_Header demo_next)) = Some (zero_octets 32)"
    by (simp add: demo_libraries_def demo_lib_def demo_next_def Header_zero_def zero_octets_def)
  from idle_block_accepted [OF _ _ this _ demo_chain_ok demo_chain_safrole _ demo_next_idle _ demo_now] show ?thesis
    using demo_rings by (fastforce simp: demo_libraries_def demo_chain_def demo_next_def zero_octets_def)
qed

section \<open>Properties\<close>



text \<open>
  C15: \<^bold>\<open>The history of recent blocks.\<close> An accepted block is appended to the recent blocks under the hash of
  its encoded header, with the packages of its guarantees, a zero state root and a mountain range that extends
  that of the block before; the block before receives its state root from the header; and beyond
  eight blocks the oldest is forgotten.
\<close>

theorem recent_history:
  assumes "UpdateState L s b chain hp = done_with (Inr s', hp')" "length (RecentBlocks s) \<le> MaxRecentBlocks"
  shows "\<exists>headerBytes root. Header_Bytes (blk_Header b) = ret headerBytes \<and>
    RecentBlocks s' = drop (length (RecentBlocks s) - 7) (set_last_root (PriorStateRoot (blk_Header b)) (RecentBlocks s)) @
      [\<lparr>bs_HeaderHash = lib_HashData L headerBytes, StateRoot = zero_hash,
        AccumulationResultMMR = Append (if RecentBlocks s = [] then [] else AccumulationResultMMR (last (RecentBlocks s))) root (lib_KeccakData L),
        WorkReportHashes = buildWorkPackageMapping (EG (blk_Extrinsic b))\<rparr>]"
proof -
  obtain x where x: "transition_steps L s b chain hp hp' x" "s' = next_state s b x"
    using assms(1) UpdateState_steps by blast
  then show ?thesis
    using new_recent_blocks [OF _ assms(2)] by (fastforce simp: transition_steps_def Let_def next_state_def)
qed

theorem recent_history_witness:
  "\<exists>s' hp'. UpdateState demo_libraries demo_chain demo_next empty_chain empty_heap = done_with (Inr s', hp') \<and>
     map bs_HeaderHash (RecentBlocks s') = [zero_octets 32]"
proof -
  obtain s' hp' where u: "UpdateState demo_libraries demo_chain demo_next empty_chain empty_heap = done_with (Inr s', hp')"
    using demo_block_accepted by blast
  from recent_history [OF this] show ?thesis using u by (auto simp: demo_chain_def demo_libraries_def set_last_root_def)
qed







text \<open>
  C40: \<^bold>\<open>Parts of the state never change.\<close> No block changes the queues of pending authorizers, although accumulation computes
  new ones, nor the statistics of the last epoch: the transition compares the epoch of the block with itself.
\<close>

theorem stale_parts:
  assumes "UpdateState L s b chain hp = done_with (Inr s', hp')"
  shows "st_PendingAuthorizersQueues s' = st_PendingAuthorizersQueues s \<and> fst (st_ValidatorStatistics s') = fst (st_ValidatorStatistics s)"
  using assms unfolding UpdateState_steps by (auto simp: next_state_def statistics_shape)

theorem stale_parts_witness:
  "\<exists>s' hp'. UpdateState demo_libraries demo_chain demo_next empty_chain empty_heap = done_with (Inr s', hp') \<and>
     fst (st_ValidatorStatistics s') = replicate NumberOfValidators ValidatorStatistics_zero"
proof -
  obtain s' hp' where u: "UpdateState demo_libraries demo_chain demo_next empty_chain empty_heap = done_with (Inr s', hp')"
    using demo_block_accepted by blast
  from stale_parts [OF this] show ?thesis using u by (auto simp: demo_chain_def)
qed

end
