(* ===== verification/State_Trie.thy ===== *)
theory State_Trie
  imports Service_Accounts "HOL-Library.Multiset"
begin

text \<open>
  The Patricia-Merkle trie of the state (\<^verbatim>\<open>internal/merkle/trie\<close>): the encoding of its nodes, the
  root of a set of entries, and the database that keeps the nodes.
\<close>

section \<open>Nodes\<close>

text \<open>
  A node is an array of 64 octets, a key one of 32; a list of another length is not a value of
  these types.
\<close>

type_synonym Node = bytes
type_synonym StateKey = bytes

datatype trie_error =
    ErrNotLeafNode | ErrNotBranchNode | ErrNotEmbeddedLeaf | ErrEmbeddedLeafInsteadOfRegular

definition LeafNodeFlag :: u8 where "LeafNodeFlag = 128"
definition NotEmbeddedLeafFlag :: u8 where "NotEmbeddedLeafFlag = 64"
definition ValueSizeMask :: u8 where "ValueSizeMask = 63"
definition EmbeddedValueMaxSize :: nat where "EmbeddedValueMaxSize = 32"

definition EncodeBranchNode :: "Hash \<Rightarrow> Hash \<Rightarrow> Node" where
  "EncodeBranchNode left right =
     [left ! 0 AND 127] @ go_copy (replicate 31 0) (drop 1 left) @ go_copy (replicate 32 0) right"

definition EncodeLeafNode :: "(bytes \<Rightarrow> Hash) \<Rightarrow> StateKey \<Rightarrow> bytes \<Rightarrow> Node" where
  "EncodeLeafNode HashData key v =
     (if length v \<le> EmbeddedValueMaxSize then
        [LeafNodeFlag OR of_nat (length v)] @ go_copy (replicate 31 0) (take 31 key) @ go_copy (replicate 32 0) v
      else
        [LeafNodeFlag OR NotEmbeddedLeafFlag] @ go_copy (replicate 31 0) (take 31 key) @
          go_copy (replicate 32 0) (HashData v))"

definition IsLeaf :: "Node \<Rightarrow> bool" where
  "IsLeaf n \<longleftrightarrow> n ! 0 AND LeafNodeFlag \<noteq> 0"

definition IsBranch :: "Node \<Rightarrow> bool" where
  "IsBranch n \<longleftrightarrow> n ! 0 AND LeafNodeFlag = 0"

definition IsEmbeddedLeaf :: "Node \<Rightarrow> bool" where
  "IsEmbeddedLeaf n \<longleftrightarrow> IsLeaf n \<and> n ! 0 AND NotEmbeddedLeafFlag = 0"

definition GetEmbeddedValueSize :: "Node \<Rightarrow> trie_error + nat" where
  "GetEmbeddedValueSize n =
     (if \<not> IsEmbeddedLeaf n then Inl ErrNotEmbeddedLeaf else Inr (unat (n ! 0 AND ValueSizeMask)))"

definition GetBranchHashes :: "Node \<Rightarrow> trie_error + Hash \<times> Hash" where
  "GetBranchHashes n =
     (if \<not> IsBranch n then Inl ErrNotBranchNode
      else
        let left = go_copy (replicate 32 0) (take 31 (drop 1 n));
            right = go_copy (replicate 32 0) (drop 32 n)
        in Inr (left, right))"

definition GetLeafKey :: "Node \<Rightarrow> trie_error + StateKey" where
  "GetLeafKey n =
     (if \<not> IsLeaf n then Inl ErrNotLeafNode else Inr (go_copy (replicate 32 0) (take 31 (drop 1 n))))"

text \<open>The slice of the value is out of range, \<open>None\<close>, for a size above 32.\<close>

definition GetLeafValue :: "Node \<Rightarrow> (trie_error + bytes) option" where
  "GetLeafValue n =
     res_bind (Some (GetEmbeddedValueSize n)) (\<lambda>size.
       case go_slice n 32 (32 + size) of
         None \<Rightarrow> None
       | Some v \<Rightarrow> ret (go_copy (replicate size 0) v))"

definition GetLeafValueHash :: "Node \<Rightarrow> trie_error + Hash" where
  "GetLeafValueHash n =
     (if \<not> IsLeaf n then Inl ErrNotLeafNode
      else if IsEmbeddedLeaf n then Inl ErrEmbeddedLeafInsteadOfRegular
      else Inr (go_copy (replicate 32 0) (drop 32 n)))"

section \<open>Roots\<close>

text \<open>
  \<open>trie_bit\<close> is \<open>None\<close>, the panic, beyond the key. The function that stores a node may be nil; it
  changes the state of the batch or fails.
\<close>

definition trie_bit :: "bytes \<Rightarrow> nat \<Rightarrow> bool option" where
  "trie_bit k i = map_option (\<lambda>b. b AND shl 1 (7 - i mod 8) \<noteq> 0) (go_index k (i div 8))"

fun split_keys :: "nat \<Rightarrow> (bytes \<times> bytes) list \<Rightarrow> ((bytes \<times> bytes) list \<times> (bytes \<times> bytes) list) option" where
  "split_keys i [] = Some ([], [])"
| "split_keys i (kv # kvs) =
     (case trie_bit (fst kv) i of
        None \<Rightarrow> None
      | Some b \<Rightarrow> map_option (\<lambda>(l, r). if b then (l, kv # r) else (kv # l, r)) (split_keys i kvs))"

type_synonym ('s, 'e) store_node = "(Hash \<Rightarrow> Node \<Rightarrow> 's \<Rightarrow> 'e + 's) option"

definition store_node :: "('s, 'e) store_node \<Rightarrow> Hash \<Rightarrow> Node \<Rightarrow> 's \<Rightarrow> ('e + Hash \<times> 's) option" where
  "store_node storeNode hash node st =
     (case storeNode of
        None \<Rightarrow> ret (hash, st)
      | Some f \<Rightarrow> (case f hash node st of Inl err \<Rightarrow> raise err | Inr st \<Rightarrow> ret (hash, st)))"

definition longest_key :: "(bytes \<times> bytes) list \<Rightarrow> nat" where
  "longest_key kvs = foldr (\<lambda>kv. max (length (fst kv))) kvs 0"

lemma split_keys_longest:
  "split_keys i kvs = Some (l, r) \<Longrightarrow>
     longest_key l \<le> longest_key kvs \<and> longest_key r \<le> longest_key kvs \<and> (kvs \<noteq> [] \<longrightarrow> i < 8 * longest_key kvs)"
proof (induction kvs arbitrary: l r)
  case (Cons kv kvs)
  then obtain b l' r' where "trie_bit (fst kv) i = Some b" "split_keys i kvs = Some (l', r')"
    "(l, r) = (if b then (l', kv # r') else (kv # l', r'))"
    by (auto split: option.splits if_splits)
  moreover from this have "i div 8 < length (fst kv)" by (auto simp: trie_bit_def go_index_def split: if_splits)
  then have "i < 8 * length (fst kv)" by simp
  ultimately show ?case using Cons.IH [of l' r'] by (auto simp: longest_key_def split: if_splits)
qed (simp add: longest_key_def)

function Merklize ::
  "(bytes \<Rightarrow> Hash) \<Rightarrow> (bytes \<times> bytes) list \<Rightarrow> nat \<Rightarrow> ('s, 'e) store_node \<Rightarrow> 's \<Rightarrow> ('e + Hash \<times> 's) option" where
  "Merklize HashData keyValues i storeNode st =
     (if keyValues = [] then ret (replicate 32 0, st)
      else if length keyValues = 1 then
        let (key, v) = keyValues ! 0;
            stateKey = go_copy (replicate 32 0) key;
            leafNode = EncodeLeafNode HashData stateKey v;
            hash = HashData leafNode
        in store_node storeNode hash leafNode st
      else case split_keys i keyValues of
        None \<Rightarrow> None
      | Some (leftKVs, rightKVs) \<Rightarrow>
          res_bind (Merklize HashData leftKVs (i + 1) storeNode st) (\<lambda>(leftHash, st).
          res_bind (Merklize HashData rightKVs (i + 1) storeNode st) (\<lambda>(rightHash, st).
            let branchNode = EncodeBranchNode leftHash rightHash;
                hash = HashData branchNode
            in store_node storeNode hash branchNode st)))"
  by pat_completeness auto
termination
proof (relation "measure (\<lambda>(H, kvs, i, f, st). 8 * longest_key kvs - i)", goal_cases)
  case 1
  show ?case by simp
next
  case (2 H kvs i f st lr l r)
  then show ?case using split_keys_longest [of i kvs l r] by auto
next
  case (3 H kvs i f st lr l r x h st')
  then show ?case using split_keys_longest [of i kvs l r] by auto
qed

declare Merklize.simps [simp del]

section \<open>The database\<close>

text \<open>
  The store is behind the interface \<^verbatim>\<open>db.KVStore\<close>, whose operations are arguments: an empty batch,
  the entry of a key in a batch, the commit and the closing of a batch, reading. An error of
  \<^verbatim>\<open>Close\<close> is a panic.
\<close>

record ('s, 'b, 'e) KVStore =
  NewBatch :: "'s \<Rightarrow> 'b"
  batch_Put :: "bytes \<Rightarrow> bytes \<Rightarrow> 'b \<Rightarrow> 'e + 'b"
  batch_Commit :: "'b \<Rightarrow> 's \<Rightarrow> 'e + 's"
  batch_Close :: "'b \<Rightarrow> 'e option"
  kv_Get :: "'s \<Rightarrow> bytes \<Rightarrow> 'e + bytes"

record 's DB =
  db_store :: 's
  db_root :: Hash

definition MerklizeAndCommit ::
  "(bytes \<Rightarrow> Hash) \<Rightarrow> ('s, 'b, 'e) KVStore \<Rightarrow> (bytes \<times> bytes) list \<Rightarrow> 's DB \<Rightarrow> ('e + Hash) option \<times> 's DB" where
  "MerklizeAndCommit HashData kv pairs s =
     (let batch = NewBatch kv (db_store s) in
      case Merklize HashData pairs 0 (Some (\<lambda>hash node b. batch_Put kv hash node b)) batch of
        None \<Rightarrow> (None, s)
      | Some (Inl err) \<Rightarrow> (if batch_Close kv batch = None then raise err else None, s)
      | Some (Inr (root, b)) \<Rightarrow>
          (case batch_Commit kv b (db_store s) of
             Inl err \<Rightarrow> (if batch_Close kv b = None then raise err else None, s)
           | Inr st \<Rightarrow>
               (if batch_Close kv b = None then ret root else None, s\<lparr>db_store := st, db_root := root\<rparr>)))"

definition DB_Get :: "('s, 'b, 'e) KVStore \<Rightarrow> 's DB \<Rightarrow> Hash \<Rightarrow> ('e + Node) option" where
  "DB_Get kv s hash =
     (case kv_Get kv (db_store s) hash of
        Inl err \<Rightarrow> raise err
      | Inr data \<Rightarrow> if length data < 64 then None else ret (take 64 data))"

definition DB_Root :: "'s DB \<Rightarrow> Hash" where
  "DB_Root s = db_root s"


section \<open>The order of the entries\<close>

lemma split_keys_filter:
  "split_keys i kvs =
     (if \<forall>kv \<in> set kvs. trie_bit (fst kv) i \<noteq> None
      then Some (filter (\<lambda>kv. trie_bit (fst kv) i = Some False) kvs, filter (\<lambda>kv. trie_bit (fst kv) i = Some True) kvs)
      else None)"
  by (induction kvs) (auto split: option.splits)

lemma Merklize_branch:
  assumes "2 \<le> length kvs" "split_keys i kvs = Some (l, r)"
  shows "Merklize H kvs i f st =
     res_bind (Merklize H l (i + 1) f st) (\<lambda>(lh, st). res_bind (Merklize H r (i + 1) f st) (\<lambda>(rh, st).
       store_node f (H (EncodeBranchNode lh rh)) (EncodeBranchNode lh rh) st))"
  using assms by (subst Merklize.simps) (auto simp: Let_def)

lemma Merklize_order:
  "mset kvs = mset kvs' \<Longrightarrow> Merklize H kvs i f st = Merklize H kvs' i f st"
proof (induction H kvs i f st arbitrary: kvs' rule: Merklize.induct)
  case (1 H kvs i f st)
  have set: "set kvs = set kvs'" and len: "length kvs = length kvs'"
    using mset_eq_setD [OF "1.prems"] mset_eq_length [OF "1.prems"] by simp_all
  show ?case
  proof (cases "length kvs \<le> 1")
    case True
    then have "kvs = kvs'"
      using "1.prems" len by (cases kvs; cases kvs') auto
    then show ?thesis by simp
  next
    case False
    then have ne: "kvs \<noteq> []" "length kvs \<noteq> 1" "kvs' \<noteq> []" "length kvs' \<noteq> 1" using len by auto
    define l :: "(bytes \<times> bytes) list \<Rightarrow> _" where "l = filter (\<lambda>kv. trie_bit (fst kv) i = Some False)"
    define r :: "(bytes \<times> bytes) list \<Rightarrow> _" where "r = filter (\<lambda>kv. trie_bit (fst kv) i = Some True)"
    show ?thesis
    proof (cases "\<forall>kv \<in> set kvs. trie_bit (fst kv) i \<noteq> None")
      case True
      then have sp: "split_keys i kvs = Some (l kvs, r kvs)" "split_keys i kvs' = Some (l kvs', r kvs')"
        using set by (simp_all add: split_keys_filter l_def r_def)
      have m: "mset (l kvs) = mset (l kvs')" "mset (r kvs) = mset (r kvs')"
        using "1.prems" by (simp_all add: l_def r_def)
      have left: "Merklize H (l kvs') (i + 1) f st = Merklize H (l kvs) (i + 1) f st"
        using "1.IH"(1) [OF ne(1,2) sp(1) refl m(1)] by simp
      have right: "Merklize H (r kvs') (i + 1) f s = Merklize H (r kvs) (i + 1) f s"
        if "Merklize H (l kvs) (i + 1) f st = ret (h, s)" for h s
        using "1.IH"(2) [OF ne(1,2) sp(1) refl that refl m(2)] by simp
      have two: "2 \<le> length kvs" "2 \<le> length kvs'" using \<open>\<not> length kvs \<le> 1\<close> len by simp_all
      show ?thesis
        unfolding Merklize_branch [OF two(1) sp(1)] Merklize_branch [OF two(2) sp(2)] left
        by (rule res_bind_cong [OF refl]) (use right in \<open>auto split: prod.split\<close>)
    next
      case False
      then have "split_keys i kvs = None" "split_keys i kvs' = None"
        unfolding split_keys_filter set by (simp_all only: if_False)
      then show ?thesis
        using ne by (simp add: Merklize.simps [of H kvs] Merklize.simps [of H kvs'])
    qed
  qed
qed

section \<open>Keys of 32 octets\<close>

lemma trie_bit_Some: "i div 8 < length k \<Longrightarrow> trie_bit k i = Some (bit (k ! (i div 8)) (7 - i mod 8))"
  by (simp add: trie_bit_def go_index_def and_exp_eq_0_iff_not_bit)

lemma keys_equal:
  assumes "length k = 32" "length k' = 32" "\<forall>j < 256. trie_bit k j = trie_bit k' j"
  shows "k = k'"
proof (rule nth_equalityI)
  show "length k = length k'" using assms by simp
  fix n
  assume n: "n < length k"
  show "k ! n = k' ! n"
  proof (rule bit_word_eqI)
    fix b
    assume "b < LENGTH(8)"
    then obtain c where c: "c < 8" "b = 7 - c" by (intro that [of "7 - b"]) auto
    have e: "8 * n + c < 256" "(8 * n + c) div 8 = n" "(8 * n + c) mod 8 = c"
      using n c assms(1) by simp_all
    have "trie_bit k (8 * n + c) = trie_bit k' (8 * n + c)" using assms(3) e(1) by blast
    then show "bit (k ! n) b = bit (k' ! n) b"
      using assms(1,2) n c(2) e by (simp add: trie_bit_Some)
  qed
qed

definition never_fails :: "('s, 'e) store_node \<Rightarrow> bool" where
  "never_fails f \<longleftrightarrow> (\<forall>h n st. \<exists>st'. store_node f h n st = ret (h, st'))"

lemma never_failsD: "never_fails f \<Longrightarrow> \<exists>st'. store_node f h n st = ret (h, st')"
  by (simp add: never_fails_def)

definition agree :: "nat \<Rightarrow> bytes set \<Rightarrow> bool" where
  "agree i ks \<longleftrightarrow> (\<forall>k \<in> ks. \<forall>k' \<in> ks. \<forall>j < i. trie_bit k j = trie_bit k' j)"

lemma agree_filter:
  assumes "agree i (fst ` set kvs)"
  shows "agree (Suc i) (fst ` set (filter (\<lambda>kv. trie_bit (fst kv) i = Some b) kvs))"
proof -
  have "trie_bit (fst kv) j = trie_bit (fst kv') j"
    if "kv \<in> set kvs" "kv' \<in> set kvs" "trie_bit (fst kv) i = Some b" "trie_bit (fst kv') i = Some b" "j < Suc i" for kv kv' j
  proof (cases "j = i")
    case True
    then show ?thesis using that(3,4) by simp
  next
    case False
    then have "j < i" using that(5) by simp
    then show ?thesis using that(1,2) assms unfolding agree_def by blast
  qed
  then show ?thesis unfolding agree_def set_filter by blast
qed

lemma distinct_by_bit:
  assumes "\<forall>kv \<in> set kvs. trie_bit (fst kv) i \<noteq> None"
  shows "distinct (map fst kvs) \<longleftrightarrow>
     distinct (map fst (filter (\<lambda>kv. trie_bit (fst kv) i = Some False) kvs)) \<and>
     distinct (map fst (filter (\<lambda>kv. trie_bit (fst kv) i = Some True) kvs))"
  using assms
proof (induction kvs)
  case (Cons kv kvs)
  have "fst kv \<in> fst ` set kvs \<longleftrightarrow> fst kv \<in> fst ` {x \<in> set kvs. trie_bit (fst x) i = trie_bit (fst kv) i}"
    by force
  moreover obtain b where "trie_bit (fst kv) i = Some b" using Cons.prems by auto
  ultimately show ?case using Cons.IH Cons.prems by (cases b) (simp_all, blast+)
qed simp

lemma Merklize_returns_iff:
  assumes "never_fails f" "\<forall>kv \<in> set kvs. length (fst kv) = 32" "agree i (fst ` set kvs)" "i \<le> 256"
  shows "(distinct (map fst kvs) \<longrightarrow> (\<exists>h st'. Merklize H kvs i f st = ret (h, st'))) \<and>
    (\<not> distinct (map fst kvs) \<longrightarrow> Merklize H kvs i f st = None)"
  using assms
proof (induction H kvs i f st rule: Merklize.induct)
  case (1 H kvs i f st)
  show ?case
  proof (cases "length kvs \<le> 1")
    case True
    then consider "kvs = []" | kv where "kvs = [kv]" by (cases kvs) auto
    then show ?thesis
      using "1.prems"(1) by cases (subst Merklize.simps, force simp: never_fails_def Let_def split: prod.split)+
  next
    case False
    then have ne: "kvs \<noteq> []" "length kvs \<noteq> 1" by auto
    show ?thesis
    proof (cases "i = 256")
      case True
      have "kvs ! 0 \<in> set kvs" "kvs ! 1 \<in> set kvs" using False by (auto intro!: nth_mem)
      then have "fst (kvs ! 0) = fst (kvs ! 1)"
        using "1.prems"(2,3) unfolding True agree_def by (intro keys_equal) blast+
      then have "\<not> distinct (map fst kvs)"
        using False ne(1) nth_eq_iff_index_eq [of "map fst kvs" 0 1] by auto
      moreover have "trie_bit (fst (kvs ! 0)) 256 = None"
        using "1.prems"(2) \<open>kvs ! 0 \<in> set kvs\<close> by (simp add: trie_bit_def go_index_def)
      then have "split_keys i kvs = None"
        using \<open>kvs ! 0 \<in> set kvs\<close> True by (auto simp: split_keys_filter)
      ultimately show ?thesis using ne by (simp add: Merklize.simps [of H kvs])
    next
      case False
      then have some: "\<forall>kv \<in> set kvs. trie_bit (fst kv) i \<noteq> None"
        using "1.prems"(2,4) by (simp add: trie_bit_Some)
      define l where "l = filter (\<lambda>kv. trie_bit (fst kv) i = Some False) kvs"
      define r where "r = filter (\<lambda>kv. trie_bit (fst kv) i = Some True) kvs"
      have sp: "split_keys i kvs = Some (l, r)" using some by (simp add: split_keys_filter l_def r_def)
      have d: "distinct (map fst kvs) \<longleftrightarrow> distinct (map fst l) \<and> distinct (map fst r)"
        unfolding l_def r_def by (rule distinct_by_bit [OF some])
      have "\<forall>kv \<in> set l. length (fst kv) = 32" "agree (i + 1) (fst ` set l)" "i + 1 \<le> 256"
        using "1.prems"(2,4) False agree_filter [OF "1.prems"(3)] by (simp_all add: l_def del: set_filter) simp
      note left = "1.IH"(1) [OF ne sp refl "1.prems"(1) this]
      have "\<forall>kv \<in> set r. length (fst kv) = 32" "agree (i + 1) (fst ` set r)" "i + 1 \<le> 256"
        using "1.prems"(2,4) False agree_filter [OF "1.prems"(3)] by (simp_all add: r_def del: set_filter) simp
      note right = "1.IH"(2) [OF ne sp refl _ refl "1.prems"(1) this]
      have two: "2 \<le> length kvs" using ne by (cases kvs) (auto simp: Suc_le_eq)
      show ?thesis
      proof (cases "distinct (map fst l)")
        case True
        then obtain h s where l: "Merklize H l (i + 1) f st = ret (h, s)" using left by blast
        show ?thesis
        proof (cases "distinct (map fst r)")
          case r: True
          then obtain h' s' where "Merklize H r (i + 1) f s = ret (h', s')" using right [OF l] by blast
          then show ?thesis
            using True r l never_failsD [OF "1.prems"(1)] unfolding Merklize_branch [OF two sp] d
            by (simp del: One_nat_def add_Suc_right) blast
        next
          case False
          then show ?thesis using l right [OF l] unfolding Merklize_branch [OF two sp] d by simp
        qed
      next
        case False
        then show ?thesis using left unfolding Merklize_branch [OF two sp] d by simp
      qed
    qed
  qed
qed

section \<open>The encoding of nodes\<close>

lemma flag_bits:
  assumes "n \<le> 32"
  shows "(128 OR of_nat n :: u8) AND 128 \<noteq> 0 \<and> (128 OR of_nat n :: u8) AND 64 = 0 \<and>
    unat ((128 OR of_nat n :: u8) AND 63) = n"
proof -
  have "list_all (\<lambda>m. (128 OR of_nat m :: u8) AND 128 \<noteq> 0 \<and> (128 OR of_nat m :: u8) AND 64 = 0 \<and>
      unat ((128 OR of_nat m :: u8) AND 63) = m) [0..<33]"
    by code_simp
  moreover have "n \<in> set [0..<33]" using assms by simp
  ultimately show ?thesis unfolding list_all_iff by blast
qed

lemma go_copy_zeros: "length x \<le> n \<Longrightarrow> go_copy (replicate n 0) x = x @ replicate (n - length x) 0"
  by (simp add: go_copy_def)

section \<open>Properties\<close>



text \<open>
  \<^bold>\<open>What a node gives back.\<close> A leaf gives back the first 31 octets of its key, a value of at most
  32 octets, and otherwise the hash of the value; each accessor refuses the other kinds of nodes. A
  branch gives back its right hash, but its left hash moved by one octet: \<^verbatim>\<open>GetBranchHashes\<close> copies
  the octets behind the first one to the front.
\<close>

theorem nodes_decode:
  assumes "\<And>x. length (HashData x) = 32" "length key = 32" "length l = 32" "length r = 32"
  shows "IsLeaf (EncodeLeafNode HashData key v) \<and> length (EncodeLeafNode HashData key v) = 64 \<and>
    GetLeafKey (EncodeLeafNode HashData key v) = Inr (take 31 key @ [0]) \<and>
    (length v \<le> 32 \<longrightarrow> GetLeafValue (EncodeLeafNode HashData key v) = ret v \<and>
       GetLeafValueHash (EncodeLeafNode HashData key v) = Inl ErrEmbeddedLeafInsteadOfRegular) \<and>
    (32 < length v \<longrightarrow> GetLeafValue (EncodeLeafNode HashData key v) = raise ErrNotEmbeddedLeaf \<and>
       GetLeafValueHash (EncodeLeafNode HashData key v) = Inr (HashData v)) \<and>
    IsBranch (EncodeBranchNode l r) \<and> length (EncodeBranchNode l r) = 64 \<and>
    GetBranchHashes (EncodeBranchNode l r) = Inr (tl l @ [0], r)"
proof -
  have leaf: "EncodeLeafNode HashData key v =
      (if length v \<le> 32 then (128 OR of_nat (length v)) # take 31 key @ v @ replicate (32 - length v) 0
       else 192 # take 31 key @ HashData v)"
    using assms(1,2) by (simp add: EncodeLeafNode_def LeafNodeFlag_def NotEmbeddedLeafFlag_def EmbeddedValueMaxSize_def go_copy_zeros)
  have branch: "EncodeBranchNode l r = (l ! 0 AND 127) # tl l @ r"
    using assms(3,4) by (simp add: EncodeBranchNode_def go_copy_zeros drop_Suc)
  have "(l ! 0 AND 127) AND 128 = 0" by (simp add: and.assoc)
  then have b: "IsBranch (EncodeBranchNode l r)" "length (EncodeBranchNode l r) = 64"
    "GetBranchHashes (EncodeBranchNode l r) = Inr (tl l @ [0], r)"
    using assms(3,4) by (simp_all add: branch IsBranch_def GetBranchHashes_def LeafNodeFlag_def go_copy_zeros)
  have l: "IsLeaf (EncodeLeafNode HashData key v)" "length (EncodeLeafNode HashData key v) = 64"
    "GetLeafKey (EncodeLeafNode HashData key v) = Inr (take 31 key @ [0])"
    using assms(1,2) flag_bits [of "length v"] by (auto simp: leaf IsLeaf_def LeafNodeFlag_def GetLeafKey_def go_copy_zeros)
  have v: "length v \<le> 32 \<longrightarrow> GetLeafValue (EncodeLeafNode HashData key v) = ret v \<and>
      GetLeafValueHash (EncodeLeafNode HashData key v) = Inl ErrEmbeddedLeafInsteadOfRegular"
    using assms(2) flag_bits [of "length v"]
    by (auto simp: leaf GetLeafValue_def GetLeafValueHash_def GetEmbeddedValueSize_def IsEmbeddedLeaf_def IsLeaf_def
        LeafNodeFlag_def NotEmbeddedLeafFlag_def ValueSizeMask_def go_slice_def go_copy_same_length)
  have "32 < length v \<longrightarrow> GetLeafValue (EncodeLeafNode HashData key v) = raise ErrNotEmbeddedLeaf \<and>
      GetLeafValueHash (EncodeLeafNode HashData key v) = Inr (HashData v)"
    using assms(1,2)
    by (auto simp: leaf GetLeafValue_def GetLeafValueHash_def GetEmbeddedValueSize_def IsEmbeddedLeaf_def IsLeaf_def
        LeafNodeFlag_def NotEmbeddedLeafFlag_def go_copy_same_length)
  with b l v show ?thesis by blast
qed

theorem nodes_decode_witness:
  "GetLeafValue (EncodeLeafNode (\<lambda>x. replicate 32 9) (replicate 32 1) [4, 5]) = ret [4, 5] \<and>
   GetBranchHashes (EncodeBranchNode (replicate 32 3) (replicate 32 7)) = Inr (replicate 31 3 @ [0], replicate 32 7)"
  using nodes_decode [of "\<lambda>x. replicate 32 9" "replicate 32 1" "replicate 32 3" "replicate 32 7" "[4, 5]"] by simp

end
