(* ===== verification/Block_Service.thy ===== *)
theory Block_Service
  imports Chain_Store
begin

text \<open>
  The view of the chain that a node keeps (\<^verbatim>\<open>internal/chain/service.go\<close>): known leaves, the latest finalized
  block, and what a new header does to them. The mutex makes each access to the fields atomic;
  logging is left out.
\<close>

section \<open>The service\<close>

record LatestFinalized =
  lf_Hash :: Hash
  lf_TimeSlotIndex :: Timeslot

record Leaf =
  leaf_Hash :: Hash
  leaf_TimeSlotIndex :: Timeslot

record 's BlockService =
  KnownLeaves :: "(Hash \<times> Timeslot) list"
  bs_LatestFinalized :: LatestFinalized
  bs_Store :: "'s Chain"

text \<open>The messages with the error that they wrap.\<close>

datatype service_error = NotDescendant | Failed string chain_error

definition failing :: "string \<Rightarrow> 'a chain_result \<Rightarrow> (service_error + 'a) option" where
  "failing m r = (case r of None \<Rightarrow> None | Some (Inl e) \<Rightarrow> raise (Failed m e) | Some (Inr x) \<Rightarrow> ret x)"

definition UpdateLatestFinalized :: "'s BlockService \<Rightarrow> Hash \<Rightarrow> Timeslot \<Rightarrow> 's BlockService" where
  "UpdateLatestFinalized bs hash slot = bs\<lparr>bs_LatestFinalized := \<lparr>lf_Hash = hash, lf_TimeSlotIndex = slot\<rparr>\<rparr>"

definition AddLeaf :: "'s BlockService \<Rightarrow> Hash \<Rightarrow> Timeslot \<Rightarrow> 's BlockService" where
  "AddLeaf bs hash slot = bs\<lparr>KnownLeaves := AList.update hash slot (KnownLeaves bs)\<rparr>"

definition RemoveLeaf :: "'s BlockService \<Rightarrow> Hash \<Rightarrow> 's BlockService" where
  "RemoveLeaf bs hash = bs\<lparr>KnownLeaves := AList.delete hash (KnownLeaves bs)\<rparr>"

section \<open>Genesis\<close>

definition genesisHeader :: Header where
  "genesisHeader = Header_zero\<lparr>ParentHash := 1 # zero_octets 31, TimeSlotIndex := 1, BlockAuthorIndex := 0\<rparr>"

text \<open>An error leaves what was stored before it.\<close>

definition initializeState ::
  "(bytes \<Rightarrow> Hash) \<Rightarrow> 's Pebble \<Rightarrow> 's BlockService \<Rightarrow> ('s BlockService \<times> service_error option) option" where
  "initializeState HashData P bs =
     (case of_codec [] (Header_Hash HashData genesisHeader) of
        None \<Rightarrow> None
      | Some (Inl e) \<Rightarrow> Some (bs, Some (Failed ''failed to hash genesis block: %w'' e))
      | Some (Inr hash) \<Rightarrow>
          (case PutHeader HashData P (bs_Store bs) genesisHeader of
             None \<Rightarrow> None
           | Some (Inl e) \<Rightarrow> Some (bs, Some (Failed ''failed to store genesis block: %w'' e))
           | Some (Inr c) \<Rightarrow>
               (case PutBlock HashData P c (Block_zero\<lparr>blk_Header := genesisHeader\<rparr>) of
                  None \<Rightarrow> None
                | Some (Inl e) \<Rightarrow> Some (bs\<lparr>bs_Store := c\<rparr>, Some (Failed ''failed to store genesis block: %w'' e))
                | Some (Inr c) \<Rightarrow>
                    Some (bs\<lparr>bs_Store := c,
                      bs_LatestFinalized := \<lparr>lf_Hash = hash, lf_TimeSlotIndex = TimeSlotIndex genesisHeader\<rparr>\<rparr>, None))))"

text \<open>
  \<^verbatim>\<open>pebble.NewKVStore\<close> opens the database of the library: its state, or its error, is an argument. An error of the
  initialisation is logged.
\<close>

definition NewBlockService ::
  "(bytes \<Rightarrow> Hash) \<Rightarrow> 's Pebble \<Rightarrow> db_error + 's KV \<Rightarrow> (db_error + 's BlockService) option" where
  "NewBlockService HashData P opened =
     (case opened of
        Inl err \<Rightarrow> raise err
      | Inr kvStore \<Rightarrow>
          let bs = \<lparr>KnownLeaves = [], bs_LatestFinalized = \<lparr>lf_Hash = zero_octets 32, lf_TimeSlotIndex = 0\<rparr>,
                bs_Store = \<lparr>chain_db = kvStore, chain_closed = False\<rparr>\<rparr>
          in map_option (\<lambda>(bs, err). Inr bs) (initializeState HashData P bs))"

section \<open>Finalization\<close>

fun ancestorChain :: "'s Pebble \<Rightarrow> 's Chain \<Rightarrow> nat \<Rightarrow> Hash \<Rightarrow> Header list chain_result" where
  "ancestorChain P c 0 currentHash = ret []"
| "ancestorChain P c (Suc n) currentHash =
     res_bind (GetHeader P c currentHash) (\<lambda>header.
     res_bind (ancestorChain P c n (ParentHash header)) (\<lambda>headers. ret (header # headers)))"

definition checkFinalization ::
  "(bytes \<Rightarrow> Hash) \<Rightarrow> 's Pebble \<Rightarrow> 's BlockService \<Rightarrow> Hash \<Rightarrow> (service_error + 's BlockService) option" where
  "checkFinalization HashData P bs hash =
     (case ancestorChain P (bs_Store bs) 6 hash of
        None \<Rightarrow> None
      | Some (Inl err) \<Rightarrow> if err = ErrHeaderNotFound then ret bs else raise (Failed ''failed to get header in chain: %w'' err)
      | Some (Inr headers) \<Rightarrow>
          let finalizeHeader = headers ! (length headers - 1) in
          res_bind (failing ''failed to hash header during finalization: %w'' (of_codec [] (Header_Hash HashData finalizeHeader)))
            (\<lambda>finalizeHash.
              ret (UpdateLatestFinalized (RemoveLeaf bs finalizeHash) finalizeHash (TimeSlotIndex finalizeHeader))))"

text \<open>The walk back to the slot of the finalized block ends when the stored parents do not go round in a circle.\<close>

partial_function (option) walk_back :: "'s Pebble \<Rightarrow> 's Chain \<Rightarrow> Timeslot \<Rightarrow> Header \<Rightarrow> Header chain_result option" where
  "walk_back P c finalizedSlot current =
     (if TimeSlotIndex current > finalizedSlot then
        (case GetHeader P c (ParentHash current) of
           None \<Rightarrow> Some None
         | Some (Inl err) \<Rightarrow> Some (raise err)
         | Some (Inr parent) \<Rightarrow> walk_back P c finalizedSlot parent)
      else Some (ret current))"

definition isDescendantOfFinalized ::
  "(bytes \<Rightarrow> Hash) \<Rightarrow> 's Pebble \<Rightarrow> 's BlockService \<Rightarrow> Header \<Rightarrow> (service_error + bool) option option" where
  "isDescendantOfFinalized HashData P bs header =
     (let finalizedSlot = lf_TimeSlotIndex (bs_LatestFinalized bs); finalizedHash = lf_Hash (bs_LatestFinalized bs) in
      map_option (\<lambda>r. res_bind (failing ''failed to get parent block: %w'' r) (\<lambda>current.
          if TimeSlotIndex current = finalizedSlot then
            res_bind (failing [] (of_codec [] (Header_Hash HashData current))) (\<lambda>currentHash. ret (currentHash = finalizedHash))
          else ret False))
        (walk_back P (bs_Store bs) finalizedSlot header))"

text \<open>The part after the check. An error of the finalization is logged.\<close>

definition accept_header :: "(bytes \<Rightarrow> Hash) \<Rightarrow> 's Pebble \<Rightarrow> 's BlockService \<Rightarrow> Header \<Rightarrow> Hash \<Rightarrow> (service_error + 's BlockService) option" where
  "accept_header HashData P bs header hash =
     res_bind (failing ''failed to store header: %w'' (PutHeader HashData P (bs_Store bs) header)) (\<lambda>c.
       let bs = AddLeaf (RemoveLeaf (bs\<lparr>bs_Store := c\<rparr>) (ParentHash header)) hash (TimeSlotIndex header) in
       case checkFinalization HashData P bs (ParentHash header) of
         None \<Rightarrow> None
       | Some (Inl err) \<Rightarrow> ret bs
       | Some (Inr bs) \<Rightarrow> ret bs)"

definition HandleNewHeader ::
  "(bytes \<Rightarrow> Hash) \<Rightarrow> 's Pebble \<Rightarrow> 's BlockService \<Rightarrow> Header \<Rightarrow> (service_error + 's BlockService) option option" where
  "HandleNewHeader HashData P bs header =
     (case failing ''failed to hash header: %w'' (of_codec [] (Header_Hash HashData header)) of
        None \<Rightarrow> Some None
      | Some (Inl e) \<Rightarrow> Some (raise e)
      | Some (Inr hash) \<Rightarrow>
          map_option (\<lambda>r. res_bind r (\<lambda>isDescendant.
              if \<not> isDescendant then raise NotDescendant else accept_header HashData P bs header hash))
            (isDescendantOfFinalized HashData P bs header))"

section \<open>Walking back\<close>

definition parent_in :: "'s Pebble \<Rightarrow> 's Chain \<Rightarrow> Header \<Rightarrow> Header \<Rightarrow> bool" where
  "parent_in P c h p \<longleftrightarrow> GetHeader P c (ParentHash h) = ret p"

lemma walk_back_reaches:
  assumes "walk_back P c s h = Some r"
  shows "\<forall>f. r = ret f \<longrightarrow> (parent_in P c)\<^sup>*\<^sup>* h f \<and> TimeSlotIndex f \<le> s"
proof -
  let ?Q = "\<lambda>(((P, c), s), h) r. \<forall>f. r = ret f \<longrightarrow> (parent_in P c)\<^sup>*\<^sup>* h f \<and> TimeSlotIndex f \<le> s"
  have "?Q (((P, c), s), h) r"
  proof (rule walk_back.raw_induct [where Pa = ?Q, OF _ assms])
    fix walk :: "'a Pebble \<Rightarrow> 'a Chain \<Rightarrow> Timeslot \<Rightarrow> Header \<Rightarrow> Header chain_result option" and P :: "'a Pebble" and c s h r
    assume IH: "\<And>P c s h r. walk P c s h = Some r \<Longrightarrow> ?Q (((P, c), s), h) r"
      and r: "(if s < TimeSlotIndex h then case GetHeader P c (ParentHash h) of None \<Rightarrow> Some None
         | Some (Inl err) \<Rightarrow> Some (raise err) | Some (Inr parent) \<Rightarrow> walk P c s parent else Some (ret h)) = Some r"
    show "?Q (((P, c), s), h) r"
    proof (clarify)
      fix f assume f: "r = ret f"
      show "(parent_in P c)\<^sup>*\<^sup>* h f \<and> TimeSlotIndex f \<le> s"
      proof (cases "s < TimeSlotIndex h")
        case True
        then obtain p where p: "GetHeader P c (ParentHash h) = ret p" "walk P c s p = Some (ret f)"
          using r f by (auto split: option.splits sum.splits)
        have "(parent_in P c)\<^sup>*\<^sup>* p f \<and> TimeSlotIndex f \<le> s" using IH [OF p(2)] by simp
        moreover have "parent_in P c h p" using p(1) by (simp add: parent_in_def)
        ultimately show ?thesis by (metis converse_rtranclp_into_rtranclp)
      next
        case False
        then show ?thesis using r f by simp
      qed
    qed
  qed
  then show ?thesis by simp
qed

text \<open>The walk ends when stored headers have earlier parents.\<close>

definition slots_descend :: "'s Pebble \<Rightarrow> 's Chain \<Rightarrow> bool" where
  "slots_descend P c \<longleftrightarrow> (\<forall>x h p. GetHeader P c x = ret h \<longrightarrow> GetHeader P c (ParentHash h) = ret p \<longrightarrow> TimeSlotIndex p < TimeSlotIndex h)"

lemma walk_back_returns:
  assumes "slots_descend P c"
  shows "\<exists>r. walk_back P c s h = Some r"
proof -
  have stored: "\<exists>r. walk_back P c s h = Some r" if "GetHeader P c x = ret h" for x h
    using that
  proof (induction "unat (TimeSlotIndex h)" arbitrary: x h rule: less_induct)
    case less
    have "\<exists>r. walk_back P c s p = Some r" if p: "GetHeader P c (ParentHash h) = ret p" for p
    proof (rule less(1) [OF _ p])
      show "unat (TimeSlotIndex p) < unat (TimeSlotIndex h)"
        using assms less(2) p unfolding slots_descend_def word_less_nat_alt by blast
    qed
    then show ?case by (subst walk_back.simps) (simp split: option.split sum.split)
  qed
  then show ?thesis by (subst walk_back.simps) (simp split: option.split sum.split)
qed

section \<open>Accepted headers\<close>

lemma failing_ret [simp]: "failing m r = ret x \<longleftrightarrow> r = ret x"
  by (auto simp: failing_def split: option.splits sum.splits)

lemma of_codec_ret [simp]: "of_codec m r = ret x \<longleftrightarrow> r = ret x"
  by (auto simp: of_codec_def split: option.splits sum.splits)

lemma descendant_reaches:
  assumes "isDescendantOfFinalized HashData P bs h = Some (ret True)"
  shows "\<exists>f. (parent_in P (bs_Store bs))\<^sup>*\<^sup>* h f \<and> Header_Hash HashData f = ret (lf_Hash (bs_LatestFinalized bs)) \<and>
    TimeSlotIndex f = lf_TimeSlotIndex (bs_LatestFinalized bs)"
  using assms walk_back_reaches
  by (fastforce simp: isDescendantOfFinalized_def Let_def res_bind_ret_iff split: if_splits)

lemma ancestorChain_length: "ancestorChain P c n h = ret hs \<Longrightarrow> length hs = n"
  by (induction n arbitrary: h hs) (auto simp: res_bind_ret_iff)

lemma checkFinalization_ret:
  assumes "checkFinalization HashData P bs h = ret bs'"
  shows "bs' = bs \<or> (\<exists>hs g. ancestorChain P (bs_Store bs) 6 h = ret hs \<and> Header_Hash HashData (last hs) = ret g \<and>
    bs' = UpdateLatestFinalized (RemoveLeaf bs g) g (TimeSlotIndex (last hs)))"
proof (cases "ancestorChain P (bs_Store bs) 6 h")
  case (Some r)
  show ?thesis
  proof (cases r)
    case (Inr hs)
    then have "length hs = 6" using Some ancestorChain_length by blast
    then have "hs ! (length hs - 1) = last hs" by (intro last_conv_nth [symmetric]) auto
    then show ?thesis using assms Some Inr by (auto simp: checkFinalization_def Let_def res_bind_ret_iff)
  qed (use assms Some in \<open>auto simp: checkFinalization_def split: if_splits\<close>)
qed (use assms in \<open>simp add: checkFinalization_def\<close>)

lemma HandleNewHeader_ret:
  assumes "HandleNewHeader HashData P bs h = Some (ret bs')"
  obtains hash where "Header_Hash HashData h = ret hash" "isDescendantOfFinalized HashData P bs h = Some (ret True)"
    "accept_header HashData P bs h hash = ret bs'"
  using assms by (auto simp: HandleNewHeader_def res_bind_ret_iff split: option.splits sum.splits if_splits)

lemma accept_header_ret:
  assumes "accept_header HashData P bs h hash = ret bs'"
  obtains c where "PutHeader HashData P (bs_Store bs) h = ret c"
    "let bs1 = AddLeaf (RemoveLeaf (bs\<lparr>bs_Store := c\<rparr>) (ParentHash h)) hash (TimeSlotIndex h) in
     (\<exists>err. checkFinalization HashData P bs1 (ParentHash h) = raise err) \<and> bs' = bs1 \<or>
     checkFinalization HashData P bs1 (ParentHash h) = ret bs'"
proof -
  obtain c where c: "PutHeader HashData P (bs_Store bs) h = ret c"
    using assms by (auto simp: accept_header_def res_bind_ret_iff)
  define bs1 where "bs1 = AddLeaf (RemoveLeaf (bs\<lparr>bs_Store := c\<rparr>) (ParentHash h)) hash (TimeSlotIndex h)"
  have r: "(case checkFinalization HashData P bs1 (ParentHash h) of None \<Rightarrow> None | Some (Inl err) \<Rightarrow> ret bs1 | Some (Inr bs) \<Rightarrow> ret bs) = (ret bs' :: (service_error + _) option)"
    unfolding bs1_def using assms c by (simp add: accept_header_def Let_def failing_def)
  then consider err where "checkFinalization HashData P bs1 (ParentHash h) = raise err" "bs' = bs1"
    | "checkFinalization HashData P bs1 (ParentHash h) = ret bs'"
    by (cases "checkFinalization HashData P bs1 (ParentHash h)"; cases "the (checkFinalization HashData P bs1 (ParentHash h))") auto
  then show thesis by cases (rule that [OF c], simp add: bs1_def [symmetric])+
qed

lemma PutHeader_then_GetHeader:
  assumes "pebble_view P v" "PutHeader HashData P c h = ret c'" "wf_header h" "\<not> kv_closed (chain_db c)"
    "Header_Hash HashData h = ret hash"
  shows "GetHeader P c' hash = ret h" "hash' \<noteq> hash \<Longrightarrow> GetHeader P c' hash' = GetHeader P c hash'"
proof -
  obtain bs where bs: "Header_Bytes h = ret bs" "HeaderFromBytes bs = ret h" using Header_roundtrip [OF assms(3)] by blast
  obtain db where db: "\<not> chain_closed c" "peb_Set P (kv_db (chain_db c)) (makeKey prefixHeader hash) bs = Inr db"
    "c' = c\<lparr>chain_db := (chain_db c)\<lparr>kv_db := db\<rparr>\<rparr>"
    using assms(2,4,5) bs(1)
    by (auto simp: PutHeader_def res_bind_ret_iff KV_Put_def of_db_def map_sum_def split: if_splits sum.splits)
  have v: "v db = (v (kv_db (chain_db c)))(makeKey prefixHeader hash \<mapsto> bs)" using assms(1) db(2) by (auto simp: pebble_view_def)
  show "GetHeader P c' hash = ret h"
    using db(1,3) v bs(2) assms(4) by (simp add: GetHeader_def KV_Get_view [OF assms(1)])
  show "hash' \<noteq> hash \<Longrightarrow> GetHeader P c' hash' = GetHeader P c hash'"
    using db(1,3) v assms(4) by (simp add: GetHeader_def KV_Get_view [OF assms(1)] makeKey_def)
qed

lemma handled:
  assumes "HandleNewHeader HashData P bs h = Some (ret bs')" "Header_Hash HashData h = ret hash"
  obtains c where "PutHeader HashData P (bs_Store bs) h = ret c" "bs_Store bs' = c"
    "(KnownLeaves bs' = AList.update hash (TimeSlotIndex h) (AList.delete (ParentHash h) (KnownLeaves bs)) \<and>
        bs_LatestFinalized bs' = bs_LatestFinalized bs) \<or>
     (\<exists>hs g. ancestorChain P c 6 (ParentHash h) = ret hs \<and> Header_Hash HashData (last hs) = ret g \<and>
        KnownLeaves bs' = AList.delete g (AList.update hash (TimeSlotIndex h) (AList.delete (ParentHash h) (KnownLeaves bs))) \<and>
        bs_LatestFinalized bs' = \<lparr>lf_Hash = g, lf_TimeSlotIndex = TimeSlotIndex (last hs)\<rparr>)"
proof -
  obtain c where c: "PutHeader HashData P (bs_Store bs) h = ret c"
    and f: "let bs1 = AddLeaf (RemoveLeaf (bs\<lparr>bs_Store := c\<rparr>) (ParentHash h)) hash (TimeSlotIndex h) in
      (\<exists>err. checkFinalization HashData P bs1 (ParentHash h) = raise err) \<and> bs' = bs1 \<or>
      checkFinalization HashData P bs1 (ParentHash h) = ret bs'"
    using assms by (auto elim!: HandleNewHeader_ret accept_header_ret)
  show thesis
    by (rule that [OF c])
      (use f in \<open>auto simp: Let_def AddLeaf_def RemoveLeaf_def UpdateLatestFinalized_def dest!: checkFinalization_ret\<close>)
qed

section \<open>An example\<close>

text \<open>
  A chain of headers in slots 1 to 6, whose hash is their slot, the last of which is finalized.
\<close>

definition slot_hash :: "bytes \<Rightarrow> Hash" where
  "slot_hash bs = (case HeaderFromBytes bs of ret h \<Rightarrow> ucast (TimeSlotIndex h) # zero_octets 31 | _ \<Rightarrow> zero_octets 32)"

definition demo_slot :: "Timeslot \<Rightarrow> Hash \<Rightarrow> Header" where
  "demo_slot t parent = Header_zero\<lparr>TimeSlotIndex := t, ParentHash := parent\<rparr>"

definition number_hash :: "u8 \<Rightarrow> Hash" where
  "number_hash n = n # zero_octets 31"

definition demo_numbered :: "u8 \<Rightarrow> Header" where
  "demo_numbered n = demo_slot (ucast n) (number_hash (n - 1))"

definition demo_bytes :: "Header \<Rightarrow> bytes" where
  "demo_bytes h = (case Header_Bytes h of ret bs \<Rightarrow> bs | _ \<Rightarrow> [])"

definition demo_service :: "(bytes \<times> bytes) list BlockService" where
  "demo_service = \<lparr>KnownLeaves = [], bs_LatestFinalized = \<lparr>lf_Hash = number_hash 6, lf_TimeSlotIndex = 6\<rparr>,
     bs_Store = \<lparr>chain_db = \<lparr>kv_db = map (\<lambda>n. (makeKey prefixHeader (number_hash n), demo_bytes (demo_numbered n))) [1, 2, 3, 4, 5, 6],
       kv_closed = False\<rparr>, chain_closed = False\<rparr>\<rparr>"

lemma demo_slot_wf: "length parent = 32 \<Longrightarrow> wf_header (demo_slot t parent)"
  by (simp add: demo_slot_def wf_header_def Header_zero_def hashes_ok_def zero_octets_def)

lemma demo_slot_bytes:
  assumes "length parent = 32"
  shows "Header_Bytes (demo_slot t parent) = ret (demo_bytes (demo_slot t parent))"
    "HeaderFromBytes (demo_bytes (demo_slot t parent)) = ret (demo_slot t parent)"
    "Header_Hash slot_hash (demo_slot t parent) = ret (ucast t # zero_octets 31)"
proof -
  obtain bs where bs: "Header_Bytes (demo_slot t parent) = ret bs" "Header_Hash slot_hash (demo_slot t parent) = ret (slot_hash bs)"
    "HeaderFromBytes bs = ret (demo_slot t parent)"
    using Header_roundtrip [OF demo_slot_wf [OF assms]] by blast
  then show "Header_Bytes (demo_slot t parent) = ret (demo_bytes (demo_slot t parent))"
    "HeaderFromBytes (demo_bytes (demo_slot t parent)) = ret (demo_slot t parent)"
    "Header_Hash slot_hash (demo_slot t parent) = ret (ucast t # zero_octets 31)"
    by (simp_all add: demo_bytes_def slot_hash_def) (simp add: demo_slot_def)
qed

lemma demo_slot_fields [simp]: "TimeSlotIndex (demo_slot t p) = t" "ParentHash (demo_slot t p) = p"
  by (simp_all add: demo_slot_def)

lemma number_hash_simps [simp]: "length (number_hash n) = 32" "number_hash m = number_hash n \<longleftrightarrow> m = n"
  by (simp_all add: number_hash_def zero_octets_def)

lemma demo_GetHeader:
  assumes "n \<in> {1, 2, 3, 4, 5, 6}" "kv_db (chain_db c) = extra @ kv_db (chain_db (bs_Store demo_service)) \<or> kv_db (chain_db c) = kv_db (chain_db (bs_Store demo_service)) @ extra"
    "\<not> chain_closed c" "\<not> kv_closed (chain_db c)" "makeKey prefixHeader (number_hash n) \<notin> fst ` set extra"
  shows "GetHeader memory_db c (number_hash n) = ret (demo_numbered n)"
proof -
  have "map_of extra (makeKey prefixHeader (number_hash n)) = None" using assms(5) by (simp add: map_of_eq_None_iff)
  then have "map_of (kv_db (chain_db c)) (makeKey prefixHeader (number_hash n)) = Some (demo_bytes (demo_numbered n))"
    using assms(1,2) by (auto simp: demo_service_def makeKey_def map_add_def)
  then show ?thesis
    using assms(3,4) demo_slot_bytes(2) [of "number_hash (n - 1)" "ucast n"]
    by (simp add: GetHeader_def KV_Get_def memory_db_def demo_numbered_def)
qed

lemma demo_put:
  "\<exists>c. PutHeader slot_hash memory_db (bs_Store demo_service) (demo_slot 9 (number_hash 6)) = ret c \<and>
     \<not> chain_closed c \<and> \<not> kv_closed (chain_db c) \<and>
     kv_db (chain_db c) = kv_db (chain_db (bs_Store demo_service)) @ [(makeKey prefixHeader (number_hash 9), demo_bytes (demo_slot 9 (number_hash 6)))]"
proof -
  have "Header_Hash slot_hash (demo_slot 9 (number_hash 6)) = ret (number_hash 9)"
    using demo_slot_bytes(3) [of "number_hash 6" 9] by (simp add: number_hash_def)
  then show ?thesis
    using demo_slot_bytes(1) [of "number_hash 6" 9]
    by (simp add: PutHeader_def of_codec_def of_db_def KV_Put_def memory_db_def demo_service_def makeKey_def)
qed

lemma ucast_octet: "ucast (ucast n :: u32) = (n :: u8)"
  by (rule bit_word_eqI) (auto simp: bit_simps)

lemma demo_numbered_hash: "Header_Hash slot_hash (demo_numbered n) = ret (number_hash n)"
  using demo_slot_bytes(3) [of "number_hash (n - 1)" "ucast n"] by (simp add: demo_numbered_def number_hash_def ucast_octet)

lemma demo_ancestors:
  assumes "kv_db (chain_db c) = kv_db (chain_db (bs_Store demo_service)) @ [(makeKey prefixHeader (number_hash 9), x)]"
    "\<not> chain_closed c" "\<not> kv_closed (chain_db c)"
  shows "ancestorChain memory_db c 6 (number_hash 6) = ret (map demo_numbered [6, 5, 4, 3, 2, 1])"
proof -
  have "GetHeader memory_db c (number_hash n) = ret (demo_numbered n)" if "n \<in> {1, 2, 3, 4, 5, 6}" for n
    using that assms by (intro demo_GetHeader) (auto simp: makeKey_def)
  then show ?thesis by (simp add: numeral_eq_Suc) (simp add: demo_numbered_def)
qed

lemma demo_handled: "\<exists>bs'. HandleNewHeader slot_hash memory_db demo_service (demo_slot 9 (number_hash 6)) = Some (ret bs')"
proof -
  have h: "Header_Hash slot_hash (demo_slot 9 (number_hash 6)) = ret (number_hash 9)"
    using demo_slot_bytes(3) [of "number_hash 6" 9] by (simp add: number_hash_def)
  have g: "GetHeader memory_db (bs_Store demo_service) (number_hash 6) = ret (demo_numbered 6)"
    by (intro demo_GetHeader [where extra = "[]"]) (auto simp: demo_service_def)
  have "walk_back memory_db (bs_Store demo_service) 6 (demo_slot 9 (number_hash 6)) = Some (ret (demo_numbered 6))"
    by (subst walk_back.simps, simp add: g, subst walk_back.simps) (simp add: demo_numbered_def)
  then have d: "isDescendantOfFinalized slot_hash memory_db demo_service (demo_slot 9 (number_hash 6)) = Some (ret True)"
    using demo_numbered_hash [of 6]
    by (simp add: isDescendantOfFinalized_def Let_def demo_service_def failing_def of_codec_def) (simp add: demo_numbered_def)
  obtain c where c: "PutHeader slot_hash memory_db (bs_Store demo_service) (demo_slot 9 (number_hash 6)) = ret c"
    "ancestorChain memory_db c 6 (number_hash 6) = ret (map demo_numbered [6, 5, 4, 3, 2, 1])"
    using demo_put demo_ancestors by metis
  show ?thesis
    using h d c demo_numbered_hash [of 1]
    by (simp add: HandleNewHeader_def accept_header_def failing_def of_codec_def Let_def checkFinalization_def AddLeaf_def RemoveLeaf_def)
qed

section \<open>Properties\<close>

text \<open>
  C18: \<^bold>\<open>only descendants of the finalized block are accepted.\<close> When a header is accepted, its stored
  parents lead back to the block that was finalized. The header can then be read from the store, and the
  leaves are those before with the header in the place of its parent, and without the block that has just
  been finalized, if any.
\<close>

theorem accepted_header_descends:
  assumes "HandleNewHeader HashData P bs h = Some (ret bs')" "Header_Hash HashData h = ret hash"
    and "pebble_view P v" "wf_header h" "\<not> kv_closed (chain_db (bs_Store bs))"
  shows "(\<exists>f. (parent_in P (bs_Store bs))\<^sup>*\<^sup>* h f \<and> Header_Hash HashData f = ret (lf_Hash (bs_LatestFinalized bs)) \<and>
      TimeSlotIndex f = lf_TimeSlotIndex (bs_LatestFinalized bs)) \<and>
    GetHeader P (bs_Store bs') hash = ret h \<and>
    (let leaves = (map_of (KnownLeaves bs))(ParentHash h := None, hash \<mapsto> TimeSlotIndex h) in
     map_of (KnownLeaves bs') = leaves \<and> bs_LatestFinalized bs' = bs_LatestFinalized bs \<or>
     map_of (KnownLeaves bs') = leaves(lf_Hash (bs_LatestFinalized bs') := None))"
proof -
  have "isDescendantOfFinalized HashData P bs h = Some (ret True)" using assms(1) by (rule HandleNewHeader_ret)
  note d = descendant_reaches [OF this]
  obtain c where c: "PutHeader HashData P (bs_Store bs) h = ret c" "bs_Store bs' = c"
    "(KnownLeaves bs' = AList.update hash (TimeSlotIndex h) (AList.delete (ParentHash h) (KnownLeaves bs)) \<and>
        bs_LatestFinalized bs' = bs_LatestFinalized bs) \<or>
     (\<exists>hs g. ancestorChain P c 6 (ParentHash h) = ret hs \<and> Header_Hash HashData (last hs) = ret g \<and>
        KnownLeaves bs' = AList.delete g (AList.update hash (TimeSlotIndex h) (AList.delete (ParentHash h) (KnownLeaves bs))) \<and>
        bs_LatestFinalized bs' = \<lparr>lf_Hash = g, lf_TimeSlotIndex = TimeSlotIndex (last hs)\<rparr>)"
    by (rule handled [OF assms(1,2)])
  have "GetHeader P (bs_Store bs') hash = ret h"
    using PutHeader_then_GetHeader(1) [OF assms(3) c(1) assms(4,5,2)] c(2) by simp
  then show ?thesis using d c(3) by (auto simp: Let_def update_conv' delete_conv')
qed

theorem accepted_header_descends_witness:
  "\<exists>bs'. HandleNewHeader slot_hash memory_db demo_service (demo_slot 9 (number_hash 6)) = Some (ret bs') \<and>
     GetHeader memory_db (bs_Store bs') (number_hash 9) = ret (demo_slot 9 (number_hash 6))"
proof -
  obtain bs' where h: "HandleNewHeader slot_hash memory_db demo_service (demo_slot 9 (number_hash 6)) = Some (ret bs')"
    using demo_handled by blast
  have "Header_Hash slot_hash (demo_slot 9 (number_hash 6)) = ret (number_hash 9)"
    using demo_slot_bytes(3) [of "number_hash 6" 9] by (simp add: number_hash_def)
  from accepted_header_descends [OF h this memory_view demo_slot_wf] show ?thesis using h by (auto simp: demo_service_def)
qed

text \<open>
  C36: \<^bold>\<open>finalization can go backwards.\<close> A new header on top of the finalized block itself makes the fifth
  ancestor of that block the finalized one: when slots descend along the chain, the latest finalized
  slot decreases.
\<close>

theorem finalization_regresses:
  assumes "HandleNewHeader HashData P bs h = Some (ret bs')" "ParentHash h = lf_Hash (bs_LatestFinalized bs)"
    and "ancestorChain P (bs_Store bs') 6 (ParentHash h) = ret hs" "Header_Hash HashData (last hs) = ret g"
    and "TimeSlotIndex (hd hs) = lf_TimeSlotIndex (bs_LatestFinalized bs)" "sorted_wrt (>) (map TimeSlotIndex hs)"
  shows "bs_LatestFinalized bs' = \<lparr>lf_Hash = g, lf_TimeSlotIndex = TimeSlotIndex (last hs)\<rparr> \<and>
    lf_TimeSlotIndex (bs_LatestFinalized bs') < lf_TimeSlotIndex (bs_LatestFinalized bs)"
proof -
  have len: "length hs = 6" using ancestorChain_length [OF assms(3)] .
  then obtain a b c d e f where hs: "hs = [a, b, c, d, e, f]" by (auto simp: length_Suc_conv numeral_eq_Suc)
  obtain hash where hash: "Header_Hash HashData h = ret hash" "accept_header HashData P bs h hash = ret bs'"
    using assms(1) by (rule HandleNewHeader_ret)
  obtain c' where c': "PutHeader HashData P (bs_Store bs) h = ret c'"
    and fin: "let bs1 = AddLeaf (RemoveLeaf (bs\<lparr>bs_Store := c'\<rparr>) (ParentHash h)) hash (TimeSlotIndex h) in
      (\<exists>err. checkFinalization HashData P bs1 (ParentHash h) = raise err) \<and> bs' = bs1 \<or>
      checkFinalization HashData P bs1 (ParentHash h) = ret bs'"
    using hash(2) by (rule accept_header_ret)
  have "bs_Store bs' = c'" using handled [OF assms(1) hash(1)] c' by (metis option.inject sum.inject(2))
  then have "bs_LatestFinalized bs' = \<lparr>lf_Hash = g, lf_TimeSlotIndex = TimeSlotIndex f\<rparr>"
    using fin assms(3,4) by (auto simp: hs Let_def checkFinalization_def AddLeaf_def RemoveLeaf_def UpdateLatestFinalized_def of_codec_def failing_def
        dest: arg_cong [of _ bs' bs_LatestFinalized])
  then show ?thesis using assms(5,6) by (simp add: hs)
qed

theorem finalization_regresses_witness:
  "\<exists>bs'. HandleNewHeader slot_hash memory_db demo_service (demo_slot 9 (number_hash 6)) = Some (ret bs') \<and>
     lf_TimeSlotIndex (bs_LatestFinalized demo_service) = 6 \<and> bs_LatestFinalized bs' = \<lparr>lf_Hash = number_hash 1, lf_TimeSlotIndex = 1\<rparr>"
proof -
  let ?h = "demo_slot 9 (number_hash 6)" and ?hs = "map demo_numbered [6, 5, 4, 3, 2, 1]"
  obtain bs' where h: "HandleNewHeader slot_hash memory_db demo_service ?h = Some (ret bs')" using demo_handled by blast
  obtain c where c: "PutHeader slot_hash memory_db (bs_Store demo_service) ?h = ret c"
    "ancestorChain memory_db c 6 (number_hash 6) = ret ?hs"
    using demo_put demo_ancestors by metis
  have "Header_Hash slot_hash ?h = ret (number_hash 9)" using demo_slot_bytes(3) [of "number_hash 6" 9] by (simp add: number_hash_def)
  then have "bs_Store bs' = c" using handled [OF h] c(1) by (metis option.inject sum.inject(2))
  then have "ancestorChain memory_db (bs_Store bs') 6 (ParentHash ?h) = ret ?hs" using c(2) by simp
  from finalization_regresses [OF h _ this, of "number_hash 1"] show ?thesis
    using h demo_numbered_hash [of 1] by (auto simp: demo_service_def demo_numbered_def)
qed

text \<open>
  C37: \<^bold>\<open>handling a header ends.\<close> When every stored header is later than its stored parent, the walk
  back to the finalized block ends, whatever the finalized block is.
\<close>

theorem HandleNewHeader_returns:
  assumes "slots_descend P (bs_Store bs)"
  shows "\<exists>r. HandleNewHeader HashData P bs h = Some r"
  using walk_back_returns [OF assms]
  by (auto simp: HandleNewHeader_def isDescendantOfFinalized_def Let_def split: option.splits sum.splits)

lemma demo_stored:
  assumes "GetHeader memory_db (bs_Store demo_service) x = ret h"
  shows "\<exists>n \<in> {1, 2, 3, 4, 5, 6}. x = number_hash n \<and> h = demo_numbered n"
proof -
  obtain bs where bs: "map_of (kv_db (chain_db (bs_Store demo_service))) (makeKey prefixHeader x) = Some bs" "HeaderFromBytes bs = ret h"
    using assms by (auto simp: GetHeader_def KV_Get_def memory_db_def of_codec_def split: if_splits option.splits sum.splits)
  obtain n where n: "n \<in> {1, 2, 3, 4, 5, 6}" "x = number_hash n" "bs = demo_bytes (demo_numbered n)"
    using map_of_SomeD [OF bs(1)] by (auto simp: demo_service_def makeKey_def)
  have "HeaderFromBytes bs = ret (demo_numbered n)"
    using demo_slot_bytes(2) [of "number_hash (n - 1)" "ucast n"] by (simp add: n(3) demo_numbered_def)
  then show ?thesis using n bs(2) by auto
qed

theorem HandleNewHeader_returns_witness:
  "slots_descend memory_db (bs_Store demo_service) \<and> (\<exists>r. HandleNewHeader slot_hash memory_db demo_service genesisHeader = Some r)"
proof -
  have "TimeSlotIndex p < TimeSlotIndex h"
    if hp: "GetHeader memory_db (bs_Store demo_service) x = ret h" "GetHeader memory_db (bs_Store demo_service) (ParentHash h) = ret p" for x h p
  proof -
    obtain n m where n: "n \<in> {1, 2, 3, 4, 5, 6}" "h = demo_numbered n" "m \<in> {1, 2, 3, 4, 5, 6}" "ParentHash h = number_hash m" "p = demo_numbered m"
      using demo_stored [OF hp(1)] demo_stored [OF hp(2)] by blast
    then have "m = n - 1" by (simp add: demo_numbered_def)
    then show ?thesis using n by (auto simp: demo_numbered_def)
  qed
  then have "slots_descend memory_db (bs_Store demo_service)" unfolding slots_descend_def by blast
  then show ?thesis using HandleNewHeader_returns by blast
qed

end
