(* ===== verification/Validator_Grid.thy ===== *)
theory Validator_Grid
  imports Safrole
begin

text \<open>
  The grid of validators (\<^verbatim>\<open>internal/validator/grid.go\<close>) that decides who sends announcements to whom.
\<close>

section \<open>The grid\<close>

text \<open>The floor of the square root, which floating-point numbers compute exactly at this size.\<close>

definition floor_sqrt :: "nat \<Rightarrow> nat" where
  "floor_sqrt n = length (filter (\<lambda>w. w * w \<le> n) [1..<Suc n])"

definition getGridWidth :: u16 where
  "getGridWidth = of_nat (floor_sqrt NumberOfValidators)"

definition areGridNeighbors :: "u16 \<Rightarrow> u16 \<Rightarrow> bool" where
  "areGridNeighbors validatorIndex1 validatorIndex2 =
     (let gridWidth = getGridWidth;
          row1 = validatorIndex1 div gridWidth; col1 = validatorIndex1 mod gridWidth;
          row2 = validatorIndex2 div gridWidth; col2 = validatorIndex2 mod gridWidth
      in row1 = row2 \<or> col1 = col2)"

text \<open>
  The values that the loop variables take: of one row, and of one column in steps of the width. They
  stay below the number of validators plus the width, so that \<^verbatim>\<open>uint16\<close> does not wrap; \<open>rowStart + gridWidth\<close> may.
\<close>

definition getCurrentEpochNeighborIndices :: "u16 \<Rightarrow> u16 list" where
  "getCurrentEpochNeighborIndices validatorIndex =
     (let gridWidth = getGridWidth;
          rowStart = (validatorIndex div gridWidth) * gridWidth;
          rowEnd = min (rowStart + gridWidth) (of_nat NumberOfValidators);
          row = map of_nat [unat rowStart..<unat rowEnd];
          column = map of_nat (filter (\<lambda>i. i < NumberOfValidators)
            (map (\<lambda>k. unat (validatorIndex mod gridWidth) + k * unat gridWidth) [0..<NumberOfValidators]))
      in filter (\<lambda>i. i \<noteq> validatorIndex) row @ filter (\<lambda>i. i \<noteq> validatorIndex) column)"

section \<open>Validators of the grid\<close>

record GridMapper =
  gm_currentValidators :: ValidatorsData
  gm_archivedValidators :: ValidatorsData
  gm_queuedValidators :: ValidatorsData

definition NewGridMapper :: "ValidatorState \<Rightarrow> GridMapper" where
  "NewGridMapper st = \<lparr>gm_currentValidators = CurrentValidators st, gm_archivedValidators = ArchivedValidators st,
     gm_queuedValidators = QueuedValidators st\<rparr>"

text \<open>An index out of range is a panic: \<open>None\<close>.\<close>

definition GetCurrentEpochNeighborValidators :: "GridMapper \<Rightarrow> u16 \<Rightarrow> ValidatorKey option list option" where
  "GetCurrentEpochNeighborValidators m index =
     those (map (\<lambda>idx. go_index (gm_currentValidators m) (unat idx)) (getCurrentEpochNeighborIndices index))"

definition GetAllEpochsNeighborValidators :: "GridMapper \<Rightarrow> u16 \<Rightarrow> ValidatorKey option list option" where
  "GetAllEpochsNeighborValidators m index =
     map_option (\<lambda>neighborsSameEpoch.
         (if index < of_nat (length (gm_archivedValidators m)) then [gm_archivedValidators m ! unat index] else []) @
         (if index < of_nat (length (gm_queuedValidators m)) then [gm_queuedValidators m ! unat index] else []) @
         neighborsSameEpoch)
       (GetCurrentEpochNeighborValidators m index)"

fun find_index :: "nat \<Rightarrow> ValidatorsData \<Rightarrow> bytes \<Rightarrow> nat option" where
  "find_index i [] key = None"
| "find_index i (v # vs) key = (if \<exists>k \<in> set_option v. Ed25519 k = key then Some i else find_index (Suc i) vs key)"

definition findValidatorIndexInSlice :: "ValidatorsData \<Rightarrow> bytes \<Rightarrow> u16 option" where
  "findValidatorIndexInSlice validators key = map_option of_nat (find_index 0 validators key)"

definition FindValidatorIndex :: "GridMapper \<Rightarrow> bytes \<Rightarrow> u16 option" where
  "FindValidatorIndex m key = findValidatorIndexInSlice (gm_currentValidators m) key"

definition FindValidatorIndexInArchived :: "GridMapper \<Rightarrow> bytes \<Rightarrow> u16 option" where
  "FindValidatorIndexInArchived m key = findValidatorIndexInSlice (gm_archivedValidators m) key"

definition FindValidatorIndexInQueued :: "GridMapper \<Rightarrow> bytes \<Rightarrow> u16 option" where
  "FindValidatorIndexInQueued m key = findValidatorIndexInSlice (gm_queuedValidators m) key"

definition getValidatorIndices :: "GridMapper \<Rightarrow> bytes \<Rightarrow> u16 set" where
  "getValidatorIndices m key =
     set_option (FindValidatorIndexInArchived m key) \<union> set_option (FindValidatorIndex m key) \<union>
     set_option (FindValidatorIndexInQueued m key)"

definition IsNeighbor :: "GridMapper \<Rightarrow> bytes \<Rightarrow> bytes \<Rightarrow> bool \<Rightarrow> bool" where
  "IsNeighbor m key1 key2 sameEpoch =
     (if key1 = key2 then False
      else if sameEpoch then
        (case (FindValidatorIndex m key1, FindValidatorIndex m key2) of
           (Some idx1, Some idx2) \<Rightarrow> areGridNeighbors idx1 idx2
         | _ \<Rightarrow> False)
      else
        let indices1 = getValidatorIndices m key1 in
        if indices1 = {} then False else \<exists>idx \<in> getValidatorIndices m key2. idx \<in> indices1)"

section \<open>Rows and columns\<close>

lemma floor_sqrt_eq:
  assumes "w * w \<le> n" "n < Suc w * Suc w"
  shows "floor_sqrt n = w"
proof -
  have iff: "x * x \<le> n \<longleftrightarrow> x \<le> w" for x
  proof (cases "x \<le> w")
    case True
    then have "x * x \<le> w * w" by (intro mult_le_mono)
    then show ?thesis using True assms(1) by simp
  next
    case False
    then have "Suc w * Suc w \<le> x * x" by (intro mult_le_mono) simp_all
    then have "n < x * x" using assms(2) by (rule less_le_trans [rotated])
    then show ?thesis using False by simp
  qed
  have "w \<le> n" using le_trans [OF le_square assms(1)] .
  then have "[1..<Suc n] = [1..<Suc w] @ [Suc w..<Suc n]" using upt_add_eq_append [of 1 "Suc w" "n - w"] by simp
  moreover have "filter (\<lambda>x. x \<le> w) [1..<Suc w] = [1..<Suc w]" "filter (\<lambda>x. x \<le> w) [Suc w..<Suc n] = []"
    by (auto simp: filter_empty_conv filter_id_conv)
  ultimately show ?thesis unfolding floor_sqrt_def iff by simp
qed

lemma getGridWidth_eq: "getGridWidth = 31"
  by (simp add: getGridWidth_def floor_sqrt_eq [of 31] NumberOfValidators_def)

text \<open>The same relation on natural numbers.\<close>

lemma grid_neighbors_nat: "areGridNeighbors v j \<longleftrightarrow> unat v div 31 = unat j div 31 \<or> unat v mod 31 = unat j mod 31"
proof -
  have "v div 31 = j div 31 \<longleftrightarrow> unat v div 31 = unat j div 31" "v mod 31 = j mod 31 \<longleftrightarrow> unat v mod 31 = unat j mod 31"
    by (simp_all add: word_unat_eq_iff unat_div unat_mod)
  then show ?thesis by (simp add: areGridNeighbors_def Let_def getGridWidth_eq)
qed

lemma unat16_index: "i < 1023 \<Longrightarrow> unat (of_nat i :: u16) = i"
  by (simp only: unsigned_of_nat) (simp add: take_bit_nat_eq_self)

lemma of_nat_image: "(\<forall>i \<in> A. i < 1023) \<Longrightarrow> j \<in> of_nat ` A \<longleftrightarrow> unat j \<in> A" for j :: u16
  by (auto simp: image_iff unat16_index intro!: bexI [of _ "unat j"])

lemma row_set:
  fixes v :: u16
  assumes "unat v < 1023"
  shows "unat ((v div 31) * 31) = 31 * (unat v div 31)" "unat (min ((v div 31) * 31 + 31) 1023) = 31 * (unat v div 31) + 31"
proof -
  have d: "31 * (unat v div 31) \<le> 992" using div_le_mono [of "unat v" 1022 31] assms by simp
  show r: "unat ((v div 31) * 31) = 31 * (unat v div 31)"
    using d unat_mult_lem [of "v div 31" 31] by (simp add: unat_div mult.commute)
  have "unat ((v div 31) * 31 + 31) = 31 * (unat v div 31) + 31" 
    using d r unat_add_lem [of "(v div 31) * 31" 31] by simp
  then show "unat (min ((v div 31) * 31 + 31) 1023) = 31 * (unat v div 31) + 31"
    using d by (simp add: min_def word_le_nat_alt)
qed

lemma neighbor_indices:
  assumes "unat v < NumberOfValidators"
  shows "set (getCurrentEpochNeighborIndices v) = {j. unat j < NumberOfValidators \<and> j \<noteq> v \<and> areGridNeighbors v j}"
  supply upt_rec_numeral [simp del]
proof -
  let ?r = "{31 * (unat v div 31)..<31 * (unat v div 31) + 31}"
  let ?c = "{i. i < 1023 \<and> (\<exists>k < 1023. i = unat v mod 31 + k * 31)}"
  have v: "unat v < 1023" using assms by (simp add: NumberOfValidators_def)
  have s: "set (getCurrentEpochNeighborIndices v) = {j. j \<noteq> v \<and> (j \<in> of_nat ` ?r \<or> j \<in> of_nat ` ?c)}"
  proof -
    have n: "of_nat NumberOfValidators = (1023 :: u16)" "unat (v mod 31) = unat v mod 31" "unat (31 :: u16) = 31"
      by (simp_all add: NumberOfValidators_def unat_mod)
    have c: "{i \<in> (\<lambda>k. q + k * 31) ` {0..<N}. i < N} = {i. i < N \<and> (\<exists>k < N. i = q + k * 31)}" for q N :: nat by auto
    have u: "{x \<in> A. x \<noteq> v} \<union> {x \<in> B. x \<noteq> v} = {j. j \<noteq> v \<and> (j \<in> A \<or> j \<in> B)}" for A B by blast
    show ?thesis
      unfolding getCurrentEpochNeighborIndices_def Let_def getGridWidth_eq n row_set [OF v] set_append set_filter set_map set_upt c u
      unfolding NumberOfValidators_def ..
  qed
  have row: "i \<in> ?r \<longleftrightarrow> i < 1023 \<and> i div 31 = unat v div 31" for i
  proof -
    have "i \<in> {31 * q..<31 * q + 31} \<longleftrightarrow> i div 31 = q" for q :: nat
      using mult_div_mod_eq [of 31 i] mod_less_divisor [of 31 i] by (auto intro!: div_nat_eqI)
    moreover have "i < 1023" if "i div 31 = unat v div 31"
      using div_less_iff_less_mult [of 31 i 33] div_less_iff_less_mult [of 31 "unat v" 33] v unfolding that by simp
    ultimately show ?thesis by blast
  qed
  have column: "i \<in> ?c \<longleftrightarrow> i < 1023 \<and> i mod 31 = unat v mod 31" for i
  proof -
    have "\<exists>k < 1023. i = unat v mod 31 + k * 31" if "i < 1023" "i mod 31 = unat v mod 31"
    proof (intro exI conjI)
      show "i div 31 < 1023" using that(1) by (rule le_less_trans [OF div_le_dividend])
      show "i = unat v mod 31 + i div 31 * 31" using mod_div_mult_eq [of i 31] unfolding that(2) by (rule sym)
    qed
    moreover have "i mod 31 = unat v mod 31" if "i = unat v mod 31 + k * 31" for k unfolding that by simp
    ultimately show ?thesis by blast
  qed
  have "(j \<in> of_nat ` ?r \<or> j \<in> of_nat ` ?c) \<longleftrightarrow> unat j < 1023 \<and> areGridNeighbors v j" for j
  proof -
    have r: "j \<in> of_nat ` ?r \<longleftrightarrow> unat j \<in> ?r"
    proof (rule of_nat_image, rule ballI)
      show "i < 1023" if "i \<in> ?r" for i using that unfolding row by (rule conjunct1)
    qed
    have c: "j \<in> of_nat ` ?c \<longleftrightarrow> unat j \<in> ?c"
    proof (rule of_nat_image, rule ballI)
      show "i < 1023" if "i \<in> ?c" for i using that unfolding column by (rule conjunct1)
    qed
    show ?thesis unfolding r c row column grid_neighbors_nat by auto
  qed
  then show ?thesis unfolding s by (auto simp: NumberOfValidators_def)
qed

lemma areGridNeighbors_sym: "areGridNeighbors i j \<longleftrightarrow> areGridNeighbors j i"
  unfolding grid_neighbors_nat by metis

lemma IsNeighbor_sym: "IsNeighbor m k1 k2 e = IsNeighbor m k2 k1 e"
  unfolding IsNeighbor_def Let_def using areGridNeighbors_sym by (cases "FindValidatorIndex m k1"; cases "FindValidatorIndex m k2") auto

lemma find_index_result:
  "find_index i vs key = Some n \<Longrightarrow> i \<le> n \<and> n < i + length vs \<and> (\<exists>k. vs ! (n - i) = Some k \<and> Ed25519 k = key)"
proof (induction vs arbitrary: i)
  case (Cons v vs)
  show ?case
  proof (cases "\<exists>k \<in> set_option v. Ed25519 k = key")
    case True
    then show ?thesis using Cons.prems by auto
  next
    case False
    then have "Suc i \<le> n \<and> n < Suc i + length vs \<and> (\<exists>k. vs ! (n - Suc i) = Some k \<and> Ed25519 k = key)"
      using Cons.IH [of "Suc i"] Cons.prems by simp
    then show ?thesis by (simp add: nth_Cons')
  qed
qed simp

lemma common_neighbor:
  assumes "unat i < NumberOfValidators" "unat j < NumberOfValidators"
  obtains k :: u16 where "unat k < NumberOfValidators" "unat k div 31 = unat i div 31" "unat k mod 31 = unat j mod 31"
proof -
  let ?k = "31 * (unat i div 31) + unat j mod 31"
  have d: "?k div 31 = unat i div 31" "?k mod 31 = unat j mod 31" by simp_all
  have "?k < 1023"
    using div_less_iff_less_mult [of 31 ?k 33] div_less_iff_less_mult [of 31 "unat i" 33] assms(1) unfolding d NumberOfValidators_def by simp
  then have "unat (of_nat ?k :: u16) = ?k" by (rule unat16_index)
  then show thesis using that [of "of_nat ?k"] \<open>?k < 1023\<close> d by (simp add: NumberOfValidators_def)
qed

section \<open>Properties\<close>

text \<open>
  C38: \<^bold>\<open>announcements reach everyone in two hops.\<close> The neighbours of a validator are exactly the other validators of its
  row and column; the relation is symmetric, and any two validators are neighbours or have a
  neighbour in common.
\<close>

theorem grid_two_hops:
  assumes "unat i < NumberOfValidators" "unat j < NumberOfValidators" "i \<noteq> j"
  shows "(j \<in> set (getCurrentEpochNeighborIndices i) \<longleftrightarrow> areGridNeighbors i j) \<and>
    (j \<in> set (getCurrentEpochNeighborIndices i) \<longleftrightarrow> i \<in> set (getCurrentEpochNeighborIndices j)) \<and>
    (j \<in> set (getCurrentEpochNeighborIndices i) \<or>
     (\<exists>k \<in> set (getCurrentEpochNeighborIndices i). j \<in> set (getCurrentEpochNeighborIndices k)))"
proof -
  have n: "j \<in> set (getCurrentEpochNeighborIndices i) \<longleftrightarrow> areGridNeighbors i j" "i \<in> set (getCurrentEpochNeighborIndices j) \<longleftrightarrow> areGridNeighbors j i"
    using neighbor_indices [OF assms(1)] neighbor_indices [OF assms(2)] assms by simp_all
  have "\<exists>k \<in> set (getCurrentEpochNeighborIndices i). j \<in> set (getCurrentEpochNeighborIndices k)" if "\<not> areGridNeighbors i j"
  proof -
    obtain k :: u16 where k: "unat k < NumberOfValidators" "unat k div 31 = unat i div 31" "unat k mod 31 = unat j mod 31"
      using common_neighbor [OF assms(1,2)] .
    have "areGridNeighbors i k" "areGridNeighbors k j" using k(2,3) unfolding grid_neighbors_nat by simp_all
    moreover have "k \<noteq> i" "j \<noteq> k" using that calculation by auto
    ultimately show ?thesis using neighbor_indices [OF assms(1)] neighbor_indices [OF k(1)] k(1) assms(2) by blast
  qed
  then show ?thesis using n areGridNeighbors_sym by blast
qed

theorem grid_two_hops_witness:
  "\<not> areGridNeighbors 0 1022 \<and> (\<exists>k \<in> set (getCurrentEpochNeighborIndices 0). 1022 \<in> set (getCurrentEpochNeighborIndices k))"
proof -
  have "\<not> areGridNeighbors 0 1022" unfolding grid_neighbors_nat by simp
  moreover have "unat (0 :: u16) < NumberOfValidators" "unat (1022 :: u16) < NumberOfValidators" "(0 :: u16) \<noteq> 1022"
    by (simp_all add: NumberOfValidators_def)
  ultimately show ?thesis using grid_two_hops [of 0 1022] by blast
qed

end
