(* ===== verification/Spec2Isabelle.thy ===== *)
theory Spec2Isabelle
  imports Block_Seal State_Transition State_Trie Block_Service Validator_Grid
begin

text \<open>
  A verification library for strawberry, a client of the JAM chain written in Go. Names of files are
  relative to \<^verbatim>\<open>src/\<close>. The definitions keep the names of the functions and types they translate.

  \<^bold>\<open>The program and its parts.\<close> A block arrives as octets and is decoded by the codec
  (\<^verbatim>\<open>pkg/serialization/codec/jam\<close>). The state transition (\<^verbatim>\<open>internal/statetransition\<close>) takes a state and a block to the
  next state: it checks the guarantees of work reports, clears disputed reports, advances Safrole
  (the lottery for authors, with the signatures of \<^verbatim>\<open>internal/crypto/bandersnatch\<close>), counts assurances,
  puts reports on cores, accumulates them by running the code of services on the virtual machine
  (\<^verbatim>\<open>internal/polkavm\<close>) with its host functions, and updates the histories, statistics and pools. Blocks
  are kept in a key-value store (\<^verbatim>\<open>internal/store\<close>, \<^verbatim>\<open>pkg/db\<close>); Merkle trees (\<^verbatim>\<open>internal/merkle\<close>) commit to data
  and state.

  \<^bold>\<open>Conventions.\<close> A structure is a record, an array a list of its length, an integer a word of its
  width. A call that returns an error is \<open>('e + 'a) option\<close>: \<open>raise e\<close> is the error, \<open>ret x\<close> the result and
  \<open>None\<close> a panic of the run-time system. Loops that may run for ever are \<open>partial_function (option)\<close>; a run of a
  program is \<open>'a option option\<close>, where the outer \<open>None\<close> means that it never returns. Maps that are shared and changed
  are references into a heap of maps, so that aliasing is visible; maps that are only read are association
  lists. Libraries (hash functions, signatures, rings, the database, the clock) are parameters; what a
  theorem needs of them is a hypothesis. Orders that Go leaves open (goroutines, iterations over maps,
  equal elements in sorting) are parameters as well.

  \<^bold>\<open>Theories.\<close>

  \<^item> \<open>Prelude\<close>: words, octets, slices with their run-time checks, results and their bind.
  \<^item> \<open>Jam_Natural\<close>, \<open>Jam_Codec\<close>, \<open>Jam_Roundtrip\<close> (\<^verbatim>\<open>pkg/serialization/codec/jam\<close>): fixed-width and general naturals,
    the reflective encoder and decoder over datatypes of Go types and values. Decoding what was
    encoded gives the value back and leaves the rest of the input; the decoder always returns. The
    depth argument bounds the nesting of calls, and \<open>stack_depth\<close> of a type is enough for it.
  \<^item> \<open>Pvm_Memory\<close>, \<open>Pvm_Program\<close>, \<open>Pvm_Instance\<close>, \<open>Pvm_Mutations\<close>, \<open>Pvm_Step\<close>, \<open>Pvm_Invocation\<close>
    (\<^verbatim>\<open>internal/polkavm\<close> and \<^verbatim>\<open>internal/polkavm/interpreter\<close>): memory segments, programs, the state of
    the machine, one definition for each instruction, the step and the three invocations. \<open>Pvm_Invariants\<close> shows
    what every step keeps; \<open>Pvm_Alu\<close> compares the instructions with a reference arithmetic. Runs end
    because every step costs gas; they keep the program and protected memory; a run is a sequence of
    steps.
  \<^item> \<open>Service_Accounts\<close>, \<open>Work_Package\<close>, \<open>Host_General\<close>, \<open>Host_Accumulate\<close>, \<open>Host_Invocations\<close>
    (\<^verbatim>\<open>internal/service\<close>, \<^verbatim>\<open>internal/work\<close>, \<^verbatim>\<open>internal/polkavm/host_call\<close>, \<^verbatim>\<open>internal/authorization\<close>,
    \<^verbatim>\<open>internal/statetransition/accumulate.go\<close> and \<^verbatim>\<open>on_transfer.go\<close>): accounts, packages, the host functions
    and the invocations that serve them. The locale \<open>gas_host\<close> states what a host must do with gas; every
    host of the program is an interpretation, which gives termination of its invocation.
  \<^item> \<open>Jam_Time\<close>, \<open>Shuffling\<close> (\<^verbatim>\<open>internal/jamtime\<close>, \<^verbatim>\<open>internal/common\<close>): seconds, timeslots and epochs; the shuffle is
    a permutation.
  \<^item> \<open>Binary_Merkle\<close>, \<open>Mountain_Range\<close>, \<open>State_Trie\<close> (\<^verbatim>\<open>internal/merkle\<close>): roots, traces and proofs, peaks, and the
    trie of the state with its node store.
  \<^item> \<open>Blocks\<close>, \<open>Chain_Store\<close> (\<^verbatim>\<open>internal/block\<close>, \<^verbatim>\<open>internal/store\<close>, \<^verbatim>\<open>pkg/db\<close>): blocks with the types the codec sees, and
    the store of blocks: what was put is found, sequences of blocks descend.
  \<^item> \<open>Bandersnatch_Vrf\<close>, \<open>Safrole\<close>, \<open>Jam_State\<close>, \<open>Block_Seal\<close> (\<^verbatim>\<open>internal/crypto\<close>, \<^verbatim>\<open>internal/safrole\<close>,
    \<^verbatim>\<open>internal/validator\<close>, \<^verbatim>\<open>internal/state\<close>): signatures, tickets, epochs, sealing and verifying seals.
  \<^item> \<open>Disputes\<close>, \<open>Availability\<close>, \<open>Guarantees\<close>, \<open>Accumulation\<close>, \<open>State_Transition\<close>
    (\<^verbatim>\<open>internal/statetransition/state_transition.go\<close>): judgements only grow and need signed votes; exactly the
    reports with enough assurances become available; three validators serve each core, and only
    their signatures put reports on it; what accumulation does with reports, services and gas; and
    \<^verbatim>\<open>UpdateState\<close>, which is characterised by \<open>UpdateState_steps\<close>: it accepts a block exactly when all steps
    succeed one after the other.
  \<^item> \<open>Block_Service\<close>, \<open>Validator_Grid\<close> (\<^verbatim>\<open>internal/chain/service.go\<close>, \<^verbatim>\<open>internal/validator/grid.go\<close>): the leaves and the finalized
    block of a node and how a new header changes them; the grid of validators, in which any two are at most
    two hops apart.

  \<^bold>\<open>Bounds and fuel.\<close> No definition is cut off by fuel but the codec, whose depth argument is the depth of the
  call stack. Loops over words (\<^verbatim>\<open>CheckIndex\<close>, \<^verbatim>\<open>FindHeader\<close>, the runs of the machine) are total or partial functions;
  theorems that they return are stated as such. Constants of the chain have the values of the
  full configuration (1023 validators, 341 cores, epochs of 600 slots).

  \<^bold>\<open>Deviations.\<close> Several theorems state what the code does where it differs from its comments: queued reports that
  are lost, services that accumulation deletes, repeated assurances that count, the inverted age of
  the lookup anchor, parts of the state that no block changes. The properties say so in their text.

  \<^bold>\<open>Not modelled.\<close> The two Rust libraries (\<^verbatim>\<open>bandersnatch\<close>, \<^verbatim>\<open>erasurecoding\<close>) and their bindings are calls of
  foreign code; they appear as the parameters \<open>VrfLibrary\<close> and the hash and signature functions. The network
  (\<^verbatim>\<open>pkg/network\<close>, \<^verbatim>\<open>cmd\<close>) is input and output over QUIC and TLS. Test helpers are left out. Locks are left out where
  every operation that holds one is a single step of the model.
\<close>

end
